(* ===== verification/Prelude.thy ===== *)
theory Prelude
  imports Main "HOL-Library.Word" "HOL-Library.Char_ord" "HOL-Library.List_Lexorder"
begin

text \<open>
  Shared vocabulary of the errex development: the development's theorem collections, the
  model's base types, and the operations of Rust's standard library on \<open>str\<close> and on
  slices that the daemon uses.

  A Rust \<open>str\<close> is its UTF-8 byte sequence, so it is a HOL \<open>string\<close> whose characters are
  bytes; a \<open>[u8]\<close> slice has the same type. \<open>len()\<close> is then \<open>length\<close>, \<open>chars().count()\<close>
  is \<open>chars_count\<close>, and \<open>trim\<close> strips Unicode white space by its UTF-8 encodings. The order
  on strings is the byte-wise lexicographic one, which is also SQLite's BINARY collation.
\<close>

named_theorems pres_intros \<open>rules that show an operation keeps an invariant\<close>
named_theorems op_simps \<open>unfolding of the effect combinators on a given world\<close>

section \<open>Base types\<close>

type_synonym bytes = string
type_synonym u64 = "64 word"
type_synonym u32 = "32 word"
type_synonym u16 = "16 word"
type_synonym u8 = "8 word"

text \<open>A \<open>DateTime<Utc>\<close> is an instant and a \<open>Duration\<close> a distance, both in nanoseconds.\<close>

type_synonym time = int
type_synonym duration = int

abbreviation dur_secs :: "int \<Rightarrow> duration" where
  "dur_secs n \<equiv> n * 1000000000"

abbreviation dur_minutes :: "int \<Rightarrow> duration" where
  "dur_minutes n \<equiv> dur_secs (n * 60)"

abbreviation dur_hours :: "int \<Rightarrow> duration" where
  "dur_hours n \<equiv> dur_secs (n * 3600)"

abbreviation dur_days :: "int \<Rightarrow> duration" where
  "dur_days n \<equiv> dur_secs (n * 86400)"

text \<open>Rust's signed integer division rounds towards zero; the code divides by positive numbers only.\<close>

definition trunc_div :: "int \<Rightarrow> int \<Rightarrow> int" where
  "trunc_div a b = (if a < 0 then - ((- a) div b) else a div b)"

lemma trunc_div_nonneg: "0 \<le> a \<Longrightarrow> 0 < b \<Longrightarrow> trunc_div a b = a div b"
  by (simp add: trunc_div_def)

section \<open>Bytes and characters\<close>

abbreviation byte :: "char \<Rightarrow> nat" where
  "byte c \<equiv> of_char c"

text \<open>Continuation bytes of UTF-8 are \<open>10xxxxxx\<close>; every other byte starts a \<open>char\<close>.\<close>

definition is_cont :: "char \<Rightarrow> bool" where
  "is_cont c \<longleftrightarrow> 128 \<le> byte c \<and> byte c < 192"

definition chars_count :: "string \<Rightarrow> nat" where
  "chars_count s = length (filter (\<lambda>c. \<not> is_cont c) s)"

definition ascii_lower :: "char \<Rightarrow> char" where
  "ascii_lower c = (if 65 \<le> byte c \<and> byte c \<le> 90 then char_of (byte c + 32) else c)"

definition to_ascii_lowercase :: "string \<Rightarrow> string" where
  "to_ascii_lowercase s = map ascii_lower s"

definition eq_ignore_ascii_case :: "string \<Rightarrow> string \<Rightarrow> bool" where
  "eq_ignore_ascii_case a b \<longleftrightarrow> to_ascii_lowercase a = to_ascii_lowercase b"

lemma chars_count_le: "chars_count s \<le> length s"
  by (simp add: chars_count_def)

lemma length_to_ascii_lowercase [simp]: "length (to_ascii_lowercase s) = length s"
  by (simp add: to_ascii_lowercase_def)

section \<open>White space\<close>

text \<open>
  \<open>ws1\<close>, \<open>ws2\<close> and \<open>ws3\<close> recognise the one, two and three byte encodings of the characters with
  the Unicode property \<open>White_Space\<close>, which is what \<open>char::is_whitespace\<close> tests.
\<close>

definition ws1 :: "char \<Rightarrow> bool" where
  "ws1 c \<longleftrightarrow> byte c = 32 \<or> (9 \<le> byte c \<and> byte c \<le> 13)"

definition ws2 :: "char \<Rightarrow> char \<Rightarrow> bool" where
  "ws2 a b \<longleftrightarrow> byte a = 194 \<and> (byte b = 133 \<or> byte b = 160)"

definition ws3 :: "char \<Rightarrow> char \<Rightarrow> char \<Rightarrow> bool" where
  "ws3 a b c \<longleftrightarrow>
     (byte a = 225 \<and> byte b = 154 \<and> byte c = 128)
   \<or> (byte a = 226 \<and> byte b = 128 \<and>
        ((128 \<le> byte c \<and> byte c \<le> 138) \<or> byte c = 168 \<or> byte c = 169 \<or> byte c = 175))
   \<or> (byte a = 226 \<and> byte b = 129 \<and> byte c = 159)
   \<or> (byte a = 227 \<and> byte b = 128 \<and> byte c = 128)"

text \<open>Byte length of the white space character a string starts (or, reversed, ends) with.\<close>

fun ws_head :: "string \<Rightarrow> nat" where
  "ws_head [] = 0"
| "ws_head (a # s) =
     (if ws1 a then 1
      else case s of
        b # c # _ \<Rightarrow> if ws2 a b then 2 else if ws3 a b c then 3 else 0
      | [b] \<Rightarrow> if ws2 a b then 2 else 0
      | [] \<Rightarrow> 0)"

fun ws_last :: "string \<Rightarrow> nat" where
  "ws_last [] = 0"
| "ws_last (a # s) =
     (if ws1 a then 1
      else case s of
        b # c # _ \<Rightarrow> if ws2 b a then 2 else if ws3 c b a then 3 else 0
      | [b] \<Rightarrow> if ws2 b a then 2 else 0
      | [] \<Rightarrow> 0)"

fun strip_by :: "(string \<Rightarrow> nat) \<Rightarrow> string \<Rightarrow> string" where
  "strip_by w [] = []"
| "strip_by w (c # s) =
     (if w (c # s) = 0 then c # s else strip_by w (drop (w (c # s) - 1) s))"

definition trim_start :: "string \<Rightarrow> string" where
  "trim_start s = strip_by ws_head s"

definition trim_end :: "string \<Rightarrow> string" where
  "trim_end s = rev (strip_by ws_last (rev s))"

definition trim :: "string \<Rightarrow> string" where
  "trim s = trim_end (trim_start s)"

lemma strip_by_fix: "strip_by w s = [] \<or> w (strip_by w s) = 0"
  by (induction w s rule: strip_by.induct) auto

lemma length_strip_by: "length (strip_by w s) \<le> length s"
  by (induction w s rule: strip_by.induct) (auto intro: le_trans)

lemma length_trim: "length (trim s) \<le> length s"
  using length_strip_by [of ws_last "rev (strip_by ws_head s)"] length_strip_by [of ws_head s]
  by (simp add: trim_def trim_start_def trim_end_def)

lemma trim_Nil [simp]: "trim [] = []"
  by (simp add: trim_def trim_start_def trim_end_def)

text \<open>Printable ASCII is never white space.\<close>

definition graphic :: "char \<Rightarrow> bool" where
  "graphic c \<longleftrightarrow> 33 \<le> byte c \<and> byte c \<le> 126"

lemma ws_head_graphic: "graphic c \<Longrightarrow> ws_head (c # s) = 0"
  by (auto simp: graphic_def ws1_def ws2_def ws3_def split: list.split)

lemma ws_last_graphic: "graphic c \<Longrightarrow> ws_last (c # s) = 0"
  by (auto simp: graphic_def ws1_def ws2_def ws3_def split: list.split)

lemma trim_graphic:
  assumes "list_all graphic s"
  shows "trim s = s"
proof -
  have "strip_by ws_head s = s" using assms by (cases s) (auto simp: ws_head_graphic simp del: ws_head.simps)
  moreover have "list_all graphic (rev s)" using assms by simp
  then have "strip_by ws_last (rev s) = rev s" by (cases "rev s") (auto simp: ws_last_graphic simp del: ws_last.simps)
  ultimately show ?thesis by (simp add: trim_def trim_start_def trim_end_def)
qed

section \<open>Searching and splitting\<close>

definition starts_with :: "string \<Rightarrow> string \<Rightarrow> bool" where
  "starts_with p s \<longleftrightarrow> take (length p) s = p"

definition ends_with :: "string \<Rightarrow> string \<Rightarrow> bool" where
  "ends_with p s \<longleftrightarrow> starts_with (rev p) (rev s)"

definition strip_prefix :: "string \<Rightarrow> string \<Rightarrow> string option" where
  "strip_prefix p s = (if starts_with p s then Some (drop (length p) s) else None)"

text \<open>\<open>s.split_once(pat)\<close>: split around the first occurrence of \<open>pat\<close>.\<close>

fun split_once :: "string \<Rightarrow> string \<Rightarrow> (string \<times> string) option" where
  "split_once pat [] = (if pat = [] then Some ([], []) else None)"
| "split_once pat (c # s) =
     (if starts_with pat (c # s) then Some ([], drop (length pat) (c # s))
      else map_option (\<lambda>(a, b). (c # a, b)) (split_once pat s))"

definition contains :: "string \<Rightarrow> string \<Rightarrow> bool" where
  "contains pat s \<longleftrightarrow> split_once pat s \<noteq> None"

text \<open>\<open>s.rsplit_once(c)\<close> for a one-byte separator.\<close>

definition rsplit_once :: "char \<Rightarrow> string \<Rightarrow> (string \<times> string) option" where
  "rsplit_once c s =
     map_option (\<lambda>(a, b). (rev b, rev a)) (split_once [c] (rev s))"

text \<open>\<open>s.split(p)\<close>: always at least one segment; \<open>p\<close> is a set of one-byte separators.\<close>

fun split_by :: "(char \<Rightarrow> bool) \<Rightarrow> string \<Rightarrow> string list" where
  "split_by p [] = [[]]"
| "split_by p (c # s) =
     (if p c then [] # split_by p s
      else (case split_by p s of [] \<Rightarrow> [[c]] | q # qs \<Rightarrow> (c # q) # qs))"

text \<open>\<open>trim_start_matches\<close>, \<open>trim_end_matches\<close> and \<open>trim_matches\<close> for one byte.\<close>

definition trim_start_matches :: "char \<Rightarrow> string \<Rightarrow> string" where
  "trim_start_matches c s = dropWhile (\<lambda>x. x = c) s"

definition trim_end_matches :: "char \<Rightarrow> string \<Rightarrow> string" where
  "trim_end_matches c s = rev (dropWhile (\<lambda>x. x = c) (rev s))"

definition trim_matches :: "char \<Rightarrow> string \<Rightarrow> string" where
  "trim_matches c s = trim_end_matches c (trim_start_matches c s)"

text \<open>\<open>split_whitespace\<close>: the maximal runs without white space.\<close>

fun split_ws_acc :: "string \<Rightarrow> string \<Rightarrow> string list" where
  "split_ws_acc acc [] = (if acc = [] then [] else [rev acc])"
| "split_ws_acc acc (c # s) =
     (if ws_head (c # s) = 0 then split_ws_acc (c # acc) s
      else (if acc = [] then [] else [rev acc])
           @ split_ws_acc [] (drop (ws_head (c # s) - 1) s))"

definition split_whitespace :: "string \<Rightarrow> string list" where
  "split_whitespace s = split_ws_acc [] s"

lemma starts_with_iff: "starts_with p s \<longleftrightarrow> (\<exists>r. s = p @ r)"
  by (metis append_eq_conv_conj append_take_drop_id starts_with_def)

lemma starts_with_append [simp]: "starts_with p (p @ r)"
  by (simp add: starts_with_def)

lemma strip_prefix_Some: "strip_prefix p s = Some r \<longleftrightarrow> s = p @ r"
  by (auto simp: strip_prefix_def starts_with_iff)

lemma split_once_Some: "split_once pat s = Some (a, b) \<Longrightarrow> s = a @ pat @ b"
proof (induction pat s arbitrary: a b rule: split_once.induct)
  case (2 pat c s)
  then show ?case
    by (auto simp: starts_with_iff split: if_splits)
qed (auto split: if_splits)

lemma split_once_found: "split_once pat (a @ pat @ b) \<noteq> None"
proof (induction a)
  case Nil
  have "starts_with pat (pat @ b)" by simp
  then show ?case
    by (cases "pat @ b") auto
next
  case (Cons c a)
  then show ?case by auto
qed

lemma contains_iff: "contains pat s \<longleftrightarrow> (\<exists>a b. s = a @ pat @ b)"
  unfolding contains_def
  by (metis not_None_eq split_once_Some split_once_found surj_pair)

lemma split_by_nonempty [simp]: "split_by p s \<noteq> []"
  by (induction s) (auto split: list.splits)

lemma split_by_no_sep: "q \<in> set (split_by p s) \<Longrightarrow> c \<in> set q \<Longrightarrow> \<not> p c"
  by (induction s arbitrary: q) (fastforce split: if_splits list.splits)+

section \<open>Decimal and hexadecimal formatting\<close>

definition digit_char :: "nat \<Rightarrow> char" where
  "digit_char n = char_of (48 + n)"

fun show_nat :: "nat \<Rightarrow> string" where
  "show_nat n = (if n < 10 then [digit_char n] else show_nat (n div 10) @ [digit_char (n mod 10)])"

declare show_nat.simps [simp del]

definition show_int :: "int \<Rightarrow> string" where
  "show_int i = (if i < 0 then CHR ''-'' # show_nat (nat (- i)) else show_nat (nat i))"

definition hex_digit :: "nat \<Rightarrow> char" where
  "hex_digit n = (if n < 10 then char_of (48 + n) else char_of (87 + n))"

text \<open>\<open>{:02x}\<close> of every byte, as \<open>Uuid::simple\<close> prints its sixteen bytes.\<close>

definition hex_byte :: "char \<Rightarrow> string" where
  "hex_byte c = [hex_digit (byte c div 16), hex_digit (byte c mod 16)]"

definition is_hex_digit :: "char \<Rightarrow> bool" where
  "is_hex_digit c \<longleftrightarrow> (48 \<le> byte c \<and> byte c \<le> 57) \<or> (97 \<le> byte c \<and> byte c \<le> 102)"

lemma byte_char_of: "n < 256 \<Longrightarrow> byte (char_of n) = (n :: nat)"
  by (simp add: take_bit_nat_eq_self)

lemma byte_hex_digit: "n < 16 \<Longrightarrow> byte (hex_digit n) = (if n < 10 then 48 + n else 87 + n)"
  by (simp add: hex_digit_def byte_char_of del: of_char_of)

lemma is_hex_digit_hex_digit: "n < 16 \<Longrightarrow> is_hex_digit (hex_digit n)"
  by (simp add: is_hex_digit_def byte_hex_digit)

lemma hex_digit_inj: "m < 16 \<Longrightarrow> n < 16 \<Longrightarrow> hex_digit m = hex_digit n \<Longrightarrow> m = n"
  by (drule arg_cong [where f = byte]) (simp add: byte_hex_digit split: if_splits)

section \<open>Lists of rows\<close>

lemma distinct_map_filter: "distinct (map f xs) \<Longrightarrow> distinct (map f (filter P xs))"
  by (induction xs) auto

lemma distinct_map_update:
  assumes "distinct (map k xs)" and "\<And>x. x \<in> set xs \<Longrightarrow> k (f x) = k x"
  shows "distinct (map k (map f xs))"
proof -
  have "map k (map f xs) = map k xs"
    using assms(2) by simp
  with assms(1) show ?thesis by metis
qed

lemma filter_key_singleton:
  "distinct (map k xs) \<Longrightarrow> x \<in> set xs \<Longrightarrow> filter (\<lambda>y. k y = k x) xs = [x]"
proof (induction xs)
  case (Cons a xs)
  show ?case
  proof (cases "a = x")
    case True
    then have "filter (\<lambda>y. k y = k x) xs = []"
      using Cons.prems(1) by (auto simp: filter_empty_conv) (metis image_eqI)
    with True show ?thesis by simp
  next
    case False
    with Cons.prems have "k a \<noteq> k x" by force
    with False Cons show ?thesis by simp
  qed
qed simp

lemma find_key_Some:
  "distinct (map k xs) \<Longrightarrow> x \<in> set xs \<Longrightarrow> find (\<lambda>y. k y = k x) xs = Some x"
  by (induction xs) force+

lemma find_SomeD: "find P xs = Some x \<Longrightarrow> x \<in> set xs \<and> P x"
  by (induction xs) (auto split: if_splits)

lemma find_map_update:
  "(\<And>x. P (f x) = P x) \<Longrightarrow> find P (map f xs) = map_option f (find P xs)"
  by (induction xs) auto

end
