(* ===== verification/Proto.thy ===== *)
theory Proto
  imports Prelude Complex_Main
begin

text \<open>
  The wire crate \<open>crates/errex-proto/src\<close>: the event an SDK sends (\<open>event.rs\<close>), the grouped issue
  and its triage state (\<open>issue.rs\<close>), the messages of the WebSocket fan-out (\<open>wire.rs\<close>), the bounded
  label set of a metric point (\<open>metric.rs\<close>) and the crate's errors (\<open>error.rs\<close>).

  \<open>serde_json::Value\<close> is the datatype \<open>json\<close>; an object is an association list in the key order
  of serde's map, which never repeats a key. A number is an unsigned or negative integer or a
  float, the float being the rational it denotes; the rounding of floating point arithmetic is the
  parameter \<open>rnd\<close> of the definitions that compute with floats.
\<close>

section \<open>JSON values\<close>

datatype json_num = PosInt u64 | NegInt int | Float rat

datatype json =
    JNull
  | JBool bool
  | JNum json_num
  | JStr string
  | JArr "json list"
  | JObj "(string \<times> json) list"

definition json_get :: "string \<Rightarrow> json \<Rightarrow> json option" where
  "json_get k v = (case v of JObj kvs \<Rightarrow> map_of kvs k | _ \<Rightarrow> None)"

definition json_as_str :: "json \<Rightarrow> string option" where
  "json_as_str v = (case v of JStr s \<Rightarrow> Some s | _ \<Rightarrow> None)"

definition json_as_u64 :: "json \<Rightarrow> u64 option" where
  "json_as_u64 v = (case v of JNum (PosInt n) \<Rightarrow> Some n | _ \<Rightarrow> None)"

section \<open>Errors\<close>

datatype proto_error =
    InvalidEnvelope string
  | InvalidEvent string
  | InvalidMetric string
  | ProtoJson

section \<open>Events\<close>

datatype level = Debug | Info | Warning | Error | Fatal

record frame =
  fr_filename :: "string option"
  fr_function :: "string option"
  fr_module :: "string option"
  fr_lineno :: "u32 option"
  fr_colno :: "u32 option"
  fr_in_app :: "bool option"

record stacktrace =
  st_frames :: "frame list"

record exception_info =
  ex_ty :: "string option"
  ex_value :: "string option"
  ex_module :: "string option"
  ex_stacktrace :: "stacktrace option"

record exception_container =
  ec_values :: "exception_info list"

record event =
  ev_event_id :: bytes \<comment> \<open>the sixteen bytes of the UUID\<close>
  ev_timestamp :: time
  ev_platform :: "string option"
  ev_level :: "level option"
  ev_environment :: "string option"
  ev_release :: "string option"
  ev_server_name :: "string option"
  ev_message :: "string option"
  ev_exception :: "exception_container option"
  ev_breadcrumbs :: "json option"
  ev_tags :: "json option"
  ev_contexts :: "json option"
  ev_extra :: "json option"
  ev_user :: "json option"
  ev_request :: "json option"

definition first_opt :: "'a list \<Rightarrow> 'a option" where
  "first_opt xs = (case xs of [] \<Rightarrow> None | x # _ \<Rightarrow> Some x)"

definition last_opt :: "'a list \<Rightarrow> 'a option" where
  "last_opt xs = first_opt (rev xs)"

definition primary_exception :: "event \<Rightarrow> exception_info option" where
  "primary_exception e = Option.bind (ev_exception e) (\<lambda>c. first_opt (ec_values c))"

definition first_frame :: "exception_info \<Rightarrow> frame option" where
  "first_frame x = Option.bind (ex_stacktrace x) (\<lambda>s. last_opt (st_frames s))"

definition event_title :: "event \<Rightarrow> string" where
  "event_title e =
     (case primary_exception e of
        Some ex \<Rightarrow>
          (case (ex_ty ex, ex_value ex) of
             (Some t, Some v) \<Rightarrow> t @ '': '' @ v
           | (Some t, None) \<Rightarrow> t
           | (None, Some v) \<Rightarrow> v
           | (None, None) \<Rightarrow> ''Unknown exception'')
      | None \<Rightarrow>
          (case ev_message e of Some msg \<Rightarrow> msg | None \<Rightarrow> ''Unknown event''))"

lemma last_opt_Some: "last_opt xs = Some x \<Longrightarrow> x \<in> set xs"
  by (cases xs rule: rev_cases) (auto simp: last_opt_def first_opt_def)

lemma event_title_message:
  "primary_exception e = None \<Longrightarrow> ev_message e = Some m \<Longrightarrow> event_title e = m"
  by (simp add: event_title_def)

section \<open>The timestamp of an event\<close>

text \<open>
  \<open>f64::round\<close> rounds half away from zero, \<open>trunc\<close> towards zero, and \<open>as i64\<close> saturates.
  \<open>parse\<close> is chrono's RFC 3339 parser and \<open>from_timestamp\<close> its constructor from seconds and
  nanoseconds; both may refuse.
\<close>

definition rat_trunc :: "rat \<Rightarrow> int" where
  "rat_trunc q = (if q < 0 then - \<lfloor>- q\<rfloor> else \<lfloor>q\<rfloor>)"

definition rat_round :: "rat \<Rightarrow> int" where
  "rat_round q = (if q < 0 then - \<lfloor>- q + 1 / 2\<rfloor> else \<lfloor>q + 1 / 2\<rfloor>)"

definition sat_i64 :: "int \<Rightarrow> int" where
  "sat_i64 i = max (- (2 ^ 63)) (min (2 ^ 63 - 1) i)"

definition number_as_f64 :: "(rat \<Rightarrow> rat) \<Rightarrow> json_num \<Rightarrow> rat" where
  "number_as_f64 rnd n =
     (case n of PosInt k \<Rightarrow> rnd (of_nat (unat k)) | NegInt i \<Rightarrow> rnd (of_int i) | Float q \<Rightarrow> q)"

definition timestamp_nanos :: "(rat \<Rightarrow> rat) \<Rightarrow> rat \<Rightarrow> int" where
  "timestamp_nanos rnd secs_f =
     (let frac = secs_f - of_int (rat_trunc secs_f)
      in max 0 (min 999999999 (rat_round (rnd (frac * 1000000000)))))"

definition deserialize_sentry_timestamp ::
  "(rat \<Rightarrow> rat) \<Rightarrow> (string \<Rightarrow> time option) \<Rightarrow> (int \<Rightarrow> int \<Rightarrow> time option) \<Rightarrow> json \<Rightarrow>
     (string, time) sum" where
  "deserialize_sentry_timestamp rnd parse from_timestamp v =
     (case v of
        JStr s \<Rightarrow> (case parse s of Some t \<Rightarrow> Inr t | None \<Rightarrow> Inl ''invalid timestamp'')
      | JNum n \<Rightarrow>
          (let secs_f = number_as_f64 rnd n;
               whole = sat_i64 (rat_trunc secs_f);
               nanos = timestamp_nanos rnd secs_f
           in case from_timestamp whole nanos of
                Some t \<Rightarrow> Inr t
              | None \<Rightarrow> Inl ''timestamp out of range'')
      | other \<Rightarrow>
          Inl (''expected string or number for timestamp, got '' @
            (case other of
               JNull \<Rightarrow> ''null'' | JBool _ \<Rightarrow> ''bool'' | JArr _ \<Rightarrow> ''array''
             | JObj _ \<Rightarrow> ''object'' | _ \<Rightarrow> ''unknown'')))"

lemma timestamp_nanos_bounds:
  "0 \<le> timestamp_nanos rnd q \<and> timestamp_nanos rnd q \<le> 999999999"
  by (simp add: timestamp_nanos_def Let_def)

section \<open>Issues\<close>

type_synonym fingerprint = string

datatype issue_status = Unresolved | Resolved | Muted | Ignored

definition as_db_str :: "issue_status \<Rightarrow> string" where
  "as_db_str s =
     (case s of
        Unresolved \<Rightarrow> ''unresolved''
      | Resolved \<Rightarrow> ''resolved''
      | Muted \<Rightarrow> ''muted''
      | Ignored \<Rightarrow> ''ignored'')"

definition from_db_str :: "string \<Rightarrow> issue_status" where
  "from_db_str s =
     (if s = ''resolved'' then Resolved
      else if s = ''muted'' then Muted
      else if s = ''ignored'' then Ignored
      else Unresolved)"

lemma from_as_db_str [simp]: "from_db_str (as_db_str s) = s"
  by (cases s) (simp_all add: from_db_str_def as_db_str_def)

record issue =
  is_id :: int
  is_project :: string
  is_fingerprint :: fingerprint
  is_title :: string
  is_culprit :: "string option"
  is_level :: "string option"
  is_status :: issue_status
  is_event_count :: int
  is_first_seen :: time
  is_last_seen :: time

section \<open>Fan-out messages\<close>

datatype server_message =
    Hello string
  | Snapshot "issue list"
  | IssueCreated issue
  | IssueUpdated issue

datatype client_message = Ping

section \<open>Metric labels\<close>

datatype metric_kind = Counter | Gauge | Histogram

definition MAX_METRIC_LABELS :: nat where
  "MAX_METRIC_LABELS = 20"

text \<open>A \<open>BTreeMap<String, String>\<close> is an association list with distinct keys, in key order.\<close>

definition metric_labels_try_from ::
  "(string \<times> string) list \<Rightarrow> (proto_error, (string \<times> string) list) sum" where
  "metric_labels_try_from m =
     (if length m > MAX_METRIC_LABELS
      then Inl (InvalidMetric (''metric point carries '' @ show_nat (length m)
             @ '' labels, exceeding the cap of '' @ show_nat MAX_METRIC_LABELS))
      else Inr m)"

definition metric_labels_deserialize ::
  "(json \<Rightarrow> (string \<times> string) list option) \<Rightarrow> json \<Rightarrow> (proto_error, (string \<times> string) list) sum" where
  "metric_labels_deserialize de v =
     (case de v of None \<Rightarrow> Inl ProtoJson | Some m \<Rightarrow> metric_labels_try_from m)"

definition metric_label_get :: "string \<Rightarrow> (string \<times> string) list \<Rightarrow> string option" where
  "metric_label_get k m = map_of m k"

definition metric_labels_len :: "(string \<times> string) list \<Rightarrow> nat" where
  "metric_labels_len m = length m"

definition metric_labels_is_empty :: "(string \<times> string) list \<Rightarrow> bool" where
  "metric_labels_is_empty m \<longleftrightarrow> m = []"

definition metric_labels_iter :: "(string \<times> string) list \<Rightarrow> (string \<times> string) list" where
  "metric_labels_iter m = map (\<lambda>(k, v). (k, v)) m"

record metric_point =
  mp_name :: string
  mp_kind :: metric_kind
  mp_value :: rat
  mp_timestamp :: time
  mp_labels :: "(string \<times> string) list"

lemma metric_labels_views:
  assumes "distinct (map fst m)"
  shows "metric_label_get k m = Some v \<longleftrightarrow> (k, v) \<in> set (metric_labels_iter m)"
    and "metric_labels_len m = card (set (metric_labels_iter m))"
    and "metric_labels_is_empty m \<longleftrightarrow> metric_labels_len m = 0"
  using assms distinct_card [of m]
  by (auto simp: metric_label_get_def metric_labels_iter_def metric_labels_len_def metric_labels_is_empty_def
        distinct_map)

lemma metric_labels_capped:
  "metric_labels_deserialize de v = Inr m \<Longrightarrow> length m \<le> MAX_METRIC_LABELS"
  by (auto simp: metric_labels_deserialize_def metric_labels_try_from_def
        split: option.splits if_splits)

end
