(* ===== verification/Externs.thy ===== *)
theory Externs
  imports Proto
begin

text \<open>
  What the daemon calls but does not implement. The functions of the third-party crates and of
  SQLite are the fields of one record, the first argument of every definition that uses one of
  them; a theorem that relies on how one of them behaves names that behaviour as a hypothesis,
  stated here as a predicate on the record.

  The outcome of Rust code is a value, an error, or a panic. The release profile of the workspace
  sets \<open>panic = "abort"\<close>, so a panic in any task ends the daemon.
\<close>

section \<open>Outcomes\<close>

datatype ('e, 'a) outcome = Ok 'a | Err 'e | Panic

definition obind :: "('e, 'a) outcome \<Rightarrow> ('a \<Rightarrow> ('e, 'b) outcome) \<Rightarrow> ('e, 'b) outcome" where
  "obind r f = (case r of Ok x \<Rightarrow> f x | Err e \<Rightarrow> Err e | Panic \<Rightarrow> Panic)"

definition ok_or :: "'e \<Rightarrow> 'a option \<Rightarrow> ('e, 'a) outcome" where
  "ok_or e r = (case r of Some x \<Rightarrow> Ok x | None \<Rightarrow> Err e)"

lemma obind_simps [simp]:
  "obind (Ok x) f = f x" "obind (Err e) f = Err e" "obind Panic f = Panic"
  by (simp_all add: obind_def)

lemma ok_or_simps [simp]: "ok_or e (Some x) = Ok x" "ok_or e None = Err e"
  by (simp_all add: ok_or_def)

lemma obind_Ok_iff: "obind r f = Ok y \<longleftrightarrow> (\<exists>x. r = Ok x \<and> f x = Ok y)"
  by (cases r) auto

lemma obind_Panic_iff: "obind r f = Panic \<longleftrightarrow> r = Panic \<or> (\<exists>x. r = Ok x \<and> f x = Panic)"
  by (cases r) auto

lemma ok_or_Ok_iff [simp]: "ok_or e r = Ok x \<longleftrightarrow> r = Some x"
  by (cases r) auto

lemma ok_or_not_Panic [simp]: "ok_or e r \<noteq> Panic"
  by (cases r) auto

text \<open>Rust's range indexing \<open>&s[a..b]\<close> panics when the range is reversed or out of bounds.\<close>

definition slice :: "'a list \<Rightarrow> nat \<Rightarrow> nat \<Rightarrow> ('e, 'a list) outcome" where
  "slice xs a b = (if a \<le> b \<and> b \<le> length xs then Ok (take (b - a) (drop a xs)) else Panic)"

lemma slice_Ok_iff:
  "slice xs a b = Ok ys \<longleftrightarrow> a \<le> b \<and> b \<le> length xs \<and> ys = take (b - a) (drop a xs)"
  by (auto simp: slice_def)

lemma slice_Panic_iff: "slice xs a b = Panic \<longleftrightarrow> \<not> (a \<le> b \<and> b \<le> length xs)"
  by (auto simp: slice_def)

section \<open>Third-party functions\<close>

text \<open>
  A parsed URL is what the \<open>url\<close> crate's accessors return; the host string keeps the brackets
  of an IPv6 literal.
\<close>

record url =
  u_scheme :: string
  u_username :: string
  u_password :: "string option"
  u_host :: "string option"

datatype ip_addr = V4 u8 u8 u8 u8 | V6 u16 u16 u16 u16 u16 u16 u16 u16

record externs =
  x_json :: "bytes \<Rightarrow> json option"             \<comment> \<open>\<open>serde_json::from_slice::<Value>\<close>\<close>
  x_event :: "bytes \<Rightarrow> event option"           \<comment> \<open>\<open>serde_json::from_slice::<Event>\<close>\<close>
  x_event_json :: "event \<Rightarrow> string"            \<comment> \<open>\<open>serde_json::to_string(&Event)\<close>\<close>
  x_gzip :: "bytes \<Rightarrow> bytes \<times> bool"           \<comment> \<open>what \<open>GzDecoder\<close> yields; did it fail after that\<close>
  x_rfc3339 :: "time \<Rightarrow> string"                \<comment> \<open>chrono \<open>to_rfc3339\<close>\<close>
  x_parse_rfc3339 :: "string \<Rightarrow> time option"    \<comment> \<open>chrono \<open>parse_from_rfc3339\<close>, in UTC\<close>
  x_sqlx_time :: "time \<Rightarrow> string"              \<comment> \<open>the text sqlx binds for a \<open>DateTime<Utc>\<close>\<close>
  x_sqlite_now :: "time \<Rightarrow> string"             \<comment> \<open>SQLite's \<open>CURRENT_TIMESTAMP\<close> at an instant\<close>
  x_minus :: "time \<Rightarrow> int \<Rightarrow> time option"        \<comment> \<open>chrono \<open>t - Duration::days(n)\<close>; \<open>None\<close> is its panic\<close>
  x_hash :: "string \<Rightarrow> string \<Rightarrow> string option" \<comment> \<open>argon2 PHC string of a salt and a password\<close>
  x_verify :: "string \<Rightarrow> string \<Rightarrow> bool option" \<comment> \<open>argon2 check; \<open>None\<close>: the PHC string is unreadable\<close>
  x_url :: "string \<Rightarrow> url option"              \<comment> \<open>\<open>Url::parse\<close>\<close>
  x_ip :: "string \<Rightarrow> ip_addr option"           \<comment> \<open>\<open>str::parse::<IpAddr>\<close>\<close>

section \<open>Documented behaviour of the date formats\<close>

text \<open>
  Instants of the years 0 to 9999, where RFC 3339 has four year digits. On this range the text
  form is order preserving: chrono prints a fixed-width date and time, then a fraction only when
  there is one, then the offset, and the byte of \<open>+\<close> is smaller than that of the decimal point.
\<close>

definition in_text_range :: "time \<Rightarrow> bool" where
  "in_text_range t \<longleftrightarrow> - 62167219200000000000 \<le> t \<and> t < 253402300800000000000"

definition rfc3339_ordered :: "externs \<Rightarrow> bool" where
  "rfc3339_ordered X \<longleftrightarrow>
     (\<forall>a b. in_text_range a \<longrightarrow> in_text_range b \<longrightarrow>
        (x_rfc3339 X a < x_rfc3339 X b \<longleftrightarrow> a < b))"

definition rfc3339_parses :: "externs \<Rightarrow> bool" where
  "rfc3339_parses X \<longleftrightarrow>
     (\<forall>t. in_text_range t \<longrightarrow> x_parse_rfc3339 X (x_rfc3339 X t) = Some t)"

text \<open>
  Both formats start with the same ten-byte date of the UTC day; chrono follows it with \<open>T\<close>,
  SQLite with a space. SQLite's text has no offset, which RFC 3339 requires.
\<close>

definition utc_day :: "time \<Rightarrow> int" where
  "utc_day t = t div 86400000000000"

definition sqlite_text_format :: "externs \<Rightarrow> bool" where
  "sqlite_text_format X \<longleftrightarrow>
     (\<forall>a b. in_text_range a \<longrightarrow> in_text_range b \<longrightarrow> utc_day a = utc_day b \<longrightarrow>
        (\<exists>d r s. length d = 10 \<and> x_rfc3339 X a = d @ CHR ''T'' # r \<and>
                 x_sqlite_now X b = d @ CHR '' '' # s))"

definition sqlite_text_not_rfc3339 :: "externs \<Rightarrow> bool" where
  "sqlite_text_not_rfc3339 X \<longleftrightarrow> (\<forall>t. x_parse_rfc3339 X (x_sqlite_now X t) = None)"

text \<open>
  chrono's dates end with the years \<open>-262143\<close> and \<open>262142\<close>, and its subtraction panics outside of them:
  no date of the years 0 to 9999 is a hundred million days away from another date.
\<close>

definition chrono_bounded :: "externs \<Rightarrow> bool" where
  "chrono_bounded X \<longleftrightarrow>
     (\<forall>t n. in_text_range t \<longrightarrow> 100000000 \<le> n \<longrightarrow> x_minus X t n = None)"

lemma rfc3339_less_iff:
  "rfc3339_ordered X \<Longrightarrow> in_text_range a \<Longrightarrow> in_text_range b \<Longrightarrow>
   x_rfc3339 X a < x_rfc3339 X b \<longleftrightarrow> a < b"
  by (simp add: rfc3339_ordered_def)

lemma rfc3339_le_iff:
  "rfc3339_ordered X \<Longrightarrow> in_text_range a \<Longrightarrow> in_text_range b \<Longrightarrow>
   x_rfc3339 X a \<le> x_rfc3339 X b \<longleftrightarrow> a \<le> b"
  using rfc3339_less_iff [of X b a] by (simp add: not_less [symmetric])

end
