(* ===== verification/Db.thy ===== *)
theory Db
  imports Externs
begin

text \<open>
  The SQLite database and the way the daemon runs statements against it.

  The tables of \<open>crates/errexd/migrations\<close> are lists of rows in rowid order; a \<open>TEXT\<close> column is a
  string and a nullable column an option. The row records are those of \<open>store.rs\<close>.

  An operation of the store is a function from the world (database, clock, fault schedule) to an
  outcome and the next world. Every statement first consults the schedule: \<open>True\<close> makes it fail as
  SQLite would on an I/O error or a busy database, and an exhausted schedule means no more faults,
  so a theorem about all worlds is one about every pattern of failures. A transaction undoes its
  writes unless it commits; the pool has one connection, so nothing interleaves with it. The clock
  does not advance within an operation.
\<close>

section \<open>Rows\<close>

record issue_row =
  ir_id :: int
  ir_project :: string
  ir_fingerprint :: string
  ir_title :: string
  ir_culprit :: "string option"
  ir_level :: "string option"
  ir_status :: string
  ir_event_count :: int
  ir_first_seen :: string
  ir_last_seen :: string

record event_row =
  er_id :: int
  er_issue_id :: int
  er_event_id :: string
  er_payload :: string
  er_received_at :: string

record project_row =
  pr_name :: string
  pr_token :: string
  pr_created_at :: string
  pr_last_used_at :: "string option"
  pr_webhook_url :: "string option"
  pr_last_webhook_status :: "int option"
  pr_last_webhook_at :: "string option"

record user_row =
  us_username :: string
  us_password_hash :: string
  us_role :: string
  us_created_at :: string
  us_last_login_at :: "string option"
  us_last_login_ip :: "string option"
  us_deactivated_at :: "string option"

record session_row =
  se_id :: string
  se_username :: string
  se_created_at :: string
  se_last_seen_at :: string
  se_ip :: "string option"
  se_user_agent :: "string option"

record attempt_row =
  at_id :: int
  at_username :: "string option"
  at_ip :: string
  at_ts :: string
  at_success :: int

record retention_settings =
  rs_events_per_issue_max :: int
  rs_issues_per_project_max :: int
  rs_event_retention_days :: int

record db =
  issues :: "issue_row list"
  issue_seq :: int
  events :: "event_row list"
  event_seq :: int
  projects :: "project_row list"
  users :: "user_row list"
  sessions :: "session_row list"
  attempts :: "attempt_row list"
  attempt_seq :: int
  retention :: "retention_settings option"

text \<open>The migrated but unused database: the last migration seeds the settings row with zeros.\<close>

definition empty_db :: db where
  "empty_db = \<lparr>issues = [], issue_seq = 0, events = [], event_seq = 0, projects = [], users = [],
     sessions = [], attempts = [], attempt_seq = 0,
     retention = Some \<lparr>rs_events_per_issue_max = 0, rs_issues_per_project_max = 0,
       rs_event_retention_days = 0\<rparr>\<rparr>"

section \<open>Errors\<close>

datatype sqlx_error =
    UniqueViolation | ForeignKeyViolation | CheckViolation | RowNotFound | OtherSqlx

datatype daemon_error =
    ProtoError proto_error
  | Io
  | Sqlx sqlx_error
  | Migrate
  | Json
  | NotFound string
  | Crypto string

section \<open>Operations\<close>

record world =
  w_db :: db
  w_faults :: "bool list"
  w_now :: time

type_synonym ('z, 'a) op = "'z world_scheme \<Rightarrow> (daemon_error, 'a) outcome \<times> 'z world_scheme"

definition ret :: "'a \<Rightarrow> ('z, 'a) op" where
  "ret x w = (Ok x, w)"

definition err :: "daemon_error \<Rightarrow> ('z, 'a) op" where
  "err e w = (Err e, w)"

definition panic :: "('z, 'a) op" where
  "panic w = (Panic, w)"

text \<open>Sequencing is Rust's \<open>?\<close>: an error or a panic skips the rest.\<close>

definition bnd :: "('z, 'a) op \<Rightarrow> ('a \<Rightarrow> ('z, 'b) op) \<Rightarrow> ('z, 'b) op" where
  "bnd m f w =
     (case m w of
        (Ok x, w') \<Rightarrow> f x w'
      | (Err e, w') \<Rightarrow> (Err e, w')
      | (Panic, w') \<Rightarrow> (Panic, w'))"

text \<open>\<open>match op.await { Ok(x) => .., Err(e) => .. }\<close>: the error becomes a value.\<close>

definition try_op :: "('z, 'a) op \<Rightarrow> ('z, daemon_error + 'a) op" where
  "try_op m w =
     (case m w of
        (Ok x, w') \<Rightarrow> (Ok (Inr x), w')
      | (Err e, w') \<Rightarrow> (Ok (Inl e), w')
      | (Panic, w') \<Rightarrow> (Panic, w'))"

text \<open>Best-effort writes log their error and go on.\<close>

definition best_effort :: "('z, 'a) op \<Rightarrow> ('z, unit) op" where
  "best_effort m = bnd (try_op m) (\<lambda>_. ret ())"

definition utc_now :: "('z, time) op" where
  "utc_now w = (Ok (w_now w), w)"

definition run_stmt :: "(db \<Rightarrow> sqlx_error + 'a \<times> db) \<Rightarrow> ('z, 'a) op" where
  "run_stmt f w =
     (case f (w_db w) of
        Inl e \<Rightarrow> (Err (Sqlx e), w)
      | Inr (x, d) \<Rightarrow> (Ok x, w\<lparr>w_db := d\<rparr>))"

definition stmt :: "(db \<Rightarrow> sqlx_error + 'a \<times> db) \<Rightarrow> ('z, 'a) op" where
  "stmt f w =
     (case w_faults w of
        [] \<Rightarrow> run_stmt f w
      | fails # fs \<Rightarrow>
          if fails then (Err (Sqlx OtherSqlx), w\<lparr>w_faults := fs\<rparr>)
          else run_stmt f (w\<lparr>w_faults := fs\<rparr>))"

definition query :: "(db \<Rightarrow> 'a) \<Rightarrow> ('z, 'a) op" where
  "query f = stmt (\<lambda>d. Inr (f d, d))"

definition exec :: "(db \<Rightarrow> 'a \<times> db) \<Rightarrow> ('z, 'a) op" where
  "exec f = stmt (\<lambda>d. Inr (f d))"

text \<open>\<open>fetch_one\<close> fails when no row matches.\<close>

definition fetch_one :: "(db \<Rightarrow> 'a option) \<Rightarrow> ('z, 'a) op" where
  "fetch_one f = stmt (\<lambda>d. case f d of Some x \<Rightarrow> Inr (x, d) | None \<Rightarrow> Inl RowNotFound)"

definition rollback :: "('z, 'a) op \<Rightarrow> ('z, 'a) op" where
  "rollback m w =
     (case m w of
        (Ok x, w') \<Rightarrow> (Ok x, w')
      | (r, w') \<Rightarrow> (r, w'\<lparr>w_db := w_db w\<rparr>))"

text \<open>\<open>begin\<close>, the body, \<open>commit\<close>; dropping the transaction before that rolls it back.\<close>

definition tx :: "('z, 'a) op \<Rightarrow> ('z, 'a) op" where
  "tx m = bnd (query (\<lambda>_. ())) (\<lambda>_.
            rollback (bnd m (\<lambda>x. bnd (query (\<lambda>_. ())) (\<lambda>_. ret x))))"

fun for_each :: "('b \<Rightarrow> ('z, 'a) op) \<Rightarrow> 'b list \<Rightarrow> ('z, 'a list) op" where
  "for_each f [] = ret []"
| "for_each f (x # xs) = bnd (f x) (\<lambda>y. bnd (for_each f xs) (\<lambda>ys. ret (y # ys)))"

section \<open>Statements as table updates\<close>

definition update_where :: "('r \<Rightarrow> bool) \<Rightarrow> ('r \<Rightarrow> 'r) \<Rightarrow> 'r list \<Rightarrow> 'r list" where
  "update_where P f rs = map (\<lambda>r. if P r then f r else r) rs"

definition delete_where :: "('r \<Rightarrow> bool) \<Rightarrow> 'r list \<Rightarrow> 'r list" where
  "delete_where P rs = filter (\<lambda>r. \<not> P r) rs"

definition count_where :: "('r \<Rightarrow> bool) \<Rightarrow> 'r list \<Rightarrow> nat" where
  "count_where P rs = length (filter P rs)"

text \<open>\<open>ORDER BY key DESC\<close>; SQLite leaves the order of equal keys open, here it is row order.\<close>

definition order_desc :: "('r \<Rightarrow> 'k::linorder) \<Rightarrow> 'r list \<Rightarrow> 'r list" where
  "order_desc key rs = rev (sort_key key (rev rs))"

lemma update_where_simps [simp]:
  "update_where P f [] = []"
  "update_where P f (r # rs) = (if P r then f r else r) # update_where P f rs"
  by (simp_all add: update_where_def)

lemma set_delete_where [simp]: "set (delete_where P rs) = {r \<in> set rs. \<not> P r}"
  by (auto simp: delete_where_def)

lemma length_update_where [simp]: "length (update_where P f rs) = length rs"
  by (simp add: update_where_def)

lemma map_update_where:
  "(\<And>r. P r \<Longrightarrow> k (f r) = k r) \<Longrightarrow> map k (update_where P f rs) = map k rs"
  by (simp add: update_where_def)

lemma distinct_delete_where:
  "distinct (map k rs) \<Longrightarrow> distinct (map k (delete_where P rs))"
  by (simp add: delete_where_def distinct_map_filter)

lemma set_order_desc [simp]: "set (order_desc key rs) = set rs"
  by (simp add: order_desc_def)

lemma length_order_desc [simp]: "length (order_desc key rs) = length rs"
  by (simp add: order_desc_def)

lemma sorted_order_desc: "sorted (rev (map key (order_desc key rs)))"
  by (simp add: order_desc_def rev_map)

lemma length_delete_where: "count_where P rs + length (delete_where P rs) = length rs"
  by (simp add: count_where_def delete_where_def sum_length_filter_compl)

lemma count_where_zero: "count_where P rs = 0 \<longleftrightarrow> (\<forall>r \<in> set rs. \<not> P r)"
  by (auto simp: count_where_def filter_empty_conv)

lemma update_where_id: "\<forall>r \<in> set rs. \<not> P r \<Longrightarrow> update_where P f rs = rs"
  by (induction rs) auto

lemma find_update_same:
  "(\<And>r. P r \<Longrightarrow> P (f r)) \<Longrightarrow> find P (update_where P f rs) = map_option f (find P rs)"
  by (induction rs) auto

lemma find_update_other:
  "(\<And>r. P r \<Longrightarrow> Q (f r) = Q r) \<Longrightarrow> (\<And>r. P r \<Longrightarrow> \<not> Q r) \<Longrightarrow>
   find Q (update_where P f rs) = find Q rs"
  by (induction rs) auto

lemma find_update_key:
  "(\<And>r. Q (f r) = Q r) \<Longrightarrow>
   find Q (update_where P f rs) = map_option (\<lambda>r. if P r then f r else r) (find Q rs)"
  by (induction rs) auto

lemma find_append:
  "find P (xs @ ys) = (case find P xs of None \<Rightarrow> find P ys | Some x \<Rightarrow> Some x)"
  by (induction xs) auto

lemma find_None_iff_key: "find P xs = None \<longleftrightarrow> (\<forall>x \<in> set xs. \<not> P x)"
  by (induction xs) auto

section \<open>Keyed tables\<close>

text \<open>
  The interface every table offers: its rows can be read and replaced, and a unique index makes a
  column (or a pair of columns) a key. The lemmas give what each kind of statement does to a
  lookup by key and to the uniqueness of the key; every table of the schema interprets it.
\<close>

locale keyed_table =
  fixes rows :: "db \<Rightarrow> 'r list"
    and put :: "'r list \<Rightarrow> db \<Rightarrow> db"
    and key :: "'r \<Rightarrow> 'k"
  assumes rows_put: "rows (put rs d) = rs"
    and put_rows: "put (rows d) d = d"
begin

lemma lookup_inserted:
  "find (\<lambda>r. key r = key x) (rows d) = None \<Longrightarrow>
   find (\<lambda>r. key r = key x) (rows (put (rows d @ [x]) d)) = Some x"
  by (simp add: rows_put find_append)

lemma lookup_deleted:
  "find (\<lambda>r. key r = k) (rows (put (delete_where (\<lambda>r. key r = k) (rows d)) d)) = None"
  by (auto simp: rows_put find_None_iff_key)

lemma lookup_updated:
  "(\<And>r. key (f r) = key r) \<Longrightarrow>
   find (\<lambda>r. key r = k) (rows (put (update_where (\<lambda>r. key r = k) f (rows d)) d))
     = map_option f (find (\<lambda>r. key r = k) (rows d))"
  by (simp add: rows_put find_update_same)

lemma unique_inserted:
  "distinct (map key (rows d)) \<Longrightarrow> \<forall>r \<in> set (rows d). key r \<noteq> key x \<Longrightarrow>
   distinct (map key (rows (put (rows d @ [x]) d)))"
  by (auto simp: rows_put)

lemma unique_deleted:
  "distinct (map key (rows d)) \<Longrightarrow> distinct (map key (rows (put (delete_where P (rows d)) d)))"
  by (simp add: rows_put distinct_delete_where)

lemma unique_updated:
  "distinct (map key (rows d)) \<Longrightarrow> (\<And>r. P r \<Longrightarrow> key (f r) = key r) \<Longrightarrow>
   distinct (map key (rows (put (update_where P f (rows d)) d)))"
  by (simp add: rows_put map_update_where)

lemma lookup_iff_member:
  "distinct (map key (rows d)) \<Longrightarrow>
   find (\<lambda>r. key r = k) (rows d) = Some r \<longleftrightarrow> r \<in> set (rows d) \<and> key r = k"
  by (auto dest: find_SomeD find_key_Some)

end

section \<open>Running without faults\<close>

text \<open>In a quiet world every statement runs; these equations execute an operation symbolically.\<close>

definition quiet :: "'z world_scheme \<Rightarrow> bool" where
  "quiet w \<longleftrightarrow> w_faults w = []"

lemma quiet_update [simp]:
  "quiet (w\<lparr>w_db := d\<rparr>) = quiet w" "quiet (w\<lparr>w_now := t\<rparr>) = quiet w"
  by (simp_all add: quiet_def)

lemma op_basic [op_simps]:
  "ret x w = (Ok x, w)"
  "err e w = (Err e, w)"
  "panic w = (Panic, w)"
  "utc_now w = (Ok (w_now w), w)"
  by (simp_all add: ret_def err_def panic_def utc_now_def)

lemma bnd_ret [simp]: "bnd (ret x) f = f x"
  by (simp add: bnd_def ret_def fun_eq_iff)

lemma bnd_Ok [op_simps]: "m w = (Ok x, w') \<Longrightarrow> bnd m f w = f x w'"
  by (simp add: bnd_def)

lemma bnd_Err: "m w = (Err e, w') \<Longrightarrow> bnd m f w = (Err e, w')"
  by (simp add: bnd_def)

lemma bnd_utc_now [op_simps]: "bnd utc_now f w = f (w_now w) w"
  by (simp add: bnd_def utc_now_def)

lemma stmt_quiet [op_simps]: "quiet w \<Longrightarrow> stmt f w = run_stmt f w"
  by (simp add: stmt_def quiet_def)

lemma query_quiet [op_simps]: "quiet w \<Longrightarrow> query f w = (Ok (f (w_db w)), w)"
  by (simp add: query_def stmt_quiet run_stmt_def)

lemma exec_quiet [op_simps]:
  "quiet w \<Longrightarrow> exec f w = (Ok (fst (f (w_db w))), w\<lparr>w_db := snd (f (w_db w))\<rparr>)"
  by (simp add: exec_def stmt_quiet run_stmt_def split: prod.split)

lemma fetch_one_quiet [op_simps]:
  "quiet w \<Longrightarrow> fetch_one f w =
     (case f (w_db w) of Some x \<Rightarrow> (Ok x, w) | None \<Rightarrow> (Err (Sqlx RowNotFound), w))"
  by (simp add: fetch_one_def stmt_quiet run_stmt_def split: option.split)

lemma bnd_query_quiet [op_simps]: "quiet w \<Longrightarrow> bnd (query g) f w = f (g (w_db w)) w"
  by (simp add: bnd_def query_quiet)

lemma bnd_exec_quiet [op_simps]:
  "quiet w \<Longrightarrow> bnd (exec g) f w = f (fst (g (w_db w))) (w\<lparr>w_db := snd (g (w_db w))\<rparr>)"
  by (simp add: bnd_def exec_quiet)

lemma tx_quiet:
  assumes "quiet w"
  shows "tx m w =
    (case m w of
       (Ok x, w') \<Rightarrow> (case query (\<lambda>_. ()) w' of
          (Ok _, w'') \<Rightarrow> (Ok x, w'')
        | (Err e, w'') \<Rightarrow> (Err e, w''\<lparr>w_db := w_db w\<rparr>)
        | (Panic, w'') \<Rightarrow> (Panic, w''\<lparr>w_db := w_db w\<rparr>))
     | (Err e, w') \<Rightarrow> (Err e, w'\<lparr>w_db := w_db w\<rparr>)
     | (Panic, w') \<Rightarrow> (Panic, w'\<lparr>w_db := w_db w\<rparr>))"
proof -
  have "tx m w = rollback (bnd m (\<lambda>x. bnd (query (\<lambda>_. ())) (\<lambda>_. ret x))) w"
    using assms by (simp add: tx_def bnd_query_quiet)
  then show ?thesis
    by (simp add: rollback_def bnd_def ret_def split: prod.split outcome.split)
qed

lemma tx_quiet_Ok [op_simps]:
  "quiet w \<Longrightarrow> m w = (Ok x, w') \<Longrightarrow> quiet w' \<Longrightarrow> tx m w = (Ok x, w')"
  by (simp add: tx_quiet query_quiet)

lemma tx_quiet_Err [op_simps]:
  "quiet w \<Longrightarrow> m w = (Err e, w') \<Longrightarrow> tx m w = (Err e, w'\<lparr>w_db := w_db w\<rparr>)"
  by (simp add: tx_quiet)

text \<open>The steps of a loop without faults: the results in order, and the tables threaded through.\<close>

fun scan :: "('b \<Rightarrow> 's \<Rightarrow> 'a \<times> 's) \<Rightarrow> 'b list \<Rightarrow> 's \<Rightarrow> 'a list \<times> 's" where
  "scan f [] s = ([], s)"
| "scan f (x # xs) s =
     (let (y, s') = f x s; (ys, s'') = scan f xs s' in (y # ys, s''))"

lemma for_each_quiet:
  assumes "quiet w"
    and "\<And>x w'. quiet w' \<Longrightarrow> w_now w' = w_now w \<Longrightarrow>
           f x w' = (Ok (fst (g x (w_db w'))), w'\<lparr>w_db := snd (g x (w_db w'))\<rparr>)"
  shows "for_each f xs w = (Ok (fst (scan g xs (w_db w))), w\<lparr>w_db := snd (scan g xs (w_db w))\<rparr>)"
  using assms
proof (induction xs arbitrary: w)
  case (Cons x xs)
  let ?w = "w\<lparr>w_db := snd (g x (w_db w))\<rparr>"
  have step: "f x w = (Ok (fst (g x (w_db w))), ?w)"
    using Cons.prems by simp
  have "for_each f xs ?w = (Ok (fst (scan g xs (w_db ?w))), ?w\<lparr>w_db := snd (scan g xs (w_db ?w))\<rparr>)"
    using Cons.prems by (intro Cons.IH) simp_all
  with step show ?case
    by (simp add: bnd_Ok op_basic split: prod.split)
qed (simp add: op_basic)

section \<open>Reasoning about every fault schedule\<close>

text \<open>
  \<open>wp m Q w\<close>: the operation \<open>m\<close>, run in \<open>w\<close>, ends with an outcome and a world that satisfy \<open>Q\<close>. The
  introduction rules follow the combinators; a statement has two cases, faulty and not.
\<close>

definition wp ::
  "('z, 'a) op \<Rightarrow> ((daemon_error, 'a) outcome \<Rightarrow> 'z world_scheme \<Rightarrow> bool) \<Rightarrow> 'z world_scheme \<Rightarrow> bool"
  where "wp m Q w = (case m w of (r, w') \<Rightarrow> Q r w')"

lemma wpD: "wp m Q w \<Longrightarrow> m w = (r, w') \<Longrightarrow> Q r w'"
  by (simp add: wp_def)

lemma wp_mono: "wp m Q w \<Longrightarrow> (\<And>r w'. Q r w' \<Longrightarrow> R r w') \<Longrightarrow> wp m R w"
  by (auto simp: wp_def)

lemma wp_ret [pres_intros]: "Q (Ok x) w \<Longrightarrow> wp (ret x) Q w"
  by (simp add: wp_def ret_def)

lemma wp_err [pres_intros]: "Q (Err e) w \<Longrightarrow> wp (err e) Q w"
  by (simp add: wp_def err_def)

lemma wp_utc_now [pres_intros]: "Q (Ok (w_now w)) w \<Longrightarrow> wp utc_now Q w"
  by (simp add: wp_def utc_now_def)

lemma wp_bnd [pres_intros]:
  "wp m (\<lambda>r w'. case r of Ok x \<Rightarrow> wp (f x) Q w' | Err e \<Rightarrow> Q (Err e) w' | Panic \<Rightarrow> Q Panic w') w
   \<Longrightarrow> wp (bnd m f) Q w"
  by (auto simp: wp_def bnd_def split: prod.splits outcome.splits)

lemma wp_try_op [pres_intros]:
  "wp m (\<lambda>r w'. case r of Ok x \<Rightarrow> Q (Ok (Inr x)) w' | Err e \<Rightarrow> Q (Ok (Inl e)) w'
                | Panic \<Rightarrow> Q Panic w') w
   \<Longrightarrow> wp (try_op m) Q w"
  by (auto simp: wp_def try_op_def split: prod.splits outcome.splits)

lemma wp_best_effort [pres_intros]:
  "wp m (\<lambda>r w'. case r of Panic \<Rightarrow> Q Panic w' | _ \<Rightarrow> Q (Ok ()) w') w
   \<Longrightarrow> wp (best_effort m) Q w"
  unfolding best_effort_def
  by (auto simp: wp_def bnd_def try_op_def ret_def split: prod.splits outcome.splits)

lemma wp_stmt:
  assumes "\<And>fs. Q (Err (Sqlx OtherSqlx)) (w\<lparr>w_faults := fs\<rparr>)"
    and "\<And>fs e. f (w_db w) = Inl e \<Longrightarrow> Q (Err (Sqlx e)) (w\<lparr>w_faults := fs\<rparr>)"
    and "\<And>fs x d. f (w_db w) = Inr (x, d) \<Longrightarrow> Q (Ok x) (w\<lparr>w_faults := fs, w_db := d\<rparr>)"
  shows "wp (stmt f) Q w"
proof -
  show ?thesis
  proof (cases "w_faults w")
    case Nil
    then have eq: "w\<lparr>w_faults := []\<rparr> = w" "w\<lparr>w_faults := [], w_db := d\<rparr> = w\<lparr>w_db := d\<rparr>" for d
      by (cases w; simp)+
    from Nil show ?thesis
      using assms(2) [of _ "[]", unfolded eq] assms(3) [of _ _ "[]", unfolded eq]
      by (auto simp: wp_def stmt_def run_stmt_def split: sum.split prod.split)
  next
    case (Cons fails fs)
    then show ?thesis
      using assms(1) [of fs] assms(2) [of _ fs] assms(3) [of _ _ fs]
      by (auto simp: wp_def stmt_def run_stmt_def split: sum.split prod.split)
  qed
qed

lemma wp_query [pres_intros]:
  "(\<And>fs. Q (Err (Sqlx OtherSqlx)) (w\<lparr>w_faults := fs\<rparr>)) \<Longrightarrow>
   (\<And>fs. Q (Ok (f (w_db w))) (w\<lparr>w_faults := fs\<rparr>)) \<Longrightarrow> wp (query f) Q w"
  unfolding query_def by (rule wp_stmt) auto

lemma wp_exec [pres_intros]:
  "(\<And>fs. Q (Err (Sqlx OtherSqlx)) (w\<lparr>w_faults := fs\<rparr>)) \<Longrightarrow>
   (\<And>fs x d. f (w_db w) = (x, d) \<Longrightarrow> Q (Ok x) (w\<lparr>w_faults := fs, w_db := d\<rparr>)) \<Longrightarrow>
   wp (exec f) Q w"
  unfolding exec_def by (rule wp_stmt) auto

lemma wp_fetch_one [pres_intros]:
  "(\<And>fs e. Q (Err (Sqlx e)) (w\<lparr>w_faults := fs\<rparr>)) \<Longrightarrow>
   (\<And>fs x. f (w_db w) = Some x \<Longrightarrow> Q (Ok x) (w\<lparr>w_faults := fs\<rparr>)) \<Longrightarrow> wp (fetch_one f) Q w"
  unfolding fetch_one_def by (rule wp_stmt) (auto split: option.splits)

lemma wp_rollback [pres_intros]:
  "wp m (\<lambda>r w'. case r of Ok x \<Rightarrow> Q (Ok x) w' | Err e \<Rightarrow> Q (Err e) (w'\<lparr>w_db := w_db w\<rparr>)
                | Panic \<Rightarrow> Q Panic (w'\<lparr>w_db := w_db w\<rparr>)) w
   \<Longrightarrow> wp (rollback m) Q w"
  by (auto simp: wp_def rollback_def split: prod.splits outcome.splits)

text \<open>An operation that fails inside a transaction leaves the tables as they were.\<close>

lemma tx_all_or_nothing:
  "tx m w = (r, w') \<Longrightarrow> (\<forall>x. r \<noteq> Ok x) \<Longrightarrow> w_db w' = w_db w"
  by (auto simp: tx_def rollback_def bnd_def query_def stmt_def run_stmt_def ret_def
        split: prod.splits outcome.splits list.splits if_splits)

section \<open>Read-only and atomic operations\<close>

text \<open>
  An operation is atomic when a run that does not end in \<open>Ok\<close> leaves the tables as they were: the
  caller that sees an error may take it that nothing happened. The rules cover the ways the store
  is written: reads first, then one statement or one transaction, then only computation.
\<close>

named_theorems atomic_intros \<open>rules for readonly, computes and atomic\<close>

definition readonly :: "('z, 'a) op \<Rightarrow> bool" where
  "readonly m \<longleftrightarrow> (\<forall>w. w_db (snd (m w)) = w_db w)"

definition computes :: "('z, 'a) op \<Rightarrow> bool" where
  "computes m \<longleftrightarrow> (\<forall>w. \<exists>x. m w = (Ok x, w))"

definition atomic :: "('z, 'a) op \<Rightarrow> bool" where
  "atomic m \<longleftrightarrow> (\<forall>w r w'. m w = (r, w') \<longrightarrow> (\<forall>x. r \<noteq> Ok x) \<longrightarrow> w_db w' = w_db w)"

lemma atomicD: "atomic m \<Longrightarrow> m w = (r, w') \<Longrightarrow> (\<And>x. r \<noteq> Ok x) \<Longrightarrow> w_db w' = w_db w"
  by (auto simp: atomic_def)

lemma readonlyD: "readonly m \<Longrightarrow> m w = (r, w') \<Longrightarrow> w_db w' = w_db w"
  unfolding readonly_def by (metis snd_conv)

lemma readonly_basic [atomic_intros]:
  "readonly (ret x)" "readonly (err e)" "readonly panic" "readonly utc_now"
  "readonly (query f)" "readonly (fetch_one g)"
  by (auto simp: readonly_def op_basic query_def fetch_one_def stmt_def run_stmt_def
        split: list.split option.split)

lemma readonly_bnd [atomic_intros]:
  "readonly m \<Longrightarrow> (\<And>x. readonly (f x)) \<Longrightarrow> readonly (bnd m f)"
  unfolding readonly_def bnd_def
  by (auto split: prod.split outcome.split) (metis snd_conv)+

lemma computes_basic [atomic_intros]: "computes (ret x)" "computes utc_now"
  by (simp_all add: computes_def op_basic)

lemma computes_bnd [atomic_intros]:
  assumes "computes m" and "\<And>x. computes (f x)"
  shows "computes (bnd m f)"
  unfolding computes_def
proof
  fix w
  obtain x where "m w = (Ok x, w)" using assms(1) by (auto simp: computes_def)
  moreover obtain y where "f x w = (Ok y, w)" using assms(2) [of x] by (auto simp: computes_def)
  ultimately show "\<exists>y. bnd m f w = (Ok y, w)" by (simp add: bnd_def)
qed

lemma atomic_readonly: "readonly m \<Longrightarrow> atomic m"
  by (auto simp: atomic_def dest: readonlyD)

lemma atomic_stmt [atomic_intros]: "atomic (stmt f)"
  by (auto simp: atomic_def stmt_def run_stmt_def split: list.splits if_splits sum.splits prod.splits)

lemma atomic_exec [atomic_intros]: "atomic (exec f)"
  by (simp add: exec_def atomic_stmt)

lemma atomic_tx [atomic_intros]: "atomic (tx m)"
  by (auto simp: atomic_def dest: tx_all_or_nothing)

lemma atomic_read_then [atomic_intros]:
  "readonly m \<Longrightarrow> (\<And>x. atomic (f x)) \<Longrightarrow> atomic (bnd m f)"
  by (fastforce simp: atomic_def bnd_def split: prod.splits outcome.splits dest: readonlyD)

lemma atomic_then_compute:
  "atomic m \<Longrightarrow> (\<And>x. computes (f x)) \<Longrightarrow> atomic (bnd m f)"
  unfolding atomic_def bnd_def computes_def
  by (auto split: prod.splits outcome.splits) (metis prod.inject)

lemma atomic_if [atomic_intros]:
  "atomic m \<Longrightarrow> atomic m' \<Longrightarrow> atomic (if b then m else m')"
  "readonly m \<Longrightarrow> readonly m' \<Longrightarrow> readonly (if b then m else m')"
  by simp_all

lemma atomic_case_option [atomic_intros]:
  "atomic m \<Longrightarrow> (\<And>y. atomic (f y)) \<Longrightarrow> atomic (case x of None \<Rightarrow> m | Some y \<Rightarrow> f y)"
  "readonly m \<Longrightarrow> (\<And>y. readonly (f y)) \<Longrightarrow> readonly (case x of None \<Rightarrow> m | Some y \<Rightarrow> f y)"
  by (cases x; simp)+

lemma atomic_case_prod [atomic_intros]:
  "(\<And>x y. atomic (f x y)) \<Longrightarrow> atomic (case p of (x, y) \<Rightarrow> f x y)"
  "(\<And>x y. readonly (f x y)) \<Longrightarrow> readonly (case p of (x, y) \<Rightarrow> f x y)"
  "(\<And>x y. computes (f x y)) \<Longrightarrow> computes (case p of (x, y) \<Rightarrow> f x y)"
  by (cases p; simp)+

section \<open>A run is the fault-free run or a fault\<close>

text \<open>
  \<open>calm w\<close> is \<open>w\<close> with no faults left. \<open>fault_or_ideal m\<close>: whatever the schedule, \<open>m\<close> either does
  what it does in the calm world or reports the injected error. It holds for every operation that
  does not catch errors, so their behaviour under faults follows from their behaviour without.
\<close>

named_theorems fault_intros \<open>rules for fault_or_ideal\<close>
named_theorems frame_intros \<open>rules for framed\<close>

definition calm :: "'z world_scheme \<Rightarrow> 'z world_scheme" where
  "calm w = w\<lparr>w_faults := []\<rparr>"

lemma calm_simps [simp]:
  "quiet (calm w)" "w_db (calm w) = w_db w" "w_now (calm w) = w_now w" "calm (calm w) = calm w"
  "calm (w\<lparr>w_faults := fs\<rparr>) = calm w" "calm (w\<lparr>w_db := d\<rparr>) = (calm w)\<lparr>w_db := d\<rparr>"
  "w_faults (calm w) = []"
  by (simp_all add: calm_def quiet_def)

lemma calm_quiet: "quiet w \<Longrightarrow> calm w = w"
  by (cases w) (simp add: calm_def quiet_def)

definition fault :: daemon_error where
  "fault = Sqlx OtherSqlx"

definition fault_or_ideal :: "('z, 'a) op \<Rightarrow> bool" where
  "fault_or_ideal m \<longleftrightarrow>
     (\<forall>w. case m w of (r, w') \<Rightarrow> case m (calm w) of (r0, w0) \<Rightarrow>
        (r = Err fault \<and> \<not> quiet w) \<or> (r = r0 \<and> calm w' = w0))"

lemma fault_or_idealD:
  "fault_or_ideal m \<Longrightarrow> m w = (r, w') \<Longrightarrow> m (calm w) = (r0, w0) \<Longrightarrow>
   (r = Err fault \<and> \<not> quiet w) \<or> (r = r0 \<and> calm w' = w0)"
  unfolding fault_or_ideal_def by (auto dest!: spec [of _ w])

lemma fault_or_idealI:
  "(\<And>w r w' r0 w0. m w = (r, w') \<Longrightarrow> m (calm w) = (r0, w0) \<Longrightarrow>
     (r = Err fault \<and> \<not> quiet w) \<or> (r = r0 \<and> calm w' = w0)) \<Longrightarrow> fault_or_ideal m"
  unfolding fault_or_ideal_def by (auto split: prod.split)

lemma fault_or_ideal_basic [fault_intros]:
  "fault_or_ideal (ret x)" "fault_or_ideal (err e)" "fault_or_ideal panic"
  "fault_or_ideal utc_now"
  by (auto intro!: fault_or_idealI simp: op_basic)

lemma fault_or_ideal_stmt [fault_intros]: "fault_or_ideal (stmt f)"
proof (rule fault_or_idealI)
  fix w :: "'a world_scheme" and r w' r0 w0
  assume w: "stmt f w = (r, w')" and c: "stmt f (calm w) = (r0, w0)"
  have run: "run_stmt f v = (r, w') \<Longrightarrow> run_stmt f (calm v) = (r, calm w')" for v
    by (auto simp: run_stmt_def split: sum.splits prod.splits)
  show "(r = Err fault \<and> \<not> quiet w) \<or> (r = r0 \<and> calm w' = w0)"
  proof (cases "w_faults w")
    case Nil
    then have "stmt f w = run_stmt f w" by (simp add: stmt_def)
    with w run [of w] c show ?thesis by (simp add: stmt_quiet)
  next
    case (Cons b fs)
    show ?thesis
    proof (cases b)
      case True
      with w Cons show ?thesis by (auto simp: stmt_def fault_def quiet_def)
    next
      case False
      then have "run_stmt f (w\<lparr>w_faults := fs\<rparr>) = (r, w')"
        using w Cons by (simp add: stmt_def)
      from run [OF this] c show ?thesis by (auto simp: stmt_quiet)
    qed
  qed
qed

lemma fault_or_ideal_derived [fault_intros]:
  "fault_or_ideal (query f)" "fault_or_ideal (exec g)" "fault_or_ideal (fetch_one h)"
  unfolding query_def exec_def fetch_one_def by (rule fault_intros)+

lemma fault_or_ideal_bnd [fault_intros]:
  assumes m: "fault_or_ideal m" and f: "\<And>x. fault_or_ideal (f x)"
  shows "fault_or_ideal (bnd m f)"
proof (rule fault_or_idealI)
  fix w :: "'a world_scheme" and r w' r0 w0
  assume w: "bnd m f w = (r, w')" and c: "bnd m f (calm w) = (r0, w0)"
  obtain r1 w1 where mw: "m w = (r1, w1)" by force
  obtain r2 w2 where mc: "m (calm w) = (r2, w2)" by force
  from fault_or_idealD [OF m mw mc] show "(r = Err fault \<and> \<not> quiet w) \<or> (r = r0 \<and> calm w' = w0)"
  proof
    assume "r1 = Err fault \<and> \<not> quiet w"
    with w mw show ?thesis by (simp add: bnd_def)
  next
    assume eq: "r1 = r2 \<and> calm w1 = w2"
    show ?thesis
    proof (cases r1)
      case (Ok x)
      have a: "f x w1 = (r, w')" and b: "f x (calm w1) = (r0, w0)"
        using w c mw mc eq Ok by (auto simp: bnd_def)
      have "quiet w \<Longrightarrow> quiet w1"
        using mw mc eq by (metis calm_quiet calm_simps(1) prod.inject)
      with fault_or_idealD [OF f a b] show ?thesis by blast
    qed (use w c mw mc eq in \<open>auto simp: bnd_def\<close>)
  qed
qed

lemma fault_or_ideal_rollback [fault_intros]:
  assumes m: "fault_or_ideal m"
  shows "fault_or_ideal (rollback m)"
proof (rule fault_or_idealI)
  fix w :: "'a world_scheme" and r w' r0 w0
  assume w: "rollback m w = (r, w')" and c: "rollback m (calm w) = (r0, w0)"
  obtain r1 w1 where mw: "m w = (r1, w1)" by force
  obtain r2 w2 where mc: "m (calm w) = (r2, w2)" by force
  from fault_or_idealD [OF m mw mc] show "(r = Err fault \<and> \<not> quiet w) \<or> (r = r0 \<and> calm w' = w0)"
    using w c mw mc by (cases r1) (auto simp: rollback_def)
qed

lemma fault_or_ideal_tx [fault_intros]: "fault_or_ideal m \<Longrightarrow> fault_or_ideal (tx m)"
  unfolding tx_def by (intro fault_intros)

lemma fault_or_ideal_for_each [fault_intros]:
  "(\<And>x. fault_or_ideal (f x)) \<Longrightarrow> fault_or_ideal (for_each f xs)"
  by (induction xs) (auto intro!: fault_intros)

lemma fault_or_ideal_if [fault_intros]:
  "fault_or_ideal m \<Longrightarrow> fault_or_ideal m' \<Longrightarrow> fault_or_ideal (if b then m else m')"
  by simp

lemma fault_or_ideal_case_option [fault_intros]:
  "fault_or_ideal m \<Longrightarrow> (\<And>y. fault_or_ideal (f y)) \<Longrightarrow>
   fault_or_ideal (case x of None \<Rightarrow> m | Some y \<Rightarrow> f y)"
  by (cases x) auto

lemma fault_or_ideal_case_prod [fault_intros]:
  "(\<And>x y. fault_or_ideal (f x y)) \<Longrightarrow> fault_or_ideal (case p of (x, y) \<Rightarrow> f x y)"
  by (cases p) auto

text \<open>How it is used: an operation does what its calm run does, or an injected fault stops it.\<close>

lemma fault_cases:
  assumes "fault_or_ideal m" "m (calm w) = (r0, w0)"
  obtains (ideal) w' where "m w = (r0, w')" "calm w' = w0"
    | (fault) w' where "m w = (Err fault, w')" "\<not> quiet w"
  using fault_or_idealD [OF assms(1) _ assms(2)] by (cases "m w") blast

lemma fault_or_ideal_Ok:
  assumes "fault_or_ideal m" "m w = (Ok x, w')"
  shows "m (calm w) = (Ok x, calm w')"
  using fault_or_idealD [OF assms, of "fst (m (calm w))" "snd (m (calm w))"]
  by (cases "m (calm w)") auto

lemma exec_cases:
  obtains (ran) w' where "exec f w = (Ok (fst (f (w_db w))), w')" "w_db w' = snd (f (w_db w))"
    | (failed) w' where "exec f w = (Err fault, w')" "w_db w' = w_db w"
  by (cases "w_faults w"; cases "hd (w_faults w)")
     (auto simp: exec_def stmt_def run_stmt_def fault_def case_prod_beta)

text \<open>Preserving an invariant of the database under every fault schedule.\<close>

definition preserves :: "(db \<Rightarrow> bool) \<Rightarrow> ('z, 'a) op \<Rightarrow> bool" where
  "preserves J m \<longleftrightarrow> (\<forall>w. J (w_db w) \<longrightarrow> J (w_db (snd (m w))))"

lemma preservesD: "preserves J m \<Longrightarrow> J (w_db w) \<Longrightarrow> J (w_db (snd (m w)))"
  by (simp add: preserves_def)

lemma preserves_wp: "(\<And>w. J (w_db w) \<Longrightarrow> wp m (\<lambda>_ w'. J (w_db w')) w) \<Longrightarrow> preserves J m"
  by (force simp: preserves_def wp_def split: prod.splits)

lemma wp_preserves: "preserves J m \<Longrightarrow> J (w_db w) \<Longrightarrow> wp m (\<lambda>_ w'. J (w_db w')) w"
  by (auto simp: preserves_def wp_def split: prod.split)

lemma preserves_basic [pres_intros, intro]:
  "preserves J (ret x)" "preserves J (err e)" "preserves J panic" "preserves J utc_now"
  "preserves J (query f)" "preserves J (fetch_one g)"
  by (auto simp: preserves_def ret_def err_def panic_def utc_now_def query_def fetch_one_def
        stmt_def run_stmt_def split: list.split option.split)

lemma preserves_bnd [pres_intros, intro]:
  "preserves J m \<Longrightarrow> (\<And>x. preserves J (f x)) \<Longrightarrow> preserves J (bnd m f)"
  by (auto simp: preserves_def bnd_def split: prod.split outcome.split)

lemma preserves_try_op [pres_intros, intro]: "preserves J m \<Longrightarrow> preserves J (try_op m)"
  by (auto simp: preserves_def try_op_def split: prod.split outcome.split)

lemma preserves_best_effort [pres_intros, intro]: "preserves J m \<Longrightarrow> preserves J (best_effort m)"
  unfolding best_effort_def by (intro pres_intros)

lemma preserves_stmt:
  "(\<And>d x d'. J d \<Longrightarrow> f d = Inr (x, d') \<Longrightarrow> J d') \<Longrightarrow> preserves J (stmt f)"
  by (rule preserves_wp, rule wp_stmt) auto

lemma preserves_exec:
  "(\<And>d. J d \<Longrightarrow> J (snd (f d))) \<Longrightarrow> preserves J (exec f)"
  unfolding exec_def by (rule preserves_stmt) force

lemma preserves_rollback [pres_intros, intro]: "preserves J m \<Longrightarrow> preserves J (rollback m)"
  by (auto simp: preserves_def rollback_def split: prod.split outcome.split)

lemma preserves_tx [pres_intros, intro]: "preserves J m \<Longrightarrow> preserves J (tx m)"
  unfolding tx_def by (intro pres_intros)

lemma preserves_for_each [pres_intros, intro]:
  "(\<And>x. preserves J (f x)) \<Longrightarrow> preserves J (for_each f xs)"
  by (induction xs) (auto intro!: pres_intros)

lemma preserves_if [pres_intros, intro]:
  "(b \<Longrightarrow> preserves J m) \<Longrightarrow> (\<not> b \<Longrightarrow> preserves J m') \<Longrightarrow> preserves J (if b then m else m')"
  by simp

lemma preserves_case_option [pres_intros, intro]:
  "(x = None \<Longrightarrow> preserves J m) \<Longrightarrow> (\<And>y. x = Some y \<Longrightarrow> preserves J (f y)) \<Longrightarrow>
   preserves J (case x of None \<Rightarrow> m | Some y \<Rightarrow> f y)"
  by (cases x) auto

lemma preserves_case_sum [pres_intros, intro]:
  "(\<And>y. x = Inl y \<Longrightarrow> preserves J (f y)) \<Longrightarrow> (\<And>y. x = Inr y \<Longrightarrow> preserves J (g y)) \<Longrightarrow>
   preserves J (case x of Inl y \<Rightarrow> f y | Inr y \<Rightarrow> g y)"
  by (cases x) auto

lemma preserves_case_prod [pres_intros, intro]:
  "(\<And>x y. preserves J (f x y)) \<Longrightarrow> preserves J (case p of (x, y) \<Rightarrow> f x y)"
  by (cases p) auto

lemma preserves_case_outcome [pres_intros, intro]:
  "(\<And>y. preserves J (f y)) \<Longrightarrow> (\<And>e. preserves J (g e)) \<Longrightarrow> preserves J h \<Longrightarrow>
   preserves J (case r of Ok y \<Rightarrow> f y | Err e \<Rightarrow> g e | Panic \<Rightarrow> h)"
  by (cases r) auto

lemma preserves_conj: "preserves J m \<Longrightarrow> preserves K m \<Longrightarrow> preserves (\<lambda>d. J d \<and> K d) m"
  by (simp add: preserves_def)

section \<open>What an operation leaves alone\<close>

text \<open>An operation of the store changes nothing of a larger world than the database and the schedule.\<close>

definition framed :: "('z, 'a) op \<Rightarrow> bool" where
  "framed m \<longleftrightarrow> (\<forall>w. world.more (snd (m w)) = world.more w \<and> w_now (snd (m w)) = w_now w)"

lemma framedD: "framed m \<Longrightarrow> m w = (r, w') \<Longrightarrow> world.more w' = world.more w \<and> w_now w' = w_now w"
  by (auto simp: framed_def dest: spec [of _ w])

lemma framedI:
  "(\<And>w r w'. m w = (r, w') \<Longrightarrow> world.more w' = world.more w \<and> w_now w' = w_now w) \<Longrightarrow> framed m"
  unfolding framed_def by (metis prod.collapse)

lemma framed_basic [frame_intros]:
  "framed (ret x)" "framed (err e)" "framed panic" "framed utc_now"
  by (simp_all add: framed_def ret_def err_def panic_def utc_now_def)

lemma framed_stmt [frame_intros]: "framed (stmt f)"
  by (auto simp: framed_def stmt_def run_stmt_def split: list.split sum.split)

lemma framed_derived [frame_intros]: "framed (query f)" "framed (exec g)" "framed (fetch_one h)"
  unfolding query_def exec_def fetch_one_def by (rule framed_stmt)+

lemma framed_bnd [frame_intros]:
  assumes m: "framed m" and f: "\<And>x. framed (f x)"
  shows "framed (bnd m f)"
  by (rule framedI) (auto simp: bnd_def dest!: framedD [OF m] framedD [OF f] split: prod.splits outcome.splits)

lemma framed_try_op [frame_intros]: "framed m \<Longrightarrow> framed (try_op m)"
  by (rule framedI) (auto simp: try_op_def dest: framedD split: prod.splits outcome.splits)

lemma framed_best_effort [frame_intros]: "framed m \<Longrightarrow> framed (best_effort m)"
  unfolding best_effort_def by (intro frame_intros)

lemma framed_rollback [frame_intros]: "framed m \<Longrightarrow> framed (rollback m)"
  by (rule framedI) (auto simp: rollback_def dest: framedD split: prod.splits outcome.splits)

lemma framed_tx [frame_intros]: "framed m \<Longrightarrow> framed (tx m)"
  unfolding tx_def by (intro frame_intros)

lemma framed_for_each [frame_intros]: "(\<And>x. framed (f x)) \<Longrightarrow> framed (for_each f xs)"
  by (induction xs) (auto intro!: frame_intros)

lemma framed_branches [frame_intros]:
  "framed m \<Longrightarrow> framed m' \<Longrightarrow> framed (if b then m else m')"
  "framed m \<Longrightarrow> (\<And>y. framed (f y)) \<Longrightarrow> framed (case x of None \<Rightarrow> m | Some y \<Rightarrow> f y)"
  "(\<And>y. framed (g y)) \<Longrightarrow> (\<And>y. framed (h y)) \<Longrightarrow> framed (case s of Inl y \<Rightarrow> g y | Inr y \<Rightarrow> h y)"
  "(\<And>y z. framed (k y z)) \<Longrightarrow> framed (case p of (y, z) \<Rightarrow> k y z)"
  "(\<And>y. framed (a y)) \<Longrightarrow> (\<And>e. framed (b' e)) \<Longrightarrow> framed c \<Longrightarrow>
   framed (case r of Ok y \<Rightarrow> a y | Err e \<Rightarrow> b' e | Panic \<Rightarrow> c)"
  by (simp_all split: option.split sum.split prod.split outcome.split)

end
