(* ===== verification/Decimal.thy ===== *)
theory Decimal
  imports Prelude
begin

text \<open>
  Numbers in text: Rust's \<open>from_str\<close> of the integer types, the format \<open>{:0w}\<close>, and \<open>str::get\<close> with a
  range. A number that is printed is read back, padded or not.
\<close>

section \<open>Reading\<close>

definition is_digit :: "char \<Rightarrow> bool" where
  "is_digit c \<longleftrightarrow> 48 \<le> byte c \<and> byte c \<le> 57"

definition digits_value :: "string \<Rightarrow> nat" where
  "digits_value s = foldl (\<lambda>n c. 10 * n + (byte c - 48)) 0 s"

text \<open>\<open>parse::<u32>\<close> and the like: an optional plus sign, at least one digit, a value below the bound.\<close>

definition parse_unsigned :: "nat \<Rightarrow> string \<Rightarrow> nat option" where
  "parse_unsigned bound s =
     (let ds = (case strip_prefix ''+'' s of Some r \<Rightarrow> r | None \<Rightarrow> s) in
      if ds \<noteq> [] \<and> list_all is_digit ds \<and> digits_value ds < bound
      then Some (digits_value ds) else None)"

text \<open>\<open>parse::<i64>\<close>: a minus sign is allowed too.\<close>

definition parse_i64 :: "string \<Rightarrow> int option" where
  "parse_i64 s =
     (case strip_prefix ''-'' s of
        Some ds \<Rightarrow>
          if ds \<noteq> [] \<and> list_all is_digit ds \<and> digits_value ds \<le> 2 ^ 63
          then Some (- int (digits_value ds)) else None
      | None \<Rightarrow> map_option int (parse_unsigned (2 ^ 63) s))"

text \<open>\<open>s.get(a..b)\<close>: both ends must be in the string and start a character.\<close>

definition char_boundary :: "string \<Rightarrow> nat \<Rightarrow> bool" where
  "char_boundary s i \<longleftrightarrow> i \<le> length s \<and> (i < length s \<longrightarrow> \<not> is_cont (s ! i))"

definition str_get :: "string \<Rightarrow> nat \<Rightarrow> nat \<Rightarrow> string option" where
  "str_get s a b =
     (if a \<le> b \<and> char_boundary s a \<and> char_boundary s b then Some (take (b - a) (drop a s)) else None)"

text \<open>\<open>{:0w}\<close> of an unsigned number.\<close>

definition zero_pad :: "nat \<Rightarrow> nat \<Rightarrow> string" where
  "zero_pad w n = replicate (w - length (show_nat n)) CHR ''0'' @ show_nat n"

section \<open>Digits\<close>

lemma byte_digit_char: "n < 10 \<Longrightarrow> byte (digit_char n) = 48 + n"
  by (simp add: digit_char_def byte_char_of del: of_char_of)

lemma digit_is_digit: "n < 10 \<Longrightarrow> is_digit (digit_char n)"
  by (simp add: is_digit_def byte_digit_char)

lemma show_nat_digits: "list_all is_digit (show_nat n)"
proof (induction n rule: show_nat.induct)
  case (1 n)
  show ?case
    by (subst show_nat.simps) (use 1 in \<open>auto simp: digit_is_digit\<close>)
qed

lemma show_nat_nonempty [simp]: "show_nat n \<noteq> []"
  by (subst show_nat.simps) simp

lemma digits_value_snoc: "digits_value (s @ [c]) = 10 * digits_value s + (byte c - 48)"
  by (simp add: digits_value_def)

lemma digits_value_show [simp]: "digits_value (show_nat n) = n"
proof (induction n rule: show_nat.induct)
  case (1 n)
  show ?case
    by (subst show_nat.simps)
       (use 1 in \<open>auto simp: digits_value_snoc byte_digit_char digits_value_def [of "[c]" for c]\<close>)
qed

lemma not_in_digits: "\<not> is_digit c \<Longrightarrow> c \<notin> set (show_nat n)"
  using show_nat_digits [of n] by (auto simp: list_all_iff)

text \<open>A separator that does not occur splits where it is put.\<close>

lemma split_once_char: "c \<notin> set a \<Longrightarrow> split_once [c] (a @ c # b) = Some (a, b)"
  by (induction a) (auto simp: starts_with_def)

lemma digits_value_zeros: "digits_value (replicate k CHR ''0'' @ s) = digits_value s"
  by (induction k) (simp_all add: digits_value_def)

lemma digits_value_padded [simp]: "digits_value (zero_pad w n) = n"
  by (simp add: zero_pad_def digits_value_zeros)

lemma zero_pad_digits: "list_all is_digit (zero_pad w n)"
  using show_nat_digits [of n] by (auto simp: zero_pad_def is_digit_def list_all_iff)

lemma zero_pad_nonempty [simp]: "zero_pad w n \<noteq> []"
  by (simp add: zero_pad_def)

lemma show_nat_length: "n < 10 ^ w \<Longrightarrow> 0 < w \<Longrightarrow> length (show_nat n) \<le> w"
proof (induction w arbitrary: n)
  case (Suc w)
  show ?case
  proof (cases "n < 10")
    case False
    then have "0 < w" using Suc.prems(1) by (cases w) auto
    moreover have "n div 10 < 10 ^ w" using Suc.prems(1) by (simp add: less_mult_imp_div_less)
    ultimately have "length (show_nat (n div 10)) \<le> w" by (rule Suc.IH [rotated])
    with False show ?thesis by (subst show_nat.simps) simp
  qed (subst show_nat.simps, simp)
qed simp

lemma length_zero_pad: "n < 10 ^ w \<Longrightarrow> 0 < w \<Longrightarrow> length (zero_pad w n) = w"
  using show_nat_length [of n w] by (simp add: zero_pad_def)

lemma digits_no_sign: "list_all is_digit s \<Longrightarrow> \<not> starts_with ''+'' s \<and> \<not> starts_with ''-'' s"
  by (auto simp: starts_with_iff is_digit_def)

lemma parse_unsigned_digits:
  "list_all is_digit s \<Longrightarrow> s \<noteq> [] \<Longrightarrow> digits_value s < bound \<Longrightarrow>
   parse_unsigned bound s = Some (digits_value s)"
  using digits_no_sign [of s] by (simp add: parse_unsigned_def strip_prefix_def)

lemma parse_padded: "n < bound \<Longrightarrow> parse_unsigned bound (zero_pad w n) = Some n"
  by (simp add: parse_unsigned_digits zero_pad_digits)

lemma parse_shown: "n < bound \<Longrightarrow> parse_unsigned bound (show_nat n) = Some n"
  by (simp add: parse_unsigned_digits show_nat_digits)

lemma parse_i64_padded: "n < 2 ^ 63 \<Longrightarrow> parse_i64 (zero_pad w n) = Some (int n)"
  using digits_no_sign [OF zero_pad_digits [of w n]]
  by (simp add: parse_i64_def strip_prefix_def parse_padded)

lemma digit_not_cont: "is_digit c \<Longrightarrow> \<not> is_cont c"
  by (auto simp: is_digit_def is_cont_def)

text \<open>In ASCII text every position is a character boundary.\<close>

definition ascii :: "string \<Rightarrow> bool" where
  "ascii s \<longleftrightarrow> list_all (\<lambda>c. byte c < 128) s"

lemma ascii_simps [simp]:
  "ascii []" "ascii (c # s) \<longleftrightarrow> byte c < 128 \<and> ascii s" "ascii (s @ t) \<longleftrightarrow> ascii s \<and> ascii t"
  by (simp_all add: ascii_def)

lemma ascii_digits: "list_all is_digit s \<Longrightarrow> ascii s"
  by (auto simp: ascii_def is_digit_def list_all_iff)

lemma ascii_boundary: "ascii s \<Longrightarrow> char_boundary s i \<longleftrightarrow> i \<le> length s"
  by (fastforce simp: ascii_def char_boundary_def is_cont_def list_all_length)

lemma str_get_mid:
  assumes "ascii (p @ m @ q)" and "length p = a" and "length m = n"
  shows "str_get (p @ m @ q) a (a + n) = Some m"
  using assms by (auto simp: str_get_def ascii_boundary)

end
