(* ===== verification/Demo_Externs.thy ===== *)
theory Demo_Externs
  imports Db Decimal
begin

text \<open>
  A concrete instance of the third-party functions, on which the witnesses of the properties run.
  It is not a model of those libraries: it is small, executable, and satisfies every documented
  behaviour that a property takes as a hypothesis, which shows that these can hold together.

  An instant is printed as the ten digits of its day, \<open>T\<close>, and the fourteen digits of the
  nanosecond within it; SQLite's text has a space and the five digits of the second.
\<close>

section \<open>Fixed-width numbers\<close>

fun dec :: "nat \<Rightarrow> nat \<Rightarrow> string" where
  "dec 0 n = []"
| "dec (Suc w) n = dec w (n div 10) @ [digit_char (n mod 10)]"

definition undec :: "string \<Rightarrow> nat" where
  "undec s = foldl (\<lambda>a c. 10 * a + (byte c - 48)) 0 s"

lemma length_dec [simp]: "length (dec w n) = w"
  by (induction w arbitrary: n) auto

lemma digit_char_less: "m < 10 \<Longrightarrow> n < 10 \<Longrightarrow> digit_char m < digit_char n \<longleftrightarrow> m < n"
  by (simp add: less_char_def byte_digit_char del: of_char_of)

lemma digit_char_inj: "m < 10 \<Longrightarrow> n < 10 \<Longrightarrow> digit_char m = digit_char n \<longleftrightarrow> m = n"
  by (metis byte_digit_char add_left_cancel)

lemma undec_dec: "n < 10 ^ w \<Longrightarrow> undec (dec w n) = n"
proof (induction w arbitrary: n)
  case (Suc w)
  then have "undec (dec w (n div 10)) = n div 10" by (intro Suc.IH) simp
  then show ?case by (simp add: undec_def byte_digit_char del: of_char_of)
qed (simp add: undec_def)

lemma append_less_append:
  "length xs = length ys \<Longrightarrow> (xs @ us < ys @ vs) \<longleftrightarrow> xs < ys \<or> (xs = ys \<and> us < (vs :: 'a::linorder list))"
  by (induction xs ys rule: list_induct2) auto

lemma div_mod_less:
  fixes m n :: nat
  shows "m div 10 < n div 10 \<or> (m div 10 = n div 10 \<and> m mod 10 < n mod 10) \<longleftrightarrow> m < n"
proof -
  have "a < b \<or> (a = b \<and> c < d) \<longleftrightarrow> 10 * a + c < 10 * b + d"
    if "c < 10" "d < 10" for a b c d :: nat
    using that by (cases a b rule: linorder_cases) auto
  from this [of "m mod 10" "n mod 10" "m div 10" "n div 10"] show ?thesis by simp
qed

lemma dec_less:
  "m < 10 ^ w \<Longrightarrow> n < 10 ^ w \<Longrightarrow> dec w m < dec w n \<longleftrightarrow> m < n"
proof (induction w arbitrary: m n)
  case (Suc w)
  have w: "m div 10 < 10 ^ w" "n div 10 < 10 ^ w"
    using Suc.prems by simp_all
  then have "dec w (m div 10) < dec w (n div 10) \<longleftrightarrow> m div 10 < n div 10"
    by (rule Suc.IH)
  moreover have "dec w (m div 10) = dec w (n div 10) \<longleftrightarrow> m div 10 = n div 10"
    using w by (metis undec_dec)
  ultimately show ?case
    using div_mod_less [of m n] by (simp add: append_less_append digit_char_less)
qed simp

lemma dec_inj: "m < 10 ^ w \<Longrightarrow> n < 10 ^ w \<Longrightarrow> dec w m = dec w n \<longleftrightarrow> m = n"
  by (metis undec_dec)

section \<open>Dates\<close>

definition text_origin :: int where
  "text_origin = - 62167219200000000000"

definition day_ns :: int where
  "day_ns = 86400000000000"

definition day_no :: "time \<Rightarrow> nat" where
  "day_no t = nat ((t - text_origin) div day_ns)"

definition day_time :: "time \<Rightarrow> nat" where
  "day_time t = nat ((t - text_origin) mod day_ns)"

definition demo_rfc3339 :: "time \<Rightarrow> string" where
  "demo_rfc3339 t = dec 10 (day_no t) @ CHR ''T'' # dec 14 (day_time t)"

definition demo_parse_rfc3339 :: "string \<Rightarrow> time option" where
  "demo_parse_rfc3339 s =
     (if length s = 25 \<and> s ! 10 = CHR ''T''
      then Some (text_origin + int (undec (take 10 s)) * day_ns + int (undec (drop 11 s)))
      else None)"

definition demo_sqlite_now :: "time \<Rightarrow> string" where
  "demo_sqlite_now t = dec 10 (day_no t) @ CHR '' '' # dec 5 (day_time t div 1000000000)"

definition demo_minus :: "time \<Rightarrow> int \<Rightarrow> time option" where
  "demo_minus t n = (if in_text_range (t - n * day_ns) then Some (t - n * day_ns) else None)"

lemma day_bounds:
  assumes "in_text_range t"
  shows "day_no t < 10 ^ 10" "day_time t < 10 ^ 14"
    and "int (day_no t) * day_ns + int (day_time t) = t - text_origin"
proof -
  have "0 \<le> t - text_origin" "t - text_origin < 10000000000 * day_ns"
    using assms by (simp_all add: in_text_range_def text_origin_def day_ns_def)
  then have "0 \<le> (t - text_origin) div day_ns" "(t - text_origin) div day_ns < 10000000000"
    by (simp_all add: day_ns_def div_int_pos_iff)
  moreover have "0 \<le> (t - text_origin) mod day_ns" "(t - text_origin) mod day_ns < 100000000000000"
    using pos_mod_bound [of day_ns "t - text_origin"] by (simp_all add: day_ns_def)
  ultimately show "day_no t < 10 ^ 10" "day_time t < 10 ^ 14"
    "int (day_no t) * day_ns + int (day_time t) = t - text_origin"
    by (simp_all add: day_no_def day_time_def)
qed

lemma demo_parse_print: "in_text_range t \<Longrightarrow> demo_parse_rfc3339 (demo_rfc3339 t) = Some t"
  using day_bounds [of t]
  by (simp add: demo_parse_rfc3339_def demo_rfc3339_def nth_append undec_dec)

lemma demo_print_less:
  assumes "in_text_range a" "in_text_range b"
  shows "demo_rfc3339 a < demo_rfc3339 b \<longleftrightarrow> a < b"
proof -
  note A = day_bounds [OF assms(1)] and B = day_bounds [OF assms(2)]
  have day: "int (day_time a) < day_ns" "int (day_time b) < day_ns"
    by (simp_all add: day_time_def day_ns_def)
  have "day_no a < day_no b \<Longrightarrow> int (day_no a) * day_ns + day_ns \<le> int (day_no b) * day_ns"
    "day_no b < day_no a \<Longrightarrow> int (day_no b) * day_ns + day_ns \<le> int (day_no a) * day_ns"
    by (simp_all add: day_ns_def)
  then have "day_no a < day_no b \<or> (day_no a = day_no b \<and> day_time a < day_time b) \<longleftrightarrow> a < b"
    using A(3) B(3) day by (cases "day_no a" "day_no b" rule: linorder_cases) auto
  then show ?thesis
    using A B by (simp add: demo_rfc3339_def append_less_append dec_less dec_inj)
qed

section \<open>The other functions\<close>

definition demo_event :: event where
  "demo_event = \<lparr>ev_event_id = replicate 16 (CHR 0x07), ev_timestamp = 0, ev_platform = None,
     ev_level = Some Error, ev_environment = None, ev_release = None, ev_server_name = None,
     ev_message = Some ''boom'', ev_exception = None, ev_breadcrumbs = None, ev_tags = None,
     ev_contexts = None, ev_extra = None, ev_user = None, ev_request = None\<rparr>"

definition demo_json :: "bytes \<Rightarrow> json option" where
  "demo_json s =
     (if s = ''{}'' then Some (JObj [])
      else if s = ''[]'' then Some (JArr [])
      else if s = ''event'' then Some (JObj [(''type'', JStr ''event'')])
      else if s = ''event2'' then
        Some (JObj [(''type'', JStr ''event''), (''length'', JNum (PosInt 2))])
      else if s = ''max'' then Some (JObj [(''length'', JNum (PosInt 18446744073709551615))])
      else None)"

definition demo_url :: "string \<Rightarrow> url option" where
  "demo_url s =
     (case split_once ''://'' s of
        None \<Rightarrow> None
      | Some (scheme, rest) \<Rightarrow>
          Some \<lparr>u_scheme = scheme, u_username = [], u_password = None,
            u_host = Some (takeWhile (\<lambda>c. c \<noteq> CHR ''/'') rest)\<rparr>)"

definition demo_ip :: "string \<Rightarrow> ip_addr option" where
  "demo_ip s =
     (if s = ''127.0.0.1'' then Some (V4 127 0 0 1)
      else if s = ''93.184.216.34'' then Some (V4 93 184 216 34)
      else if s = ''::ffff:127.0.0.1'' then Some (V6 0 0 0 0 0 0xFFFF 0x7F00 1)
      else None)"

definition demo_externs :: externs where
  "demo_externs =
     \<lparr>x_json = demo_json,
      x_event = (\<lambda>s. if s = ''{}'' then Some demo_event else None),
      x_event_json = (\<lambda>_. ''{}''),
      x_gzip = (\<lambda>s. (drop 2 s, False)),
      x_rfc3339 = demo_rfc3339,
      x_parse_rfc3339 = demo_parse_rfc3339,
      x_sqlx_time = demo_rfc3339,
      x_sqlite_now = demo_sqlite_now,
      x_minus = demo_minus,
      x_hash = (\<lambda>salt pw. Some (salt @ CHR ''$'' # pw)),
      x_verify = (\<lambda>h pw. map_option (\<lambda>(_, p). p = pw) (split_once ''$'' h)),
      x_url = demo_url,
      x_ip = demo_ip\<rparr>"

lemma demo_rfc3339_ordered: "rfc3339_ordered demo_externs"
  by (simp add: rfc3339_ordered_def demo_externs_def demo_print_less)

lemma demo_rfc3339_parses: "rfc3339_parses demo_externs"
  by (simp add: rfc3339_parses_def demo_externs_def demo_parse_print)

lemma demo_sqlite_text_not_rfc3339: "sqlite_text_not_rfc3339 demo_externs"
  by (simp add: sqlite_text_not_rfc3339_def demo_externs_def demo_parse_rfc3339_def
      demo_sqlite_now_def)

lemma demo_sqlite_text_format: "sqlite_text_format demo_externs"
proof -
  have "utc_day a = utc_day b \<Longrightarrow> day_no a = day_no b" for a b
  proof -
    have shift: "(t - text_origin) div day_ns = utc_day t + 719528" for t
      using div_mult_self1 [of day_ns t 719528]
      by (simp add: text_origin_def day_ns_def utc_day_def)
    show "utc_day a = utc_day b \<Longrightarrow> day_no a = day_no b"
      by (simp add: day_no_def shift)
  qed
  note day = this
  show ?thesis
    unfolding sqlite_text_format_def
  proof (intro allI impI)
    fix a b
    assume "utc_day a = utc_day b"
    then have "day_no a = day_no b" by (rule day)
    then show "\<exists>d r s. length d = 10 \<and> x_rfc3339 demo_externs a = d @ CHR ''T'' # r \<and>
        x_sqlite_now demo_externs b = d @ CHR '' '' # s"
      by (intro exI [of _ "dec 10 (day_no b)"] exI [of _ "dec 14 (day_time a)"]
            exI [of _ "dec 5 (day_time b div 1000000000)"])
         (simp add: demo_externs_def demo_rfc3339_def demo_sqlite_now_def)
  qed
qed

lemma demo_chrono_bounded: "chrono_bounded demo_externs"
  by (simp add: chrono_bounded_def demo_externs_def demo_minus_def in_text_range_def day_ns_def)

section \<open>A world to run in\<close>

abbreviation "start_time \<equiv> 1700000000000000000 :: time"

definition demo_world :: world where
  "demo_world = \<lparr>w_db = empty_db, w_faults = [], w_now = start_time\<rparr>"

text \<open>A small installation: a project with a muted and a resolved issue, an admin and a viewer.\<close>

definition demo_issue :: "int \<Rightarrow> string \<Rightarrow> string \<Rightarrow> int \<Rightarrow> issue_row" where
  "demo_issue i fp status n =
     \<lparr>ir_id = i, ir_project = ''web'', ir_fingerprint = fp, ir_title = ''boom'', ir_culprit = None,
      ir_level = Some ''error'', ir_status = status, ir_event_count = n,
      ir_first_seen = demo_rfc3339 start_time, ir_last_seen = demo_rfc3339 start_time\<rparr>"

definition demo_event_row :: "int \<Rightarrow> int \<Rightarrow> string \<Rightarrow> event_row" where
  "demo_event_row i issue eid =
     \<lparr>er_id = i, er_issue_id = issue, er_event_id = eid, er_payload = ''{}'',
      er_received_at = demo_sqlite_now start_time\<rparr>"

definition demo_project :: "string \<Rightarrow> string \<Rightarrow> project_row" where
  "demo_project name token =
     \<lparr>pr_name = name, pr_token = token, pr_created_at = demo_rfc3339 start_time,
      pr_last_used_at = None, pr_webhook_url = None, pr_last_webhook_status = None,
      pr_last_webhook_at = None\<rparr>"

definition demo_user :: "string \<Rightarrow> string \<Rightarrow> user_row" where
  "demo_user name role =
     \<lparr>us_username = name, us_password_hash = ''salt$correct horse'', us_role = role,
      us_created_at = demo_rfc3339 start_time, us_last_login_at = None, us_last_login_ip = None,
      us_deactivated_at = None\<rparr>"

definition demo_session :: "string \<Rightarrow> string \<Rightarrow> session_row" where
  "demo_session sid name =
     \<lparr>se_id = sid, se_username = name, se_created_at = demo_rfc3339 start_time,
      se_last_seen_at = demo_rfc3339 start_time, se_ip = None, se_user_agent = None\<rparr>"

definition demo_db :: db where
  "demo_db = empty_db
     \<lparr>issues := [demo_issue 1 ''f1'' ''muted'' 3, demo_issue 2 ''f2'' ''resolved'' 1], issue_seq := 2,
      events := [demo_event_row 1 1 ''e1'', demo_event_row 2 1 ''e2'', demo_event_row 3 2 ''e3''],
      event_seq := 3,
      projects := [demo_project ''web'' ''tok-web'', demo_project ''api'' ''tok-api''],
      users := [demo_user ''ann'' ''admin'', demo_user ''bob'' ''viewer''],
      sessions := [demo_session ''s-ann'' ''ann'', demo_session ''s-bob'' ''bob'']\<rparr>"

definition demo_db_world :: world where
  "demo_db_world = demo_world\<lparr>w_db := demo_db\<rparr>"

lemmas demo_defs = demo_db_world_def demo_world_def demo_db_def empty_db_def demo_issue_def
  demo_event_row_def demo_project_def demo_user_def demo_session_def

end
