(* ===== verification/Schema.thy ===== *)
theory Schema
  imports Db
begin

text \<open>
  The constraints of \<open>crates/errexd/migrations\<close>: primary keys and unique indexes, foreign keys with
  their cascades, the \<open>AUTOINCREMENT\<close> counters and the \<open>CHECK\<close> on roles. \<open>schema_ok\<close> is the
  well-formedness invariant of the database; the theories of the store show that every statement
  keeps it, and every table with a key interprets the interface \<open>keyed_table\<close>.
\<close>

named_theorems schema_intros \<open>statements and operations that keep the schema's constraints\<close>

definition issue_key :: "issue_row \<Rightarrow> string \<times> string" where
  "issue_key r = (ir_project r, ir_fingerprint r)"

definition issues_ok :: "db \<Rightarrow> bool" where
  "issues_ok d \<longleftrightarrow> distinct (map ir_id (issues d)) \<and> distinct (map issue_key (issues d)) \<and>
     (\<forall>r \<in> set (issues d). ir_id r \<le> issue_seq d)"

definition events_ok :: "db \<Rightarrow> bool" where
  "events_ok d \<longleftrightarrow> distinct (map er_id (events d)) \<and> distinct (map er_event_id (events d)) \<and>
     (\<forall>e \<in> set (events d). er_id e \<le> event_seq d)"

definition event_refs_ok :: "db \<Rightarrow> bool" where
  "event_refs_ok d \<longleftrightarrow> (\<forall>e \<in> set (events d). er_issue_id e \<in> ir_id ` set (issues d))"

definition projects_ok :: "db \<Rightarrow> bool" where
  "projects_ok d \<longleftrightarrow> distinct (map pr_name (projects d))"

definition users_ok :: "db \<Rightarrow> bool" where
  "users_ok d \<longleftrightarrow> distinct (map us_username (users d)) \<and>
     (\<forall>u \<in> set (users d). us_role u \<in> {''admin'', ''viewer''})"

definition sessions_ok :: "db \<Rightarrow> bool" where
  "sessions_ok d \<longleftrightarrow> distinct (map se_id (sessions d)) \<and>
     (\<forall>s \<in> set (sessions d). se_username s \<in> us_username ` set (users d))"

definition schema_ok :: "db \<Rightarrow> bool" where
  "schema_ok d \<longleftrightarrow> issues_ok d \<and> events_ok d \<and> event_refs_ok d \<and> projects_ok d \<and>
     users_ok d \<and> sessions_ok d"

lemmas schema_defs = schema_ok_def issues_ok_def events_ok_def event_refs_ok_def projects_ok_def
  users_ok_def sessions_ok_def

lemma schema_ok_empty: "schema_ok empty_db"
  by (simp add: schema_defs empty_db_def)

section \<open>Tables\<close>

interpretation issue_table: keyed_table issues "\<lambda>rs d. d\<lparr>issues := rs\<rparr>" issue_key
  by unfold_locales simp_all

interpretation issue_id_table: keyed_table issues "\<lambda>rs d. d\<lparr>issues := rs\<rparr>" ir_id
  by unfold_locales simp_all

interpretation event_table: keyed_table events "\<lambda>rs d. d\<lparr>events := rs\<rparr>" er_event_id
  by unfold_locales simp_all

interpretation event_id_table: keyed_table events "\<lambda>rs d. d\<lparr>events := rs\<rparr>" er_id
  by unfold_locales simp_all

interpretation project_table: keyed_table projects "\<lambda>rs d. d\<lparr>projects := rs\<rparr>" pr_name
  by unfold_locales simp_all

interpretation user_table: keyed_table users "\<lambda>rs d. d\<lparr>users := rs\<rparr>" us_username
  by unfold_locales simp_all

interpretation session_table: keyed_table sessions "\<lambda>rs d. d\<lparr>sessions := rs\<rparr>" se_id
  by unfold_locales simp_all

lemmas table_unique_updated =
  issue_table.unique_updated [simplified] issue_id_table.unique_updated [simplified]
  project_table.unique_updated [simplified] user_table.unique_updated [simplified]
  session_table.unique_updated [simplified]

lemmas table_unique_deleted =
  issue_table.unique_deleted [simplified] issue_id_table.unique_deleted [simplified]
  event_table.unique_deleted [simplified] event_id_table.unique_deleted [simplified]
  project_table.unique_deleted [simplified] user_table.unique_deleted [simplified]
  session_table.unique_deleted [simplified]

section \<open>Frames\<close>

text \<open>
  A statement that touches some tables keeps the constraints of the others; these rules reduce
  \<open>schema_ok\<close> of an updated database to the constraints that the update can affect.
\<close>

lemma schema_ok_projects:
  "schema_ok d \<Longrightarrow> distinct (map pr_name ps) \<Longrightarrow> schema_ok (d\<lparr>projects := ps\<rparr>)"
  by (simp add: schema_defs)

lemma schema_ok_sessions:
  "schema_ok d \<Longrightarrow> distinct (map se_id ss) \<Longrightarrow>
   (\<And>s. s \<in> set ss \<Longrightarrow> se_username s \<in> us_username ` set (users d)) \<Longrightarrow>
   schema_ok (d\<lparr>sessions := ss\<rparr>)"
  by (simp add: schema_defs)

lemma schema_ok_other:
  "schema_ok d \<Longrightarrow> schema_ok (d\<lparr>attempts := as\<rparr>)"
  "schema_ok d \<Longrightarrow> schema_ok (d\<lparr>attempts := as, attempt_seq := n\<rparr>)"
  "schema_ok d \<Longrightarrow> schema_ok (d\<lparr>retention := r\<rparr>)"
  by (simp_all add: schema_defs)

lemma schema_ok_delete_events:
  "schema_ok d \<Longrightarrow> schema_ok (d\<lparr>events := delete_where P (events d)\<rparr>)"
  by (auto simp: schema_defs distinct_delete_where)

lemma image_update_where:
  assumes "\<And>r. k (f r) = k r"
  shows "k ` set (update_where P f rs) = k ` set rs"
proof -
  have "set (map k (update_where P f rs)) = set (map k rs)"
    by (rule arg_cong [OF map_update_where]) (rule assms)
  then show ?thesis by (simp only: set_map)
qed

lemma schema_ok_update_issues:
  assumes "schema_ok d" and "\<And>r. ir_id (f r) = ir_id r" and "\<And>r. issue_key (f r) = issue_key r"
  shows "schema_ok (d\<lparr>issues := update_where P f (issues d)\<rparr>)"
proof -
  have "ir_id ` set (update_where P f (issues d)) = ir_id ` set (issues d)"
    by (rule image_update_where) (rule assms(2))
  moreover have "\<forall>r \<in> set (update_where P f (issues d)). ir_id r \<le> issue_seq d"
    using assms(1,2) by (auto simp: schema_defs update_where_def)
  ultimately show ?thesis
    using assms by (simp add: schema_defs map_update_where)
qed

lemma schema_ok_update_users:
  assumes "schema_ok d" and "\<And>u. us_username (f u) = us_username u"
    and "\<And>u. us_role u \<in> {''admin'', ''viewer''} \<Longrightarrow> us_role (f u) \<in> {''admin'', ''viewer''}"
  shows "schema_ok (d\<lparr>users := update_where P f (users d)\<rparr>)"
proof -
  have "us_username ` set (update_where P f (users d)) = us_username ` set (users d)"
    by (rule image_update_where) (rule assms(2))
  moreover have "\<forall>u \<in> set (update_where P f (users d)). us_role u \<in> {''admin'', ''viewer''}"
    using assms(1,3) unfolding schema_defs update_where_def by fastforce
  ultimately show ?thesis
    using assms(1,2) by (simp add: schema_defs map_update_where)
qed

text \<open>Deleting issues cascades to their events, deleting users to their sessions.\<close>

definition delete_issues :: "(issue_row \<Rightarrow> bool) \<Rightarrow> db \<Rightarrow> nat \<times> db" where
  "delete_issues P d =
     (count_where P (issues d),
      d\<lparr>issues := delete_where P (issues d),
        events := delete_where (\<lambda>e. \<exists>r \<in> set (issues d). P r \<and> ir_id r = er_issue_id e) (events d)\<rparr>)"

definition delete_users :: "(user_row \<Rightarrow> bool) \<Rightarrow> db \<Rightarrow> nat \<times> db" where
  "delete_users P d =
     (count_where P (users d),
      d\<lparr>users := delete_where P (users d),
        sessions := delete_where (\<lambda>s. \<exists>u \<in> set (users d). P u \<and> us_username u = se_username s) (sessions d)\<rparr>)"

lemma schema_ok_delete_issues: "schema_ok d \<Longrightarrow> schema_ok (snd (delete_issues P d))"
  by (auto simp: schema_defs delete_issues_def distinct_delete_where image_iff) metis

lemma schema_ok_delete_users: "schema_ok d \<Longrightarrow> schema_ok (snd (delete_users P d))"
  by (auto simp: schema_defs delete_users_def distinct_delete_where image_iff) metis

end
