(* ===== verification/Store_Issues.thy ===== *)
theory Store_Issues
  imports Demo_Externs Schema
begin

text \<open>
  The issue and event tables of \<open>crates/errexd/src/store.rs\<close>: grouping an event into an issue
  (\<open>upsert_issue\<close>, \<open>upsert_batch_with_events\<close>), triage (\<open>set_status\<close>), the raw event log
  (\<open>insert_event\<close>, \<open>latest_event\<close>) and the listings.

  Each SQL statement is one definition on the tables (named after what the statement does), and
  each method is their composition in the order of the source. The lemmas give the effect of a
  statement on the rows, and of the upsert on the issue with a given project and fingerprint.
\<close>

section \<open>Rows as values\<close>

definition parse_or_now :: "externs \<Rightarrow> time \<Rightarrow> string \<Rightarrow> time" where
  "parse_or_now X now s = (case x_parse_rfc3339 X s of Some t \<Rightarrow> t | None \<Rightarrow> now)"

definition issue_of_row :: "externs \<Rightarrow> time \<Rightarrow> issue_row \<Rightarrow> issue" where
  "issue_of_row X now r =
     \<lparr>is_id = ir_id r, is_project = ir_project r, is_fingerprint = ir_fingerprint r,
      is_title = ir_title r, is_culprit = ir_culprit r, is_level = ir_level r,
      is_status = from_db_str (ir_status r), is_event_count = ir_event_count r,
      is_first_seen = parse_or_now X now (ir_first_seen r),
      is_last_seen = parse_or_now X now (ir_last_seen r)\<rparr>"

record batch_upsert_input =
  bi_project :: string
  bi_fp :: fingerprint
  bi_title :: string
  bi_culprit :: "string option"
  bi_level :: "string option"
  bi_now :: time
  bi_event_id :: string
  bi_payload :: string

record upsert_result =
  ur_issue :: issue
  ur_created :: bool
  ur_regressed :: bool

record stored_event =
  sv_event_id :: string
  sv_received_at :: time
  sv_payload :: json

section \<open>Statements\<close>

definition insert_issue_on_conflict_do_nothing ::
  "string \<Rightarrow> string \<Rightarrow> string \<Rightarrow> string option \<Rightarrow> string option \<Rightarrow> string \<Rightarrow> db \<Rightarrow> nat \<times> db" where
  "insert_issue_on_conflict_do_nothing project fp title culprit level now_str d =
     (if \<exists>r \<in> set (issues d). issue_key r = (project, fp) then (0, d)
      else (1, d\<lparr>issues := issues d @
        [\<lparr>ir_id = issue_seq d + 1, ir_project = project, ir_fingerprint = fp, ir_title = title,
          ir_culprit = culprit, ir_level = level, ir_status = ''unresolved'',
          ir_event_count = 1, ir_first_seen = now_str, ir_last_seen = now_str\<rparr>],
        issue_seq := issue_seq d + 1\<rparr>))"

definition select_issue :: "string \<Rightarrow> string \<Rightarrow> db \<Rightarrow> issue_row option" where
  "select_issue project fp d = find (\<lambda>r. issue_key r = (project, fp)) (issues d)"

definition bump_issue :: "string \<Rightarrow> issue_row \<Rightarrow> issue_row" where
  "bump_issue now_str r = r\<lparr>ir_event_count := ir_event_count r + 1, ir_last_seen := now_str\<rparr>"

definition reopen_issue :: "string \<Rightarrow> issue_row \<Rightarrow> issue_row" where
  "reopen_issue now_str r = bump_issue now_str r\<lparr>ir_status := ''unresolved''\<rparr>"

definition update_issue ::
  "string \<Rightarrow> string \<Rightarrow> (issue_row \<Rightarrow> issue_row) \<Rightarrow> db \<Rightarrow> nat \<times> db" where
  "update_issue project fp f d =
     (count_where (\<lambda>r. issue_key r = (project, fp)) (issues d),
      d\<lparr>issues := update_where (\<lambda>r. issue_key r = (project, fp)) f (issues d)\<rparr>)"

definition insert_event_on_conflict_do_nothing ::
  "string \<Rightarrow> int \<Rightarrow> string \<Rightarrow> string \<Rightarrow> db \<Rightarrow> sqlx_error + unit \<times> db" where
  "insert_event_on_conflict_do_nothing received_at issue_id event_id payload d =
     (if \<exists>e \<in> set (events d). er_event_id e = event_id then Inr ((), d)
      else if \<not> (\<exists>r \<in> set (issues d). ir_id r = issue_id) then Inl ForeignKeyViolation
      else Inr ((), d\<lparr>events := events d @
        [\<lparr>er_id = event_seq d + 1, er_issue_id = issue_id, er_event_id = event_id,
          er_payload = payload, er_received_at = received_at\<rparr>],
        event_seq := event_seq d + 1\<rparr>))"

definition update_issue_status :: "int \<Rightarrow> string \<Rightarrow> db \<Rightarrow> nat \<times> db" where
  "update_issue_status issue_id status d =
     (count_where (\<lambda>r. ir_id r = issue_id) (issues d),
      d\<lparr>issues := update_where (\<lambda>r. ir_id r = issue_id) (\<lambda>r. r\<lparr>ir_status := status\<rparr>) (issues d)\<rparr>)"

section \<open>Methods\<close>

text \<open>
  The part of the upsert both entry points share: insert, else read the status and bump or
  reopen, then read the row back. They differ in the text of the timestamp.
\<close>

definition upsert_row ::
  "string \<Rightarrow> fingerprint \<Rightarrow> string \<Rightarrow> string option \<Rightarrow> string option \<Rightarrow> string \<Rightarrow>
     ('z, issue_row \<times> bool \<times> bool) op" where
  "upsert_row project fp title culprit level now_str =
     bnd (exec (insert_issue_on_conflict_do_nothing project fp title culprit level now_str))
       (\<lambda>inserted.
     let created = (inserted = 1) in
     bnd (if created then ret False
          else
            bnd (fetch_one (\<lambda>d. map_option ir_status (select_issue project fp d)))
              (\<lambda>prev_status.
            if from_db_str prev_status = Resolved
            then bnd (exec (update_issue project fp (reopen_issue now_str))) (\<lambda>_. ret True)
            else bnd (exec (update_issue project fp (bump_issue now_str))) (\<lambda>_. ret False)))
       (\<lambda>regressed.
     bnd (fetch_one (select_issue project fp)) (\<lambda>row.
     ret (row, created, regressed))))"

definition upsert_issue ::
  "externs \<Rightarrow> string \<Rightarrow> fingerprint \<Rightarrow> string \<Rightarrow> string option \<Rightarrow> string option \<Rightarrow> time \<Rightarrow>
     ('z, upsert_result) op" where
  "upsert_issue X project fp title culprit level now =
     bnd (tx (upsert_row project fp title culprit level (x_rfc3339 X now)))
       (\<lambda>(row, created, regressed).
     bnd utc_now (\<lambda>t.
     ret \<lparr>ur_issue = issue_of_row X t row, ur_created = created, ur_regressed = regressed\<rparr>))"

definition upsert_one :: "externs \<Rightarrow> batch_upsert_input \<Rightarrow> ('z, upsert_result) op" where
  "upsert_one X input =
     bnd (upsert_row (bi_project input) (bi_fp input) (bi_title input) (bi_culprit input)
            (bi_level input) (x_sqlx_time X (bi_now input)))
       (\<lambda>(row, created, regressed).
     bnd utc_now (\<lambda>t.
     bnd (stmt (insert_event_on_conflict_do_nothing (x_sqlite_now X t) (ir_id row)
            (bi_event_id input) (bi_payload input))) (\<lambda>_.
     ret \<lparr>ur_issue = issue_of_row X t row, ur_created = created, ur_regressed = regressed\<rparr>)))"

definition upsert_batch_with_events ::
  "externs \<Rightarrow> batch_upsert_input list \<Rightarrow> ('z, upsert_result list) op" where
  "upsert_batch_with_events X batch = tx (for_each (upsert_one X) batch)"

definition set_status :: "externs \<Rightarrow> int \<Rightarrow> issue_status \<Rightarrow> ('z, issue) op" where
  "set_status X issue_id status =
     bnd (tx
       (bnd (exec (update_issue_status issue_id (as_db_str status))) (\<lambda>updated.
        if updated = 0 then err (NotFound (''issue '' @ show_int issue_id))
        else fetch_one (\<lambda>d. find (\<lambda>r. ir_id r = issue_id) (issues d)))))
       (\<lambda>row. bnd utc_now (\<lambda>t. ret (issue_of_row X t row)))"

text \<open>\<open>Uuid::to_string\<close> prints hyphens, unlike the \<open>simple\<close> form the digest stores.\<close>

definition uuid_simple :: "bytes \<Rightarrow> string" where
  "uuid_simple u = concat (map hex_byte u)"

definition uuid_hyphenated :: "bytes \<Rightarrow> string" where
  "uuid_hyphenated u =
     (let h = uuid_simple u
      in take 8 h @ ''-'' @ take 4 (drop 8 h) @ ''-'' @ take 4 (drop 12 h) @ ''-''
         @ take 4 (drop 16 h) @ ''-'' @ drop 20 h)"

definition insert_event :: "externs \<Rightarrow> int \<Rightarrow> event \<Rightarrow> ('z, unit) op" where
  "insert_event X issue_id e =
     bnd utc_now (\<lambda>t.
     stmt (insert_event_on_conflict_do_nothing (x_sqlite_now X t) issue_id
       (uuid_hyphenated (ev_event_id e)) (x_event_json X e)))"

definition load_issues :: "externs \<Rightarrow> ('z, issue list) op" where
  "load_issues X =
     bnd (query (\<lambda>d. order_desc ir_last_seen (issues d))) (\<lambda>rows.
     bnd utc_now (\<lambda>t. ret (map (issue_of_row X t) rows)))"

definition list_issues_by_project :: "externs \<Rightarrow> string \<Rightarrow> ('z, issue list) op" where
  "list_issues_by_project X project =
     bnd (query (\<lambda>d. order_desc ir_last_seen (filter (\<lambda>r. ir_project r = project) (issues d))))
       (\<lambda>rows.
     bnd utc_now (\<lambda>t. ret (map (issue_of_row X t) rows)))"

definition project_summaries :: "('z, (string \<times> nat) list) op" where
  "project_summaries =
     query (\<lambda>d. map (\<lambda>p. (p, count_where (\<lambda>r. ir_project r = p) (issues d)))
                  (sort (remdups (map ir_project (issues d)))))"

text \<open>\<open>ORDER BY received_at DESC, id DESC LIMIT 1\<close>.\<close>

definition event_before :: "event_row \<Rightarrow> event_row \<Rightarrow> bool" where
  "event_before a b \<longleftrightarrow>
     er_received_at b < er_received_at a \<or>
     (er_received_at a = er_received_at b \<and> er_id b < er_id a)"

fun first_by :: "('r \<Rightarrow> 'r \<Rightarrow> bool) \<Rightarrow> 'r list \<Rightarrow> 'r option" where
  "first_by before [] = None"
| "first_by before (r # rs) =
     (case first_by before rs of
        None \<Rightarrow> Some r
      | Some b \<Rightarrow> Some (if before b r then b else r))"

definition stored_event_of_row ::
  "externs \<Rightarrow> time \<Rightarrow> event_row \<Rightarrow> (daemon_error, stored_event) outcome" where
  "stored_event_of_row X now r =
     (case x_json X (er_payload r) of
        None \<Rightarrow> Err Json
      | Some v \<Rightarrow> Ok \<lparr>sv_event_id = er_event_id r,
                     sv_received_at = parse_or_now X now (er_received_at r), sv_payload = v\<rparr>)"

definition latest_event :: "externs \<Rightarrow> int \<Rightarrow> ('z, stored_event option) op" where
  "latest_event X issue_id =
     bnd (query (\<lambda>d. first_by event_before (filter (\<lambda>e. er_issue_id e = issue_id) (events d))))
       (\<lambda>row.
     bnd utc_now (\<lambda>t.
     case row of
       None \<Rightarrow> ret None
     | Some r \<Rightarrow> (case stored_event_of_row X t r of
                    Ok v \<Rightarrow> ret (Some v) | Err e \<Rightarrow> err e | Panic \<Rightarrow> panic)))"

section \<open>The upsert as a function on the tables\<close>

lemma issue_key_bump [simp]:
  "issue_key (bump_issue t r) = issue_key r" "issue_key (reopen_issue t r) = issue_key r"
  "ir_id (bump_issue t r) = ir_id r" "ir_id (reopen_issue t r) = ir_id r"
  "ir_project (bump_issue t r) = ir_project r" "ir_project (reopen_issue t r) = ir_project r"
  "ir_fingerprint (bump_issue t r) = ir_fingerprint r"
  "ir_fingerprint (reopen_issue t r) = ir_fingerprint r"
  by (simp_all add: issue_key_def bump_issue_def reopen_issue_def)

lemma select_issue_None:
  "select_issue p fp d = None \<longleftrightarrow> \<not> (\<exists>r \<in> set (issues d). issue_key r = (p, fp))"
  by (simp add: select_issue_def find_None_iff_key)

lemma select_issue_SomeD:
  "select_issue p fp d = Some r \<Longrightarrow> r \<in> set (issues d) \<and> issue_key r = (p, fp)"
  by (auto simp: select_issue_def dest: find_SomeD)

text \<open>The row an upsert leaves, from the row it finds.\<close>

definition fresh_row ::
  "int \<Rightarrow> string \<Rightarrow> string \<Rightarrow> string \<Rightarrow> string option \<Rightarrow> string option \<Rightarrow> string \<Rightarrow> issue_row" where
  "fresh_row i project fp title culprit level t =
     \<lparr>ir_id = i, ir_project = project, ir_fingerprint = fp, ir_title = title,
      ir_culprit = culprit, ir_level = level, ir_status = ''unresolved'',
      ir_event_count = 1, ir_first_seen = t, ir_last_seen = t\<rparr>"

definition next_row :: "string \<Rightarrow> issue_row \<Rightarrow> issue_row" where
  "next_row t r =
     (if from_db_str (ir_status r) = Resolved then reopen_issue t r else bump_issue t r)"

definition upsert_pure ::
  "string \<Rightarrow> string \<Rightarrow> string \<Rightarrow> string option \<Rightarrow> string option \<Rightarrow> string \<Rightarrow> db \<Rightarrow>
     (issue_row \<times> bool \<times> bool) \<times> db" where
  "upsert_pure project fp title culprit level t d =
     (case select_issue project fp d of
        None \<Rightarrow>
          let r = fresh_row (issue_seq d + 1) project fp title culprit level t
          in ((r, True, False), d\<lparr>issues := issues d @ [r], issue_seq := issue_seq d + 1\<rparr>)
      | Some r \<Rightarrow>
          ((next_row t r, False, from_db_str (ir_status r) = Resolved),
           d\<lparr>issues := update_where (\<lambda>r. issue_key r = (project, fp))
               (if from_db_str (ir_status r) = Resolved then reopen_issue t else bump_issue t)
               (issues d)\<rparr>))"

lemma select_issue_updated:
  assumes "\<And>r. issue_key (f r) = issue_key r"
  shows "select_issue p fp (d\<lparr>issues := update_where (\<lambda>r. issue_key r = k) f (issues d)\<rparr>) =
    (if (p, fp) = k then map_option f (select_issue p fp d) else select_issue p fp d)"
  using assms by (auto simp: select_issue_def intro: find_update_same find_update_other)

lemma select_issue_appended:
  "select_issue p fp (d\<lparr>issues := issues d @ [r], issue_seq := n\<rparr>) =
    (case select_issue p fp d of
       Some r' \<Rightarrow> Some r' | None \<Rightarrow> if issue_key r = (p, fp) then Some r else None)"
  by (auto simp: select_issue_def find_append split: option.split)

lemma upsert_row_quiet:
  assumes "quiet w"
  shows "upsert_row p fp title culprit level t w =
    (Ok (fst (upsert_pure p fp title culprit level t (w_db w))),
     w\<lparr>w_db := snd (upsert_pure p fp title culprit level t (w_db w))\<rparr>)"
proof (cases "select_issue p fp (w_db w)")
  case None
  then have "\<not> (\<exists>r \<in> set (issues (w_db w)). issue_key r = (p, fp))"
    by (simp add: select_issue_None)
  with None assms show ?thesis
    by (simp add: upsert_row_def upsert_pure_def insert_issue_on_conflict_do_nothing_def op_simps
        fresh_row_def [symmetric] Let_def bnd_def)
       (simp add: select_issue_appended op_simps fresh_row_def issue_key_def)
next
  case (Some r)
  then have "\<exists>r \<in> set (issues (w_db w)). issue_key r = (p, fp)"
    using select_issue_SomeD [OF Some] by blast
  with Some assms show ?thesis
    by (simp add: upsert_row_def upsert_pure_def insert_issue_on_conflict_do_nothing_def op_simps
        update_issue_def next_row_def bnd_def select_issue_updated)
qed

definition add_event :: "string \<Rightarrow> int \<Rightarrow> string \<Rightarrow> string \<Rightarrow> db \<Rightarrow> db" where
  "add_event t issue_id event_id payload d =
     (if \<exists>e \<in> set (events d). er_event_id e = event_id then d
      else d\<lparr>events := events d @
        [\<lparr>er_id = event_seq d + 1, er_issue_id = issue_id, er_event_id = event_id,
          er_payload = payload, er_received_at = t\<rparr>], event_seq := event_seq d + 1\<rparr>)"

definition ingest_pure ::
  "externs \<Rightarrow> time \<Rightarrow> batch_upsert_input \<Rightarrow> db \<Rightarrow> upsert_result \<times> db" where
  "ingest_pure X t i d =
     (let ((row, created, regressed), d') =
        upsert_pure (bi_project i) (bi_fp i) (bi_title i) (bi_culprit i) (bi_level i)
          (x_sqlx_time X (bi_now i)) d
      in (\<lparr>ur_issue = issue_of_row X t row, ur_created = created, ur_regressed = regressed\<rparr>,
          add_event (x_sqlite_now X t) (ir_id row) (bi_event_id i) (bi_payload i) d'))"

text \<open>The row the upsert returns is in the table, so the foreign key of its event holds.\<close>

lemma upsert_pure_row_stored:
  "fst (fst (upsert_pure p fp title culprit level t d)) \<in>
     set (issues (snd (upsert_pure p fp title culprit level t d)))"
proof (cases "select_issue p fp d")
  case (Some r)
  with select_issue_SomeD [OF Some] show ?thesis
    by (auto simp: upsert_pure_def next_row_def update_where_def image_iff)
qed (simp add: upsert_pure_def Let_def)

lemma insert_event_quiet_ok:
  "\<exists>r \<in> set (issues d). ir_id r = i \<Longrightarrow>
   insert_event_on_conflict_do_nothing t i eid payload d = Inr ((), add_event t i eid payload d)"
  by (auto simp: insert_event_on_conflict_do_nothing_def add_event_def)

lemma upsert_one_quiet:
  assumes "quiet w"
  shows "upsert_one X i w =
    (Ok (fst (ingest_pure X (w_now w) i (w_db w))),
     w\<lparr>w_db := snd (ingest_pure X (w_now w) i (w_db w))\<rparr>)"
proof -
  let ?u = "upsert_pure (bi_project i) (bi_fp i) (bi_title i) (bi_culprit i) (bi_level i)
              (x_sqlx_time X (bi_now i)) (w_db w)"
  obtain row created regressed d where u: "?u = ((row, created, regressed), d)"
    by (metis prod.exhaust)
  have "row \<in> set (issues d)"
    using upsert_pure_row_stored [of "bi_project i" "bi_fp i" "bi_title i" "bi_culprit i"
        "bi_level i" "x_sqlx_time X (bi_now i)" "w_db w"] u by simp
  then have fk: "\<exists>r \<in> set (issues d). ir_id r = ir_id row" by blast
  let ?m = "upsert_row (bi_project i) (bi_fp i) (bi_title i) (bi_culprit i) (bi_level i)
              (x_sqlx_time X (bi_now i))"
  have row: "?m w = (Ok (row, created, regressed), w\<lparr>w_db := d\<rparr>)"
    using u by (simp add: upsert_row_quiet [OF assms])
  show ?thesis
    using assms u fk
    by (simp add: upsert_one_def bnd_Ok [of ?m, OF row] ingest_pure_def op_simps)
       (simp add: bnd_def stmt_quiet run_stmt_def insert_event_quiet_ok op_simps)
qed

lemma upsert_batch_quiet:
  assumes "quiet w"
  shows "upsert_batch_with_events X batch w =
    (Ok (fst (scan (ingest_pure X (w_now w)) batch (w_db w))),
     w\<lparr>w_db := snd (scan (ingest_pure X (w_now w)) batch (w_db w))\<rparr>)"
  unfolding upsert_batch_with_events_def
  using assms
  by (intro tx_quiet_Ok for_each_quiet) (simp_all add: upsert_one_quiet)

lemma upsert_batch_fault_or_ideal: "fault_or_ideal (upsert_batch_with_events X batch)"
  unfolding upsert_batch_with_events_def upsert_one_def upsert_row_def Let_def
  by (intro fault_intros)

section \<open>The abstract ledger\<close>

text \<open>
  What the store promises its clients: a finite map from project and fingerprint to a group of
  events. An event creates its group or counts into it, a resolved group is reopened (a
  regression), and the title, culprit and level of the first event stay.
\<close>

record group =
  gr_title :: string
  gr_culprit :: "string option"
  gr_level :: "string option"
  gr_status :: issue_status
  gr_count :: int
  gr_first_seen :: string
  gr_last_seen :: string

type_synonym ledger = "string \<times> string \<Rightarrow> group option"

definition group_of_row :: "issue_row \<Rightarrow> group" where
  "group_of_row r =
     \<lparr>gr_title = ir_title r, gr_culprit = ir_culprit r, gr_level = ir_level r,
      gr_status = from_db_str (ir_status r), gr_count = ir_event_count r,
      gr_first_seen = ir_first_seen r, gr_last_seen = ir_last_seen r\<rparr>"

definition ledger_of :: "db \<Rightarrow> ledger" where
  "ledger_of d = (\<lambda>(p, fp). map_option group_of_row (select_issue p fp d))"

definition input_key :: "batch_upsert_input \<Rightarrow> string \<times> string" where
  "input_key i = (bi_project i, bi_fp i)"

definition spec_group :: "externs \<Rightarrow> ledger \<Rightarrow> batch_upsert_input \<Rightarrow> group" where
  "spec_group X m i =
     (let t = x_sqlx_time X (bi_now i) in
      case m (input_key i) of
        None \<Rightarrow> \<lparr>gr_title = bi_title i, gr_culprit = bi_culprit i, gr_level = bi_level i,
                 gr_status = Unresolved, gr_count = 1, gr_first_seen = t, gr_last_seen = t\<rparr>
      | Some g \<Rightarrow> g\<lparr>gr_status := if gr_status g = Resolved then Unresolved else gr_status g,
                    gr_count := gr_count g + 1, gr_last_seen := t\<rparr>)"

definition spec_upsert :: "externs \<Rightarrow> ledger \<Rightarrow> batch_upsert_input \<Rightarrow> ledger" where
  "spec_upsert X m i = m(input_key i \<mapsto> spec_group X m i)"

text \<open>What the caller learns: was the group created, did it regress, its status and count.\<close>

type_synonym verdict = "bool \<times> bool \<times> issue_status \<times> int"

definition spec_verdict :: "externs \<Rightarrow> ledger \<Rightarrow> batch_upsert_input \<Rightarrow> verdict" where
  "spec_verdict X m i =
     (m (input_key i) = None,
      map_option gr_status (m (input_key i)) = Some Resolved,
      gr_status (spec_group X m i), gr_count (spec_group X m i))"

fun spec_verdicts :: "externs \<Rightarrow> ledger \<Rightarrow> batch_upsert_input list \<Rightarrow> verdict list" where
  "spec_verdicts X m [] = []"
| "spec_verdicts X m (i # is) = spec_verdict X m i # spec_verdicts X (spec_upsert X m i) is"

definition verdict_of :: "upsert_result \<Rightarrow> verdict" where
  "verdict_of r = (ur_created r, ur_regressed r, is_status (ur_issue r), is_event_count (ur_issue r))"

text \<open>Two texts decode to the same status when they agree or neither is a known word.\<close>

lemma from_db_str_unresolved [simp]: "from_db_str ''unresolved'' = Unresolved"
  by (simp add: from_db_str_def)

lemma group_of_fresh_row:
  "group_of_row (fresh_row i p fp title culprit level t) =
     \<lparr>gr_title = title, gr_culprit = culprit, gr_level = level, gr_status = Unresolved,
      gr_count = 1, gr_first_seen = t, gr_last_seen = t\<rparr>"
  by (simp add: group_of_row_def fresh_row_def)

lemma group_of_next_row:
  "group_of_row (next_row t r) = (group_of_row r)
     \<lparr>gr_status := if gr_status (group_of_row r) = Resolved then Unresolved
                   else gr_status (group_of_row r),
      gr_count := gr_count (group_of_row r) + 1, gr_last_seen := t\<rparr>"
  by (simp add: group_of_row_def next_row_def reopen_issue_def bump_issue_def)

lemma upsert_pure_row:
  "group_of_row (fst (fst (upsert_pure (bi_project i) (bi_fp i) (bi_title i) (bi_culprit i)
      (bi_level i) (x_sqlx_time X (bi_now i)) d))) = spec_group X (ledger_of d) i"
  by (simp add: upsert_pure_def spec_group_def ledger_of_def input_key_def group_of_fresh_row
      group_of_next_row Let_def split: option.split)

lemma upsert_pure_ledger:
  "ledger_of (snd (upsert_pure (bi_project i) (bi_fp i) (bi_title i) (bi_culprit i)
      (bi_level i) (x_sqlx_time X (bi_now i)) d)) = spec_upsert X (ledger_of d) i"
proof (cases "select_issue (bi_project i) (bi_fp i) d")
  case None
  then show ?thesis
    by (auto simp: fun_eq_iff upsert_pure_def spec_upsert_def spec_group_def ledger_of_def
        input_key_def Let_def select_issue_appended group_of_fresh_row split: option.split)
       (auto simp: fresh_row_def issue_key_def)
next
  case (Some r)
  then show ?thesis
    using group_of_next_row [of "x_sqlx_time X (bi_now i)" r]
    by (auto simp: fun_eq_iff upsert_pure_def spec_upsert_def spec_group_def ledger_of_def
        input_key_def Let_def select_issue_updated next_row_def split: if_splits)
qed

lemma ledger_of_add_event [simp]: "ledger_of (add_event t j eid payload d) = ledger_of d"
  by (simp add: ledger_of_def select_issue_def add_event_def)

lemma ingest_pure_refines:
  "ledger_of (snd (ingest_pure X t i d)) = spec_upsert X (ledger_of d) i"
  "verdict_of (fst (ingest_pure X t i d)) = spec_verdict X (ledger_of d) i"
proof -
  let ?u = "upsert_pure (bi_project i) (bi_fp i) (bi_title i) (bi_culprit i) (bi_level i)
              (x_sqlx_time X (bi_now i)) d"
  show "ledger_of (snd (ingest_pure X t i d)) = spec_upsert X (ledger_of d) i"
    using upsert_pure_ledger [of i X d] by (auto simp: ingest_pure_def split: prod.split)
  have row: "group_of_row (fst (fst ?u)) = spec_group X (ledger_of d) i"
    by (rule upsert_pure_row)
  have "fst (snd (fst ?u)) = (ledger_of d (input_key i) = None)"
       "snd (snd (fst ?u)) = (map_option gr_status (ledger_of d (input_key i)) = Some Resolved)"
    by (simp_all add: upsert_pure_def ledger_of_def input_key_def Let_def group_of_row_def
        split: option.split)
  with row [symmetric] show "verdict_of (fst (ingest_pure X t i d)) = spec_verdict X (ledger_of d) i"
    by (auto simp: ingest_pure_def verdict_of_def spec_verdict_def issue_of_row_def
        group_of_row_def split: prod.split)
qed

lemma scan_refines:
  "ledger_of (snd (scan (ingest_pure X t) batch d)) = foldl (spec_upsert X) (ledger_of d) batch"
  "map verdict_of (fst (scan (ingest_pure X t) batch d)) = spec_verdicts X (ledger_of d) batch"
proof (induction batch arbitrary: d)
  case (Cons i batch)
  { case 1
    show ?case
      using Cons.IH(1) [of "snd (ingest_pure X t i d)"] ingest_pure_refines(1) [of X t i d]
      by (auto split: prod.split)
  }
  { case 2
    show ?case
      using Cons.IH(2) [of "snd (ingest_pure X t i d)"] ingest_pure_refines [of X t i d]
      by (auto split: prod.split)
  }
qed simp_all

text \<open>Every schedule: the specified effect, or nothing but an injected fault.\<close>

lemma upsert_batch_cases:
  obtains (stored) rs w' where "upsert_batch_with_events X batch w = (Ok rs, w')"
      "w_now w' = w_now w"
      "(rs, w_db w') = scan (ingest_pure X (w_now w)) batch (w_db w)"
    | (failed) w' where "upsert_batch_with_events X batch w = (Err fault, w')"
      "w_db w' = w_db w" "\<not> quiet w"
proof (rule fault_cases [OF upsert_batch_fault_or_ideal [of X batch]
      upsert_batch_quiet [OF calm_simps(1), of X batch w]])
  fix w'
  assume run: "upsert_batch_with_events X batch w =
      (Ok (fst (scan (ingest_pure X (w_now (calm w))) batch (w_db (calm w)))), w')"
    and "calm w' = calm w\<lparr>w_db := snd (scan (ingest_pure X (w_now (calm w))) batch (w_db (calm w)))\<rparr>"
  from arg_cong [OF this(2), of w_db] arg_cong [OF this(2), of w_now]
  show thesis by (intro stored [OF run]) simp_all
next
  fix w'
  assume run: "upsert_batch_with_events X batch w = (Err fault, w')" and "\<not> quiet w"
  then show thesis
    using tx_all_or_nothing [of "for_each (upsert_one X) batch" w "Err fault" w']
    by (intro failed [of w']) (simp_all add: upsert_batch_with_events_def)
qed

text \<open>A group that the user silenced stays silenced, and every event still counts.\<close>

lemma spec_silenced:
  "m k = Some g \<Longrightarrow> gr_status g \<in> {Muted, Ignored} \<Longrightarrow>
   \<exists>g'. foldl (spec_upsert X) m b k = Some g' \<and> gr_status g' = gr_status g \<and>
        gr_count g' = gr_count g + length (filter (\<lambda>i. input_key i = k) b)"
proof (induction b arbitrary: m g)
  case (Cons i b)
  show ?case
  proof (cases "input_key i = k")
    case True
    let ?g = "spec_group X m i"
    have "gr_status ?g = gr_status g" "gr_count ?g = gr_count g + 1"
      using True Cons.prems by (auto simp: spec_group_def Let_def)
    with Cons.IH [of "spec_upsert X m i" ?g] True Cons.prems show ?thesis
      by (auto simp: spec_upsert_def)
  next
    case False
    with Cons.IH [of "spec_upsert X m i" g] Cons.prems show ?thesis
      by (auto simp: spec_upsert_def)
  qed
qed auto

text \<open>The verdicts a key gets in a batch: at most one creation and at most one regression.\<close>

definition verdicts_at ::
  "(verdict \<Rightarrow> bool) \<Rightarrow> string \<times> string \<Rightarrow> batch_upsert_input list \<Rightarrow> verdict list \<Rightarrow> nat" where
  "verdicts_at P k b vs = length (filter (\<lambda>(i, v). input_key i = k \<and> P v) (zip b vs))"

lemma verdicts_at_simps [simp]:
  "verdicts_at P k [] vs = 0"
  "verdicts_at P k (i # b) (v # vs) =
     (if input_key i = k \<and> P v then 1 else 0) + verdicts_at P k b vs"
  by (simp_all add: verdicts_at_def)

lemma spec_upsert_at:
  "spec_upsert X m i k = (if k = input_key i then Some (spec_group X m i) else m k)"
  by (simp add: spec_upsert_def)

lemma spec_group_not_resolved: "gr_status (spec_group X m i) \<noteq> Resolved"
  by (auto simp: spec_group_def Let_def split: option.split)

lemma spec_created_once:
  "verdicts_at fst k b (spec_verdicts X m b) =
     (if m k = None \<and> k \<in> set (map input_key b) then 1 else 0)"
  by (induction b arbitrary: m) (auto simp: spec_verdict_def spec_upsert_at)

lemma spec_regressed_once:
  "verdicts_at (\<lambda>v. fst (snd v)) k b (spec_verdicts X m b) =
     (if map_option gr_status (m k) = Some Resolved \<and> k \<in> set (map input_key b) then 1 else 0)"
  by (induction b arbitrary: m)
     (auto simp: spec_verdict_def spec_upsert_at spec_group_not_resolved)

section \<open>The ledger interface\<close>

text \<open>
  What the digest task relies on: a batch submitted to the ledger has the specified effect and
  verdicts, or fails and changes nothing. The lemmas are about any such ledger.
\<close>

locale issue_ledger =
  fixes submit :: "externs \<Rightarrow> batch_upsert_input list \<Rightarrow> ('z, upsert_result list) op"
    and view :: "db \<Rightarrow> ledger"
  assumes submit_Ok: "submit X b w = (Ok rs, w') \<Longrightarrow>
      view (w_db w') = foldl (spec_upsert X) (view (w_db w)) b \<and>
      map verdict_of rs = spec_verdicts X (view (w_db w)) b"
    and submit_Err: "submit X b w = (Err e, w') \<Longrightarrow> w_db w' = w_db w"
    and submit_not_Panic: "submit X b w \<noteq> (Panic, w')"
begin

lemma submit_length: "submit X b w = (Ok rs, w') \<Longrightarrow> length rs = length b"
proof -
  assume "submit X b w = (Ok rs, w')"
  then have "length (map verdict_of rs) = length (spec_verdicts X (view (w_db w)) b)"
    by (simp add: submit_Ok)
  moreover have "length (spec_verdicts X m b) = length b" for m
    by (induction b arbitrary: m) auto
  ultimately show ?thesis by simp
qed

lemma submit_failed_keeps_view: "submit X b w = (Err e, w') \<Longrightarrow> view (w_db w') = view (w_db w)"
  by (simp add: submit_Err)

lemma submit_silenced:
  "submit X b w = (Ok rs, w') \<Longrightarrow> view (w_db w) k = Some g \<Longrightarrow> gr_status g \<in> {Muted, Ignored} \<Longrightarrow>
   \<exists>g'. view (w_db w') k = Some g' \<and> gr_status g' = gr_status g \<and>
        gr_count g' = gr_count g + length (filter (\<lambda>i. input_key i = k) b)"
  by (simp add: submit_Ok spec_silenced)

lemma submit_notifies_once:
  assumes "submit X b w = (Ok rs, w')"
  shows "length (filter (\<lambda>(i, r). input_key i = k \<and> ur_created r) (zip b rs)) =
      (if view (w_db w) k = None \<and> k \<in> set (map input_key b) then 1 else 0)"
    and "length (filter (\<lambda>(i, r). input_key i = k \<and> ur_regressed r) (zip b rs)) =
      (if map_option gr_status (view (w_db w) k) = Some Resolved \<and> k \<in> set (map input_key b)
       then 1 else 0)"
proof -
  have eq: "length (filter (\<lambda>(i, r). input_key i = k \<and> P (verdict_of r)) (zip b rs)) =
      verdicts_at P k b (map verdict_of rs)" for P
    by (simp add: verdicts_at_def zip_map2 filter_map o_def case_prod_unfold)
  show "length (filter (\<lambda>(i, r). input_key i = k \<and> ur_created r) (zip b rs)) =
      (if view (w_db w) k = None \<and> k \<in> set (map input_key b) then 1 else 0)"
    using eq [of fst] spec_created_once submit_Ok [OF assms] by (simp add: verdict_of_def)
  show "length (filter (\<lambda>(i, r). input_key i = k \<and> ur_regressed r) (zip b rs)) =
      (if map_option gr_status (view (w_db w) k) = Some Resolved \<and> k \<in> set (map input_key b)
       then 1 else 0)"
    using eq [of "\<lambda>v. fst (snd v)"] spec_regressed_once submit_Ok [OF assms]
    by (simp add: verdict_of_def)
qed

end

interpretation store_ledger: issue_ledger upsert_batch_with_events ledger_of
proof
  fix X b and w :: "'a world_scheme" and rs w' e
  show "upsert_batch_with_events X b w = (Ok rs, w') \<Longrightarrow>
      ledger_of (w_db w') = foldl (spec_upsert X) (ledger_of (w_db w)) b \<and>
      map verdict_of rs = spec_verdicts X (ledger_of (w_db w)) b"
    by (cases rule: upsert_batch_cases [of X b w])
       (auto simp: scan_refines [of X "w_now w" b "w_db w", symmetric]
         dest: arg_cong [of _ _ fst] arg_cong [of _ _ snd])
  show "upsert_batch_with_events X b w = (Err e, w') \<Longrightarrow> w_db w' = w_db w"
    by (cases rule: upsert_batch_cases [of X b w]) auto
  show "upsert_batch_with_events X b w \<noteq> (Panic, w')"
    by (cases rule: upsert_batch_cases [of X b w]) auto
qed

section \<open>Duplicates and triage\<close>

text \<open>The log of raw events: every identifier once, in order of arrival, nothing overwritten.\<close>

definition log_of :: "db \<Rightarrow> (string \<times> string) list" where
  "log_of d = map (\<lambda>e. (er_event_id e, er_payload e)) (events d)"

definition spec_log ::
  "(string \<times> string) list \<Rightarrow> batch_upsert_input \<Rightarrow> (string \<times> string) list" where
  "spec_log l i =
     (if bi_event_id i \<in> set (map fst l) then l else l @ [(bi_event_id i, bi_payload i)])"

lemma log_of_ingest_pure: "log_of (snd (ingest_pure X t i d)) = spec_log (log_of d) i"
proof -
  have "events (snd (upsert_pure p fp title culprit level t d)) = events d" for p fp title culprit level t
    by (simp add: upsert_pure_def Let_def split: option.split)
  then show ?thesis
    by (auto simp: ingest_pure_def add_event_def log_of_def spec_log_def image_iff split: prod.split)
       (metis snd_conv)+
qed

lemma log_of_scan:
  "log_of (snd (scan (ingest_pure X t) batch d)) = foldl spec_log (log_of d) batch"
proof (induction batch arbitrary: d)
  case (Cons i batch)
  with log_of_ingest_pure [of X t i d] Cons.IH [of "snd (ingest_pure X t i d)"] show ?case
    by (simp add: case_prod_beta Let_def)
qed simp

lemma set_status_quiet:
  assumes "quiet w"
  shows "set_status X i st w =
    (case find (\<lambda>r. ir_id r = i) (issues (w_db w)) of
       None \<Rightarrow> (Err (NotFound (''issue '' @ show_int i)), w)
     | Some r \<Rightarrow>
         (Ok (issue_of_row X (w_now w) (r\<lparr>ir_status := as_db_str st\<rparr>)),
          w\<lparr>w_db := snd (update_issue_status i (as_db_str st) (w_db w))\<rparr>))"
proof (cases "find (\<lambda>r. ir_id r = i) (issues (w_db w))")
  case None
  then have "count_where (\<lambda>r. ir_id r = i) (issues (w_db w)) = 0"
    by (simp add: count_where_zero find_None_iff_key)
  then show ?thesis
    using assms None
    by (simp add: set_status_def update_issue_status_def bnd_def tx_quiet op_simps update_where_id)
next
  case (Some r)
  then have "count_where (\<lambda>r. ir_id r = i) (issues (w_db w)) \<noteq> 0"
    using find_SomeD [OF Some] by (auto simp: count_where_zero)
  then show ?thesis
    using assms Some
    by (simp add: set_status_def update_issue_status_def bnd_def tx_quiet op_simps
        issue_id_table.lookup_updated [simplified])
qed

text \<open>A triage change on every schedule.\<close>

lemma set_status_fault_or_ideal: "fault_or_ideal (set_status X i st)"
  unfolding set_status_def by (intro fault_intros)

lemma set_status_failed:
  "set_status X i st w = (Err e, w') \<Longrightarrow> w_db w' = w_db w"
  unfolding set_status_def
  by (auto simp: bnd_def utc_now_def ret_def dest: tx_all_or_nothing split: prod.splits outcome.splits)

section \<open>The schema's constraints\<close>

lemma schema_insert_issue [schema_intros]:
  "preserves schema_ok (exec (insert_issue_on_conflict_do_nothing p fp title culprit level t))"
  by (rule preserves_exec)
     (force simp: schema_defs insert_issue_on_conflict_do_nothing_def issue_key_def)

lemma schema_update_issue [schema_intros]:
  "preserves schema_ok (exec (update_issue p fp (bump_issue t)))"
  "preserves schema_ok (exec (update_issue p fp (reopen_issue t)))"
  by (rule preserves_exec; simp add: update_issue_def schema_ok_update_issues)+

lemma schema_update_issue_status [schema_intros]:
  "preserves schema_ok (exec (update_issue_status i st))"
  by (rule preserves_exec) (simp add: update_issue_status_def schema_ok_update_issues issue_key_def)

lemma schema_insert_event [schema_intros]:
  "preserves schema_ok (stmt (insert_event_on_conflict_do_nothing t i eid payload))"
  by (rule preserves_stmt)
     (force simp: schema_defs insert_event_on_conflict_do_nothing_def split: if_splits)

lemma schema_upsert [schema_intros]:
  "preserves schema_ok (upsert_issue X p fp title culprit level t)"
  "preserves schema_ok (upsert_batch_with_events X batch)"
  unfolding upsert_issue_def upsert_batch_with_events_def upsert_one_def upsert_row_def Let_def
  by (intro pres_intros schema_intros)+

lemma schema_issue_ops [schema_intros]:
  "preserves schema_ok (set_status X i st)"
  "preserves schema_ok (insert_event X i e)"
  "preserves schema_ok (load_issues X)"
  "preserves schema_ok (list_issues_by_project X p)"
  "preserves schema_ok project_summaries"
  unfolding set_status_def insert_event_def load_issues_def list_issues_by_project_def
    project_summaries_def
  by (intro pres_intros schema_intros)+

lemma schema_latest_event [schema_intros]: "preserves schema_ok (latest_event X i)"
  unfolding latest_event_def by (intro pres_intros)

section \<open>Properties\<close>

text \<open>C3: whatever statements fail, a batch of events either has exactly the effect the ledger
  specifies, with the specified verdict for each event in order, or is a fault that leaves the
  whole database as it was.\<close>

theorem upsert_batch_refines_ledger:
  "case upsert_batch_with_events X batch w of
     (Ok rs, w') \<Rightarrow>
       ledger_of (w_db w') = foldl (spec_upsert X) (ledger_of (w_db w)) batch \<and>
       map verdict_of rs = spec_verdicts X (ledger_of (w_db w)) batch
   | (Err e, w') \<Rightarrow> e = fault \<and> w_db w' = w_db w \<and> w_faults w \<noteq> []
   | (Panic, w') \<Rightarrow> False"
proof (cases rule: upsert_batch_cases [of X batch w])
  case (stored rs w')
  then show ?thesis using store_ledger.submit_Ok [OF stored(1)] by simp
next
  case (failed w')
  then show ?thesis by (simp add: quiet_def)
qed

text \<open>The event log of a batch. An event whose identifier is new is appended with its payload,
  one whose identifier is stored already (a retry of the SDK) is not, and no stored row changes.\<close>

theorem upsert_batch_event_log:
  "case upsert_batch_with_events X batch w of
     (Ok rs, w') \<Rightarrow> log_of (w_db w') = foldl spec_log (log_of (w_db w)) batch
   | (_, w') \<Rightarrow> log_of (w_db w') = log_of (w_db w)"
proof (cases rule: upsert_batch_cases [of X batch w])
  case (stored rs w')
  then show ?thesis
    using log_of_scan [of X "w_now w" batch "w_db w"] by (auto dest: arg_cong [of _ _ snd])
qed simp

text \<open>A retry counts again. Two deliveries of the same event leave one row in the event log, and
  add two to the event count of its group.\<close>

theorem retried_event_counts_twice:
  assumes "w_faults w = []" and "ledger_of (w_db w) (input_key i) = Some g"
  shows "\<exists>rs w' g'. upsert_batch_with_events X [i, i] w = (Ok rs, w') \<and>
    ledger_of (w_db w') (input_key i) = Some g' \<and> gr_count g' = gr_count g + 2 \<and>
    log_of (w_db w') = spec_log (log_of (w_db w)) i"
proof (cases rule: upsert_batch_cases [of X "[i, i]" w])
  case (stored rs w')
  have "ledger_of (w_db w') (input_key i) =
      Some (spec_group X (spec_upsert X (ledger_of (w_db w)) i) i)"
    using store_ledger.submit_Ok [OF stored(1)] by (simp add: spec_upsert_at)
  moreover have "gr_count (spec_group X (spec_upsert X (ledger_of (w_db w)) i) i) = gr_count g + 2"
    using assms(2) by (simp add: spec_group_def spec_upsert_at Let_def)
  moreover have "log_of (w_db w') = foldl spec_log (log_of (w_db w)) [i, i]"
    using log_of_scan [of X "w_now w" "[i, i]" "w_db w"] stored(3)
    by (auto dest: arg_cong [of _ _ snd])
  ultimately show ?thesis using stored(1) by (auto simp: spec_log_def)
qed (use assms in \<open>simp add: quiet_def\<close>)

definition demo_input :: "string \<Rightarrow> string \<Rightarrow> batch_upsert_input" where
  "demo_input fp eid =
     \<lparr>bi_project = ''web'', bi_fp = fp, bi_title = ''boom'', bi_culprit = None, bi_level = None,
      bi_now = start_time, bi_event_id = eid, bi_payload = ''{}''\<rparr>"

lemma demo_group:
  "ledger_of (w_db demo_db_world) (input_key (demo_input ''f1'' eid)) =
     Some (group_of_row (demo_issue 1 ''f1'' ''muted'' 3))"
  "ledger_of (w_db demo_db_world) (input_key (demo_input ''f2'' eid)) =
     Some (group_of_row (demo_issue 2 ''f2'' ''resolved'' 1))"
  by (simp_all add: demo_defs ledger_of_def input_key_def demo_input_def select_issue_def issue_key_def)

theorem retried_event_counts_twice_witness:
  "\<exists>rs w' g'. upsert_batch_with_events demo_externs
      [demo_input ''f1'' ''new'', demo_input ''f1'' ''new''] demo_db_world = (Ok rs, w') \<and>
    ledger_of (w_db w') (''web'', ''f1'') = Some g' \<and> gr_count g' = 5 \<and>
    log_of (w_db w') = log_of demo_db @ [(''new'', ''{}'')]"
  using retried_event_counts_twice [of demo_db_world "demo_input ''f1'' ''new''", OF _ demo_group(1),
      of demo_externs]
  by (simp add: group_of_row_def spec_log_def log_of_def demo_defs input_key_def demo_input_def)

text \<open>A group the user muted or ignored keeps that status through any batch, while each of its
  events still counts.\<close>

theorem silenced_group_stays_silenced:
  assumes "ledger_of (w_db w) k = Some g" and "gr_status g \<in> {Muted, Ignored}"
  shows "case upsert_batch_with_events X batch w of
     (Ok rs, w') \<Rightarrow>
       (\<exists>g'. ledger_of (w_db w') k = Some g' \<and> gr_status g' = gr_status g \<and>
          gr_count g' = gr_count g + length (filter (\<lambda>i. input_key i = k) batch))
   | (_, w') \<Rightarrow> ledger_of (w_db w') k = Some g"
proof (cases rule: upsert_batch_cases [of X batch w])
  case (stored rs w')
  then show ?thesis
    using store_ledger.submit_silenced [OF stored(1) assms] by simp
qed (use assms in simp)

theorem silenced_group_stays_silenced_witness:
  "case upsert_batch_with_events demo_externs [demo_input ''f1'' ''new''] demo_db_world of
     (Ok rs, w') \<Rightarrow>
       (\<exists>g'. ledger_of (w_db w') (''web'', ''f1'') = Some g' \<and> gr_status g' = Muted \<and> gr_count g' = 4)
   | (_, w') \<Rightarrow>
       ledger_of (w_db w') (''web'', ''f1'') = Some (group_of_row (demo_issue 1 ''f1'' ''muted'' 3))"
  using silenced_group_stays_silenced [OF demo_group(1) [of "''new''"], where X = demo_externs
      and batch = "[demo_input ''f1'' ''new'']"]
  by (simp add: group_of_row_def demo_issue_def input_key_def demo_input_def from_db_str_def
      split: prod.splits outcome.splits)

text \<open>Notifications fire once. In a batch that is stored, exactly one event of a new group is
  reported as its creation, exactly one event of a resolved group as its regression, and no
  event of any other group is reported as either.\<close>

theorem one_creation_and_regression_per_batch:
  "case upsert_batch_with_events X batch w of
     (Ok rs, w') \<Rightarrow>
       length (filter (\<lambda>(i, r). input_key i = k \<and> ur_created r) (zip batch rs)) =
         (if ledger_of (w_db w) k = None \<and> k \<in> set (map input_key batch) then 1 else 0) \<and>
       length (filter (\<lambda>(i, r). input_key i = k \<and> ur_regressed r) (zip batch rs)) =
         (if map_option gr_status (ledger_of (w_db w) k) = Some Resolved \<and>
             k \<in> set (map input_key batch) then 1 else 0)
   | (_, w') \<Rightarrow> w_db w' = w_db w"
proof (cases rule: upsert_batch_cases [of X batch w])
  case (stored rs w')
  then show ?thesis using store_ledger.submit_notifies_once [OF stored(1), of k] by simp
qed simp

text \<open>A triage change sets the status of exactly the addressed issue and returns that issue with
  its new status; for an unknown issue, or when a statement fails, the database is untouched.\<close>

theorem set_status_effect:
  "case set_status X i st w of
     (Ok iss, w') \<Rightarrow> is_id iss = i \<and> is_status iss = st \<and>
       w_db w' = (w_db w)\<lparr>issues :=
         update_where (\<lambda>r. ir_id r = i) (\<lambda>r. r\<lparr>ir_status := as_db_str st\<rparr>) (issues (w_db w))\<rparr>
   | (Err e, w') \<Rightarrow> w_db w' = w_db w \<and>
       (if find (\<lambda>r. ir_id r = i) (issues (w_db w)) = None
        then e \<in> {NotFound (''issue '' @ show_int i), fault} else e = fault \<and> w_faults w \<noteq> [])
   | (Panic, w') \<Rightarrow> False"
proof (cases "find (\<lambda>r. ir_id r = i) (issues (w_db w))")
  case None
  then have "set_status X i st (calm w) = (Err (NotFound (''issue '' @ show_int i)), calm w)"
    by (simp add: set_status_quiet)
  from set_status_fault_or_ideal this show ?thesis
    by (rule fault_cases) (auto simp: None dest: set_status_failed)
next
  case (Some r)
  then have "set_status X i st (calm w) =
      (Ok (issue_of_row X (w_now w) (r\<lparr>ir_status := as_db_str st\<rparr>)),
       calm w\<lparr>w_db := snd (update_issue_status i (as_db_str st) (w_db w))\<rparr>)"
    by (simp add: set_status_quiet)
  from set_status_fault_or_ideal this show ?thesis
    by (rule fault_cases)
       (use find_SomeD [OF Some] in \<open>auto simp: Some issue_of_row_def update_issue_status_def quiet_def
          dest: set_status_failed arg_cong [of _ _ w_db]\<close>)
qed

end
