(* ===== verification/Store_Projects.thy ===== *)
theory Store_Projects
  imports Store_Issues
begin

text \<open>
  Projects in \<open>crates/errexd/src/store.rs\<close>: creation, lookup by name and by ingest token, token
  rotation, the webhook URL and its health columns, the delete preview and the cascading delete,
  the rename that fans out to the issues, and the 24-hour activity rollup.

  A method reads and writes through the statements of \<open>Db\<close>; a random token is an argument.
\<close>

section \<open>Rows as values\<close>

record project =
  pj_name :: string
  pj_token :: string
  pj_created_at :: time
  pj_last_used_at :: "time option"
  pj_webhook_url :: "string option"
  pj_last_webhook_status :: "int option"
  pj_last_webhook_at :: "time option"

record delete_summary =
  ds_events_deleted :: nat
  ds_issues_deleted :: nat

record activity_summary =
  ac_events_24h :: nat
  ac_unique_issues_24h :: nat
  ac_last_event_at :: "time option"
  ac_hourly_buckets :: "nat list"

text \<open>The webhook status column is clamped into an \<open>i16\<close>.\<close>

definition clamp_i16 :: "int \<Rightarrow> int" where
  "clamp_i16 n = min (max n 0) 32767"

definition project_of_row :: "externs \<Rightarrow> time \<Rightarrow> project_row \<Rightarrow> project" where
  "project_of_row X now r =
     \<lparr>pj_name = pr_name r, pj_token = pr_token r, pj_created_at = parse_or_now X now (pr_created_at r),
      pj_last_used_at = map_option (parse_or_now X now) (pr_last_used_at r),
      pj_webhook_url = pr_webhook_url r,
      pj_last_webhook_status = map_option clamp_i16 (pr_last_webhook_status r),
      pj_last_webhook_at = map_option (parse_or_now X now) (pr_last_webhook_at r)\<rparr>"

text \<open>\<open>generate_token\<close> prints the sixteen random bytes of a UUID.\<close>

definition generate_token :: "bytes \<Rightarrow> string" where
  "generate_token u = uuid_simple u"

section \<open>Statements\<close>

definition insert_project :: "project_row \<Rightarrow> db \<Rightarrow> sqlx_error + unit \<times> db" where
  "insert_project p d =
     (if \<exists>q \<in> set (projects d). pr_name q = pr_name p then Inl UniqueViolation
      else Inr ((), d\<lparr>projects := projects d @ [p]\<rparr>))"

definition update_project :: "string \<Rightarrow> (project_row \<Rightarrow> project_row) \<Rightarrow> db \<Rightarrow> nat \<times> db" where
  "update_project name f d =
     (count_where (\<lambda>p. pr_name p = name) (projects d),
      d\<lparr>projects := update_where (\<lambda>p. pr_name p = name) f (projects d)\<rparr>)"

definition select_project :: "string \<Rightarrow> db \<Rightarrow> project_row option" where
  "select_project name d = find (\<lambda>p. pr_name p = name) (projects d)"

definition delete_project_row :: "string \<Rightarrow> db \<Rightarrow> nat \<times> db" where
  "delete_project_row name d =
     (count_where (\<lambda>p. pr_name p = name) (projects d),
      d\<lparr>projects := delete_where (\<lambda>p. pr_name p = name) (projects d)\<rparr>)"

definition rename_project_row :: "string \<Rightarrow> string \<Rightarrow> db \<Rightarrow> sqlx_error + unit \<times> db" where
  "rename_project_row old new d =
     (if (\<exists>p \<in> set (projects d). pr_name p = old) \<and> (\<exists>p \<in> set (projects d). pr_name p = new)
      then Inl UniqueViolation
      else Inr ((), d\<lparr>projects :=
             update_where (\<lambda>p. pr_name p = old) (\<lambda>p. p\<lparr>pr_name := new\<rparr>) (projects d)\<rparr>))"

definition rename_project_issues :: "string \<Rightarrow> string \<Rightarrow> db \<Rightarrow> sqlx_error + unit \<times> db" where
  "rename_project_issues old new d =
     (if \<exists>r \<in> set (issues d). ir_project r = old \<and>
           (\<exists>q \<in> set (issues d). issue_key q = (new, ir_fingerprint r))
      then Inl UniqueViolation
      else Inr ((), d\<lparr>issues :=
             update_where (\<lambda>r. ir_project r = old) (\<lambda>r. r\<lparr>ir_project := new\<rparr>) (issues d)\<rparr>))"

text \<open>\<open>events e JOIN issues i ON e.issue_id = i.id WHERE i.project = ?\<close>.\<close>

definition project_events :: "string \<Rightarrow> db \<Rightarrow> event_row list" where
  "project_events name d =
     filter (\<lambda>e. \<exists>r \<in> set (issues d). ir_id r = er_issue_id e \<and> ir_project r = name) (events d)"

section \<open>Methods\<close>

definition create_project :: "externs \<Rightarrow> bytes \<Rightarrow> string \<Rightarrow> ('z, project) op" where
  "create_project X uuid name =
     (let token = generate_token uuid in
      bnd utc_now (\<lambda>t.
      let now = x_rfc3339 X t in
      bnd (stmt (insert_project
             \<lparr>pr_name = name, pr_token = token, pr_created_at = now, pr_last_used_at = None,
              pr_webhook_url = None, pr_last_webhook_status = None, pr_last_webhook_at = None\<rparr>))
        (\<lambda>_.
      ret \<lparr>pj_name = name, pj_token = token, pj_created_at = parse_or_now X t now,
           pj_last_used_at = None, pj_webhook_url = None, pj_last_webhook_status = None,
           pj_last_webhook_at = None\<rparr>)))"

definition no_such_project :: "string \<Rightarrow> string \<Rightarrow> daemon_error" where
  "no_such_project name note = NotFound (''project '' @ name @ note)"

definition set_project_webhook :: "string \<Rightarrow> string option \<Rightarrow> ('z, unit) op" where
  "set_project_webhook name url =
     bnd (exec (update_project name (\<lambda>p. p\<lparr>pr_webhook_url := url\<rparr>))) (\<lambda>updated.
     if updated = 0 then err (no_such_project name '''') else ret ())"

definition project_by_name :: "externs \<Rightarrow> string \<Rightarrow> ('z, project option) op" where
  "project_by_name X name =
     bnd (query (select_project name)) (\<lambda>row.
     bnd utc_now (\<lambda>t. ret (map_option (project_of_row X t) row)))"

definition project_by_token :: "externs \<Rightarrow> string \<Rightarrow> ('z, project option) op" where
  "project_by_token X token =
     bnd (query (\<lambda>d. find (\<lambda>p. pr_token p = token) (projects d))) (\<lambda>row.
     bnd utc_now (\<lambda>t. ret (map_option (project_of_row X t) row)))"

definition list_admin_projects :: "externs \<Rightarrow> ('z, project list) op" where
  "list_admin_projects X =
     bnd (query (\<lambda>d. sort_key pr_name (projects d))) (\<lambda>rows.
     bnd utc_now (\<lambda>t. ret (map (project_of_row X t) rows)))"

definition rotate_token :: "externs \<Rightarrow> bytes \<Rightarrow> string \<Rightarrow> ('z, project) op" where
  "rotate_token X uuid name =
     (let token = generate_token uuid in
      bnd (exec (update_project name (\<lambda>p. p\<lparr>pr_token := token\<rparr>))) (\<lambda>updated.
      if updated = 0 then err (no_such_project name '''')
      else bnd (project_by_name X name) (\<lambda>p.
           case p of Some p \<Rightarrow> ret p | None \<Rightarrow> err (no_such_project name '' (post-rotate)''))))"

definition touch_project_used :: "externs \<Rightarrow> string \<Rightarrow> ('z, unit) op" where
  "touch_project_used X name =
     bnd utc_now (\<lambda>t.
     best_effort (exec (update_project name (\<lambda>p. p\<lparr>pr_last_used_at := Some (x_rfc3339 X t)\<rparr>))))"

definition record_webhook_attempt :: "externs \<Rightarrow> string \<Rightarrow> u16 \<Rightarrow> ('z, unit) op" where
  "record_webhook_attempt X name status =
     bnd utc_now (\<lambda>t.
     best_effort (exec (update_project name (\<lambda>p. p\<lparr>pr_last_webhook_status := Some (uint status),
       pr_last_webhook_at := Some (x_rfc3339 X t)\<rparr>))))"

definition count_project_rows :: "string \<Rightarrow> ('z, nat \<times> nat) op" where
  "count_project_rows name =
     bnd (query (\<lambda>d. count_where (\<lambda>r. ir_project r = name) (issues d))) (\<lambda>issues_deleted.
     bnd (query (\<lambda>d. length (project_events name d))) (\<lambda>events_deleted.
     ret (issues_deleted, events_deleted)))"

definition delete_preview :: "externs \<Rightarrow> string \<Rightarrow> ('z, delete_summary) op" where
  "delete_preview X name =
     bnd (project_by_name X name) (\<lambda>p.
     if p = None then err (no_such_project name '''')
     else bnd (count_project_rows name) (\<lambda>(issues_deleted, events_deleted).
          ret \<lparr>ds_events_deleted = events_deleted, ds_issues_deleted = issues_deleted\<rparr>))"

definition delete_project :: "externs \<Rightarrow> string \<Rightarrow> ('z, delete_summary) op" where
  "delete_project X name =
     bnd (project_by_name X name) (\<lambda>p.
     if p = None then err (no_such_project name '''')
     else bnd (count_project_rows name) (\<lambda>(issues_deleted, events_deleted).
          bnd (tx (bnd (exec (delete_issues (\<lambda>r. ir_project r = name))) (\<lambda>_.
                   bnd (exec (delete_project_row name)) (\<lambda>_. ret ())))) (\<lambda>_.
          ret \<lparr>ds_events_deleted = events_deleted, ds_issues_deleted = issues_deleted\<rparr>)))"

definition rename_rows :: "string \<Rightarrow> string \<Rightarrow> ('z, unit) op" where
  "rename_rows old new =
     tx (bnd (stmt (rename_project_row old new)) (\<lambda>_. stmt (rename_project_issues old new)))"

definition rename_project :: "externs \<Rightarrow> string \<Rightarrow> string \<Rightarrow> ('z, project) op" where
  "rename_project X old new =
     (if old = new then
        bnd (project_by_name X old) (\<lambda>p.
        case p of Some p \<Rightarrow> ret p | None \<Rightarrow> err (no_such_project old ''''))
      else
        bnd (project_by_name X old) (\<lambda>p.
        if p = None then err (no_such_project old '''')
        else bnd (rename_rows old new) (\<lambda>_.
             bnd (project_by_name X new) (\<lambda>p.
             case p of Some p \<Rightarrow> ret p | None \<Rightarrow> err (no_such_project new '' (post-rename)'')))))"

text \<open>
  The activity rollup. SQLite's \<open>MAX\<close> over no rows is a null, which the driver hands to a
  \<open>String\<close> as the empty text; the code maps that to no time.
\<close>

definition max_text :: "string list \<Rightarrow> string" where
  "max_text ts = foldl max '''' ts"

definition hours_ago :: "time \<Rightarrow> time \<Rightarrow> int" where
  "hours_ago now t = trunc_div (now - t) 3600000000000"

definition bump_bucket :: "externs \<Rightarrow> time \<Rightarrow> nat list \<Rightarrow> string \<Rightarrow> nat list" where
  "bump_bucket X now buckets ts =
     (case x_parse_rfc3339 X ts of
        None \<Rightarrow> buckets
      | Some dt \<Rightarrow>
          (let h = hours_ago now dt
           in if 0 \<le> h \<and> h < 24
              then buckets[nat (23 - h) := buckets ! nat (23 - h) + 1]
              else buckets))"

definition activity_stats :: "externs \<Rightarrow> string \<Rightarrow> time \<Rightarrow> ('z, activity_summary) op" where
  "activity_stats X project now =
     (let cutoff = now - 24 * 3600000000000;
          cutoff_str = x_rfc3339 X cutoff;
          recent = (\<lambda>d. filter (\<lambda>e. cutoff_str \<le> er_received_at e) (project_events project d)) in
      bnd (query (\<lambda>d. length (recent d))) (\<lambda>events_24h.
      bnd (query (\<lambda>d. length (remdups (map er_issue_id (recent d))))) (\<lambda>unique_issues_24h.
      bnd (query (\<lambda>d. max_text (map er_received_at (project_events project d)))) (\<lambda>last_event_at.
      bnd (query (\<lambda>d. map er_received_at (recent d))) (\<lambda>rows.
      bnd utc_now (\<lambda>t.
      ret \<lparr>ac_events_24h = events_24h, ac_unique_issues_24h = unique_issues_24h,
           ac_last_event_at =
             (if last_event_at = '''' then None else Some (parse_or_now X t last_event_at)),
           ac_hourly_buckets = foldl (bump_bucket X now) (replicate 24 0) rows\<rparr>))))))"

section \<open>The schema's constraints\<close>

lemma schema_insert_project [schema_intros]: "preserves schema_ok (stmt (insert_project p))"
  by (rule preserves_stmt) (force simp: schema_defs insert_project_def split: if_splits)

lemma schema_update_project:
  "(\<And>p. pr_name (f p) = pr_name p) \<Longrightarrow> preserves schema_ok (exec (update_project name f))"
  by (rule preserves_exec)
     (simp add: update_project_def schema_defs map_update_where)

lemma schema_update_project_columns [schema_intros]:
  "preserves schema_ok (exec (update_project name (\<lambda>p. p\<lparr>pr_webhook_url := url\<rparr>)))"
  "preserves schema_ok (exec (update_project name (\<lambda>p. p\<lparr>pr_token := token\<rparr>)))"
  "preserves schema_ok (exec (update_project name (\<lambda>p. p\<lparr>pr_last_used_at := u\<rparr>)))"
  "preserves schema_ok (exec (update_project name
     (\<lambda>p. p\<lparr>pr_last_webhook_status := s, pr_last_webhook_at := a\<rparr>)))"
  by (simp_all add: schema_update_project)

lemma schema_delete_project_row [schema_intros]:
  "preserves schema_ok (exec (delete_project_row name))"
  by (rule preserves_exec)
     (simp add: delete_project_row_def schema_defs distinct_delete_where)

lemma schema_delete_issues [schema_intros]: "preserves schema_ok (exec (delete_issues P))"
  by (rule preserves_exec) (rule schema_ok_delete_issues)

lemma distinct_map_rename:
  assumes "distinct (map k rs)" and "\<And>r r'. r \<in> set rs \<Longrightarrow> r' \<in> set rs \<Longrightarrow> P r \<Longrightarrow> k r' \<noteq> k (f r)"
    and "\<And>r r'. r \<in> set rs \<Longrightarrow> r' \<in> set rs \<Longrightarrow> P r \<Longrightarrow> P r' \<Longrightarrow> k (f r) = k (f r') \<Longrightarrow> k r = k r'"
  shows "distinct (map k (update_where P f rs))"
  using assms
proof (induction rs)
  case (Cons r rs)
  have "distinct (map k (update_where P f rs))"
    by (rule Cons.IH) (use Cons.prems in auto)
  moreover have "k (if P r then f r else r) \<notin> k ` set (update_where P f rs)"
  proof
    assume "k (if P r then f r else r) \<in> k ` set (update_where P f rs)"
    then obtain r' where r': "r' \<in> set rs"
      "k (if P r then f r else r) = k (if P r' then f r' else r')"
      by (auto simp: update_where_def)
    have "k r \<noteq> k r'" using Cons.prems(1) r'(1) by auto
    with r' Cons.prems(2) [of r r'] Cons.prems(2) [of r' r] Cons.prems(3) [of r r'] show False
      by (auto split: if_splits)
  qed
  ultimately show ?case by simp
qed simp

lemma schema_rename_project_row [schema_intros]:
  "preserves schema_ok (stmt (rename_project_row old new))"
proof (rule preserves_stmt)
  fix d x d'
  assume ok: "schema_ok d" and "rename_project_row old new d = Inr (x, d')"
  then have d': "d' = d\<lparr>projects :=
      update_where (\<lambda>p. pr_name p = old) (\<lambda>p. p\<lparr>pr_name := new\<rparr>) (projects d)\<rparr>"
    and free: "(\<exists>p \<in> set (projects d). pr_name p = old) \<longrightarrow> (\<forall>p \<in> set (projects d). pr_name p \<noteq> new)"
    by (auto simp: rename_project_row_def split: if_splits)
  have "distinct (map pr_name
      (update_where (\<lambda>p. pr_name p = old) (\<lambda>p. p\<lparr>pr_name := new\<rparr>) (projects d)))"
    by (rule distinct_map_rename) (use ok free in \<open>auto simp: schema_defs\<close>)
  then show "schema_ok d'" using ok d' by (simp add: schema_ok_projects)
qed

lemma schema_rename_project_issues [schema_intros]:
  "preserves schema_ok (stmt (rename_project_issues old new))"
proof (rule preserves_stmt)
  fix d x d'
  assume ok: "schema_ok d" and "rename_project_issues old new d = Inr (x, d')"
  let ?rs = "update_where (\<lambda>r. ir_project r = old) (\<lambda>r. r\<lparr>ir_project := new\<rparr>) (issues d)"
  from \<open>rename_project_issues old new d = Inr (x, d')\<close>
  have d': "d' = d\<lparr>issues := ?rs\<rparr>"
    and free: "\<And>r q. r \<in> set (issues d) \<Longrightarrow> ir_project r = old \<Longrightarrow> q \<in> set (issues d) \<Longrightarrow>
      issue_key q \<noteq> (new, ir_fingerprint r)"
    by (auto simp: rename_project_issues_def split: if_splits)
  have "distinct (map issue_key ?rs)"
    by (rule distinct_map_rename) (use ok free in \<open>auto simp: schema_defs issue_key_def\<close>)
  moreover have "ir_id ` set ?rs = ir_id ` set (issues d)"
    by (rule image_update_where) simp
  moreover have "\<forall>r \<in> set ?rs. ir_id r \<le> issue_seq d"
    using ok by (auto simp: schema_defs update_where_def)
  ultimately show "schema_ok d'" using ok d' by (simp add: schema_defs map_update_where)
qed

lemma schema_project_ops [schema_intros]:
  "preserves schema_ok (create_project X uuid name)"
  "preserves schema_ok (set_project_webhook name url)"
  "preserves schema_ok (project_by_name X name)"
  "preserves schema_ok (project_by_token X token)"
  "preserves schema_ok (list_admin_projects X)"
  "preserves schema_ok (touch_project_used X name)"
  "preserves schema_ok (record_webhook_attempt X name status)"
  "preserves schema_ok (count_project_rows name)"
  "preserves schema_ok (activity_stats X name now)"
  unfolding create_project_def set_project_webhook_def project_by_name_def project_by_token_def
    list_admin_projects_def touch_project_used_def record_webhook_attempt_def
    count_project_rows_def activity_stats_def Let_def
  by (intro pres_intros schema_intros)+

lemma schema_project_compound_ops [schema_intros]:
  "preserves schema_ok (rotate_token X uuid name)"
  "preserves schema_ok (delete_preview X name)"
  "preserves schema_ok (delete_project X name)"
  "preserves schema_ok (rename_project X old new)"
  unfolding rotate_token_def delete_preview_def delete_project_def rename_project_def
    rename_rows_def Let_def
  by (intro pres_intros schema_intros)+

section \<open>Behaviour without faults\<close>

definition removed_project :: "string \<Rightarrow> db \<Rightarrow> db" where
  "removed_project name d =
     d\<lparr>issues := delete_where (\<lambda>r. ir_project r = name) (issues d),
       events := delete_where (\<lambda>e. e \<in> set (project_events name d)) (events d),
       projects := delete_where (\<lambda>p. pr_name p = name) (projects d)\<rparr>"

definition project_size :: "string \<Rightarrow> db \<Rightarrow> delete_summary" where
  "project_size name d =
     \<lparr>ds_events_deleted = length (project_events name d),
      ds_issues_deleted = count_where (\<lambda>r. ir_project r = name) (issues d)\<rparr>"

lemma project_by_name_quiet [op_simps]:
  "quiet w \<Longrightarrow> project_by_name X name w =
     (Ok (map_option (project_of_row X (w_now w)) (select_project name (w_db w))), w)"
  by (simp add: project_by_name_def op_simps)

lemma project_by_token_quiet [op_simps]:
  "quiet w \<Longrightarrow> project_by_token X token w =
     (Ok (map_option (project_of_row X (w_now w)) (find (\<lambda>p. pr_token p = token) (projects (w_db w)))), w)"
  by (simp add: project_by_token_def op_simps)

lemma bnd_project_by_name_quiet [op_simps]:
  "quiet w \<Longrightarrow> bnd (project_by_name X name) f w =
     f (map_option (project_of_row X (w_now w)) (select_project name (w_db w))) w"
  by (simp add: bnd_def project_by_name_quiet)

lemma bnd_count_project_rows_quiet [op_simps]:
  "quiet w \<Longrightarrow> bnd (count_project_rows name) f w =
     f (count_where (\<lambda>r. ir_project r = name) (issues (w_db w)), length (project_events name (w_db w))) w"
  by (simp add: bnd_def count_project_rows_def op_simps)

lemma delete_preview_quiet:
  "quiet w \<Longrightarrow> delete_preview X name w =
     (if select_project name (w_db w) = None then (Err (no_such_project name []), w)
      else (Ok (project_size name (w_db w)), w))"
  by (simp add: delete_preview_def op_simps project_size_def)

lemma cascade_of_project:
  "delete_where (\<lambda>e. \<exists>r \<in> set (issues d). ir_project r = name \<and> ir_id r = er_issue_id e) (events d) =
   delete_where (\<lambda>e. e \<in> set (project_events name d)) (events d)"
  unfolding delete_where_def by (rule filter_cong) (auto simp: project_events_def)

lemma delete_project_quiet:
  assumes "quiet w"
  shows "delete_project X name w =
     (if select_project name (w_db w) = None then (Err (no_such_project name []), w)
      else (Ok (project_size name (w_db w)), w\<lparr>w_db := removed_project name (w_db w)\<rparr>))"
  using assms
  by (simp add: delete_project_def op_simps project_size_def)
     (simp add: bnd_def tx_quiet op_simps delete_issues_def delete_project_row_def
        removed_project_def cascade_of_project)

lemma fault_or_ideal_projects [fault_intros]:
  "fault_or_ideal (project_by_name X name)"
  "fault_or_ideal (project_by_token X token)"
  "fault_or_ideal (count_project_rows name)"
  unfolding project_by_name_def project_by_token_def count_project_rows_def
  by (intro fault_intros)+

lemma fault_or_ideal_project_ops [fault_intros]:
  "fault_or_ideal (delete_preview X name)"
  "fault_or_ideal (delete_project X name)"
  "fault_or_ideal (rename_project X old new)"
  "fault_or_ideal (rotate_token X uuid name)"
  unfolding delete_preview_def delete_project_def rename_project_def rename_rows_def
    rotate_token_def Let_def
  by (intro fault_intros)+

lemma readonly_projects [atomic_intros]:
  "readonly (project_by_name X name)" "readonly (project_by_token X token)"
  "readonly (count_project_rows name)" "readonly (activity_stats X name now)"
  unfolding project_by_name_def project_by_token_def count_project_rows_def activity_stats_def Let_def
  by (intro atomic_intros)+

lemma readonly_delete_preview [atomic_intros]: "readonly (delete_preview X name)"
  unfolding delete_preview_def by (intro atomic_intros)

lemma atomic_delete_project [atomic_intros]: "atomic (delete_project X name)"
  unfolding delete_project_def
  by (intro atomic_intros atomic_then_compute [OF atomic_tx] atomic_readonly)

lemma length_project_events:
  "length (project_events name d) +
   length (delete_where (\<lambda>e. e \<in> set (project_events name d)) (events d)) = length (events d)"
proof -
  have "length (project_events name d) =
      count_where (\<lambda>e. e \<in> set (project_events name d)) (events d)"
    unfolding count_where_def project_events_def by (intro arg_cong [where f = length] filter_cong) auto
  then show ?thesis using length_delete_where [of _ "events d"] by metis
qed

lemma project_removed: "select_project name (removed_project name d) = None"
  by (auto simp: select_project_def removed_project_def find_None_iff_key)

section \<open>Properties\<close>

text \<open>Deleting a project. A successful delete removes the project, its issues and exactly the
  events of those issues; the returned counts are the numbers of rows that are gone. Whatever
  statement fails, an unsuccessful delete changes nothing.\<close>

theorem delete_project_effect:
  "case delete_project X name w of
     (Ok s, w') \<Rightarrow>
       w_db w' = removed_project name (w_db w) \<and>
       ds_issues_deleted s + length (issues (w_db w')) = length (issues (w_db w)) \<and>
       ds_events_deleted s + length (events (w_db w')) = length (events (w_db w))
   | (Err e, w') \<Rightarrow> w_db w' = w_db w
   | (Panic, w') \<Rightarrow> False"
proof -
  have size: "ds_issues_deleted (project_size name (w_db w)) +
        length (issues (removed_project name (w_db w))) = length (issues (w_db w))"
      "ds_events_deleted (project_size name (w_db w)) +
        length (events (removed_project name (w_db w))) = length (events (w_db w))"
    by (simp_all add: project_size_def removed_project_def length_delete_where length_project_events)
  show ?thesis
  proof (cases "select_project name (w_db w)")
    case None
    then have "delete_project X name (calm w) = (Err (no_such_project name []), calm w)"
      by (simp add: delete_project_quiet)
    with fault_or_ideal_project_ops(2) show ?thesis
      by (rule fault_cases) (auto dest: atomicD [OF atomic_delete_project])
  next
    case (Some p)
    then have "delete_project X name (calm w) =
        (Ok (project_size name (w_db w)), (calm w)\<lparr>w_db := removed_project name (w_db w)\<rparr>)"
      by (simp add: delete_project_quiet)
    with fault_or_ideal_project_ops(2) show ?thesis
      by (rule fault_cases)
         (use size in \<open>auto dest: arg_cong [of _ _ w_db] atomicD [OF atomic_delete_project]\<close>)
  qed
qed

text \<open>C33: the confirmation dialog tells the truth. A preview and the delete that follows it report
  the same counts, after the delete the project is unknown, and the only errors are that of an
  unknown project and an injected fault.\<close>

theorem delete_matches_preview:
  "case bnd (delete_preview X name) (\<lambda>s.
        bnd (delete_project X name) (\<lambda>s'.
        bnd (project_by_name X name) (\<lambda>p. ret (s, s', p)))) w of
     (Ok (s, s', p), w') \<Rightarrow> s = s' \<and> p = None
   | (Err e, w') \<Rightarrow> e \<in> {no_such_project name [], fault}
   | (Panic, w') \<Rightarrow> False"
proof -
  let ?m = "bnd (delete_preview X name) (\<lambda>s. bnd (delete_project X name) (\<lambda>s'.
        bnd (project_by_name X name) (\<lambda>p. ret (s, s', p))))"
  have calm: "?m (calm w) =
     (if select_project name (w_db w) = None then (Err (no_such_project name []), calm w)
      else (Ok (project_size name (w_db w), project_size name (w_db w), None),
            (calm w)\<lparr>w_db := removed_project name (w_db w)\<rparr>))"
    by (simp add: bnd_def delete_preview_quiet delete_project_quiet project_by_name_quiet
        project_removed ret_def)
  have m: "fault_or_ideal ?m" by (intro fault_intros)
  show ?thesis
  proof (cases "select_project name (w_db w) = None")
    case True
    with calm have "?m (calm w) = (Err (no_such_project name []), calm w)" by simp
    with m show ?thesis by (rule fault_cases) simp_all
  next
    case False
    with calm have "?m (calm w) =
      (Ok (project_size name (w_db w), project_size name (w_db w), None),
            (calm w)\<lparr>w_db := removed_project name (w_db w)\<rparr>)" by simp
    with m show ?thesis by (rule fault_cases) simp_all
  qed
qed

text \<open>C22: renaming a project. The project keeps its row under the new name and every issue follows
  it, so its ledger is found under the new name; a name that is taken is refused with a
  uniqueness violation, and no error leaves the rename half done.\<close>

definition renamed_project :: "string \<Rightarrow> string \<Rightarrow> db \<Rightarrow> db" where
  "renamed_project old new d =
     d\<lparr>projects := update_where (\<lambda>p. pr_name p = old) (\<lambda>p. p\<lparr>pr_name := new\<rparr>) (projects d),
       issues := update_where (\<lambda>r. ir_project r = old) (\<lambda>r. r\<lparr>ir_project := new\<rparr>) (issues d)\<rparr>"

lemma rename_rows_quiet:
  assumes "quiet w"
  shows "rename_rows old new w =
    (if (\<exists>p \<in> set (projects (w_db w)). pr_name p = old) \<and> (\<exists>p \<in> set (projects (w_db w)). pr_name p = new) \<or>
        (\<exists>r \<in> set (issues (w_db w)). ir_project r = old \<and>
           (\<exists>q \<in> set (issues (w_db w)). issue_key q = (new, ir_fingerprint r)))
     then (Err (Sqlx UniqueViolation), w)
     else (Ok (), w\<lparr>w_db := renamed_project old new (w_db w)\<rparr>))"
  using assms
  by (auto simp: rename_rows_def tx_quiet bnd_def stmt_quiet run_stmt_def op_simps
      rename_project_row_def rename_project_issues_def renamed_project_def)

lemma rename_rows_Ok:
  assumes "rename_rows old new w = (Ok u, w')"
  shows "w_db w' = renamed_project old new (w_db w)"
proof -
  have "fault_or_ideal (rename_rows old new)" unfolding rename_rows_def by (intro fault_intros)
  from fault_or_ideal_Ok [OF this assms] show ?thesis
    by (auto simp: rename_rows_quiet dest: arg_cong [of _ _ w_db] split: if_splits)
qed

lemma atomic_rename_rows [atomic_intros]: "atomic (rename_rows old new)"
  unfolding rename_rows_def by (intro atomic_intros)

lemma rename_project_outcomes:
  assumes "rename_project X old new w = (r, w')"
  shows "w_db w' \<in> {w_db w, renamed_project old new (w_db w)}"
  using assms
  by (auto simp: rename_project_def bnd_def ret_def err_def
      split: prod.splits outcome.splits if_splits option.splits
      dest!: readonlyD [OF readonly_projects(1)] rename_rows_Ok
        atomicD [OF atomic_rename_rows])

lemma find_renamed:
  "\<forall>p \<in> set ps. pr_name p \<noteq> new \<Longrightarrow>
   find (\<lambda>p. pr_name p = new) (update_where (\<lambda>p. pr_name p = old) (\<lambda>p. p\<lparr>pr_name := new\<rparr>) ps) =
     map_option (\<lambda>p. p\<lparr>pr_name := new\<rparr>) (find (\<lambda>p. pr_name p = old) ps)"
  by (induction ps) auto

lemma rename_project_quiet:
  assumes "quiet w" and "old \<noteq> new"
  shows "rename_project X old new w =
    (if select_project old (w_db w) = None then (Err (no_such_project old []), w)
     else if (\<exists>p \<in> set (projects (w_db w)). pr_name p = new) \<or>
        (\<exists>r \<in> set (issues (w_db w)). ir_project r = old \<and>
           (\<exists>q \<in> set (issues (w_db w)). issue_key q = (new, ir_fingerprint r)))
     then (Err (Sqlx UniqueViolation), w)
     else (Ok (project_of_row X (w_now w) (the (select_project old (w_db w))\<lparr>pr_name := new\<rparr>)),
           w\<lparr>w_db := renamed_project old new (w_db w)\<rparr>))"
proof (cases "select_project old (w_db w)")
  case None
  then show ?thesis using assms by (simp add: rename_project_def op_simps)
next
  case (Some p)
  then have old: "\<exists>p \<in> set (projects (w_db w)). pr_name p = old"
    by (auto simp: select_project_def dest: find_SomeD)
  have moved: "select_project new (renamed_project old new (w_db w)) = Some (p\<lparr>pr_name := new\<rparr>)"
    if "\<not> (\<exists>p \<in> set (projects (w_db w)). pr_name p = new)"
    using find_renamed [of "projects (w_db w)" new old] that Some
    by (simp add: select_project_def renamed_project_def)
  show ?thesis
    using assms Some old moved
    by (auto simp: rename_project_def op_simps bnd_def rename_rows_quiet project_by_name_quiet)
qed

theorem rename_project_effect:
  assumes "old \<noteq> new"
  shows "case rename_project X old new w of
     (Ok p, w') \<Rightarrow>
       pj_name p = new \<and> w_db w' = renamed_project old new (w_db w) \<and>
       select_project new (w_db w) = None
   | (Err e, w') \<Rightarrow>
       (if e = fault then w_db w' \<in> {w_db w, renamed_project old new (w_db w)}
        else w_db w' = w_db w \<and> e \<in> {no_such_project old [], Sqlx UniqueViolation})
   | (Panic, w') \<Rightarrow> False"
proof -
  have new: "select_project new (w_db w) = None \<longleftrightarrow> \<not> (\<exists>p \<in> set (projects (w_db w)). pr_name p = new)"
    by (simp add: select_project_def find_None_iff_key)
  obtain r0 w0 where run: "rename_project X old new (calm w) = (r0, w0)" by force
  from fault_or_ideal_project_ops(3) run show ?thesis
  proof (rule fault_cases)
    fix w'
    assume w': "rename_project X old new w = (r0, w')" and "calm w' = w0"
    then have "w_db w' = w_db w0" by auto
    then show ?thesis
      using run w' assms
      by (auto simp: rename_project_quiet project_of_row_def new fault_def no_such_project_def
          split: if_splits outcome.splits)
  next
    fix w'
    assume "rename_project X old new w = (Err fault, w')"
    with rename_project_outcomes [OF this] show ?thesis by simp
  qed
qed

theorem rename_project_effect_witness:
  "case rename_project demo_externs ''web'' ''shop'' demo_db_world of
     (Ok p, w') \<Rightarrow>
       pj_name p = ''shop'' \<and> w_db w' = renamed_project ''web'' ''shop'' demo_db
   | (Err e, w') \<Rightarrow> e = fault \<or> w_db w' = demo_db
   | (Panic, w') \<Rightarrow> False"
  using rename_project_effect [where X = demo_externs and w = demo_db_world, of "''web''" "''shop''"]
  by (auto simp: demo_db_world_def split: prod.splits outcome.splits if_splits)

text \<open>Rotating a token can lose it. When the statement that reads the project back fails, the
  caller is told of an error although the old token no longer works.\<close>

theorem rotate_token_reports_failure_after_rotating:
  assumes "w_faults w = [False, True]" and "select_project name (w_db w) = Some p"
  shows "\<exists>w'. rotate_token X uuid name w = (Err fault, w') \<and>
    select_project name (w_db w') = Some (p\<lparr>pr_token := generate_token uuid\<rparr>)"
proof -
  let ?d = "(w_db w)\<lparr>projects := update_where (\<lambda>p. pr_name p = name)
      (\<lambda>p. p\<lparr>pr_token := generate_token uuid\<rparr>) (projects (w_db w))\<rparr>"
  have "count_where (\<lambda>p. pr_name p = name) (projects (w_db w)) \<noteq> 0"
    using assms(2) by (auto simp: select_project_def count_where_zero dest: find_SomeD)
  then have "rotate_token X uuid name w = (Err fault, w\<lparr>w_faults := [], w_db := ?d\<rparr>)"
    using assms(1)
    by (simp add: rotate_token_def bnd_def exec_def stmt_def run_stmt_def update_project_def
        project_by_name_def query_def fault_def)
  moreover have "select_project name ?d = Some (p\<lparr>pr_token := generate_token uuid\<rparr>)"
    using assms(2) by (simp add: select_project_def find_update_same)
  ultimately show ?thesis by simp
qed

theorem rotate_token_reports_failure_after_rotating_witness:
  "\<exists>w'. rotate_token demo_externs (replicate 16 (CHR 0x2A)) ''web''
      (demo_db_world\<lparr>w_faults := [False, True]\<rparr>) = (Err fault, w') \<and>
    select_project ''web'' (w_db w') = Some (demo_project ''web'' ''tok-web''
      \<lparr>pr_token := generate_token (replicate 16 (CHR 0x2A))\<rparr>)"
  by (rule rotate_token_reports_failure_after_rotating)
     (simp_all add: demo_db_world_def demo_db_def select_project_def demo_project_def)

text \<open>C40: the activity sparkline is always flat. The event log's timestamps are SQLite's text, which
  is not RFC 3339, so no event reaches a bucket, and the time of the last event is the time of
  the request.\<close>

definition sqlite_texts :: "externs \<Rightarrow> db \<Rightarrow> bool" where
  "sqlite_texts X d \<longleftrightarrow> list_all (\<lambda>e. \<exists>t. er_received_at e = x_sqlite_now X t) (events d)"

lemma bump_bucket_unparsed:
  "(\<And>ts. ts \<in> set rows \<Longrightarrow> x_parse_rfc3339 X ts = None) \<Longrightarrow> foldl (bump_bucket X now) b rows = b"
  by (induction rows) (simp_all add: bump_bucket_def)

lemma activity_stats_cases:
  obtains (ok) s w' where "activity_stats X p now w = (Ok s, w')"
      "ac_hourly_buckets s = foldl (bump_bucket X now) (replicate 24 0) (map er_received_at
         (filter (\<lambda>e. x_rfc3339 X (now - 24 * 3600000000000) \<le> er_received_at e) (project_events p (w_db w))))"
      "ac_last_event_at s = (let t = max_text (map er_received_at (project_events p (w_db w))) in
         if t = [] then None else Some (parse_or_now X (w_now w) t))"
    | (failed) w' where "activity_stats X p now w = (Err fault, w')"
proof -
  have foi: "fault_or_ideal (activity_stats X p now)"
    unfolding activity_stats_def Let_def by (intro fault_intros)
  have "\<exists>s. activity_stats X p now (calm w) = (Ok s, calm w) \<and>
      ac_hourly_buckets s = foldl (bump_bucket X now) (replicate 24 0) (map er_received_at
         (filter (\<lambda>e. x_rfc3339 X (now - 24 * 3600000000000) \<le> er_received_at e) (project_events p (w_db w)))) \<and>
      ac_last_event_at s = (let t = max_text (map er_received_at (project_events p (w_db w))) in
         if t = [] then None else Some (parse_or_now X (w_now w) t))"
    by (simp add: activity_stats_def Let_def op_simps)
  then obtain s where s: "activity_stats X p now (calm w) = (Ok s, calm w)"
    "ac_hourly_buckets s = foldl (bump_bucket X now) (replicate 24 0) (map er_received_at
         (filter (\<lambda>e. x_rfc3339 X (now - 24 * 3600000000000) \<le> er_received_at e) (project_events p (w_db w))))"
    "ac_last_event_at s = (let t = max_text (map er_received_at (project_events p (w_db w))) in
         if t = [] then None else Some (parse_or_now X (w_now w) t))"
    by blast
  from foi s(1) show thesis
    by (rule fault_cases) (use s that in blast)+
qed

theorem activity_buckets_always_empty:
  assumes "sqlite_text_not_rfc3339 X" and "sqlite_texts X (w_db w)"
  shows "case activity_stats X project now w of
     (Ok s, w') \<Rightarrow> ac_hourly_buckets s = replicate 24 0 \<and>
       ac_last_event_at s \<in> {None, Some (w_now w)}
   | (Err e, w') \<Rightarrow> e = fault
   | (Panic, w') \<Rightarrow> False"
proof (cases rule: activity_stats_cases [of X project now w])
  case (ok s w')
  have none: "x_parse_rfc3339 X (er_received_at e) = None" if "e \<in> set (project_events project (w_db w))" for e
    using assms that by (auto simp: project_events_def sqlite_texts_def sqlite_text_not_rfc3339_def list_all_iff)
  have "max_text ts = [] \<or> max_text ts \<in> set ts" for ts
    unfolding max_text_def by (induction ts rule: rev_induct) (auto simp: max_def)
  from this [of "map er_received_at (project_events project (w_db w))"]
  have "max_text (map er_received_at (project_events project (w_db w))) = [] \<or>
      x_parse_rfc3339 X (max_text (map er_received_at (project_events project (w_db w)))) = None"
    by (auto simp: none)
  moreover have "ac_hourly_buckets s = replicate 24 0"
    unfolding ok(2) by (rule bump_bucket_unparsed) (auto simp: none)
  ultimately show ?thesis
    using ok by (auto simp: parse_or_now_def Let_def)
qed simp

lemma demo_sqlite_texts: "sqlite_texts demo_externs (w_db demo_db_world)"
proof -
  have "er_received_at e = x_sqlite_now demo_externs start_time"
    if "e \<in> set (events (w_db demo_db_world))" for e
    using that by (auto simp: demo_db_world_def demo_db_def demo_event_row_def demo_externs_def)
  then show ?thesis unfolding sqlite_texts_def list_all_iff by blast
qed

theorem activity_buckets_always_empty_witness:
  "case activity_stats demo_externs ''web'' start_time demo_db_world of
     (Ok s, w') \<Rightarrow> ac_hourly_buckets s = replicate 24 0 \<and>
       ac_last_event_at s \<in> {None, Some (w_now demo_db_world)}
   | (Err e, w') \<Rightarrow> e = fault
   | (Panic, w') \<Rightarrow> False"
  by (rule activity_buckets_always_empty [OF demo_sqlite_text_not_rfc3339 demo_sqlite_texts])

end
