(* ===== verification/Store_Users.thy ===== *)
theory Store_Users
  imports Store_Projects
begin

text \<open>
  Users, sessions and login attempts in \<open>crates/errexd/src/store.rs\<close>. Sessions reference users and
  go with them; deactivating a user revokes the user's sessions in the same transaction; login
  attempts are a log that outlives its users.
\<close>

section \<open>Values\<close>

datatype role = Admin | Viewer

definition role_as_str :: "role \<Rightarrow> string" where
  "role_as_str r = (case r of Admin \<Rightarrow> ''admin'' | Viewer \<Rightarrow> ''viewer'')"

definition role_from_db_str :: "string \<Rightarrow> role" where
  "role_from_db_str s = (if s = ''admin'' then Admin else Viewer)"

definition is_admin :: "role \<Rightarrow> bool" where
  "is_admin r = (case r of Admin \<Rightarrow> True | Viewer \<Rightarrow> False)"

lemma role_round_trip [simp]: "role_from_db_str (role_as_str r) = r"
  by (cases r) (simp_all add: role_from_db_str_def role_as_str_def)

lemma role_as_str_valid: "role_as_str r \<in> {''admin'', ''viewer''}"
  by (cases r) (simp_all add: role_as_str_def)

record user =
  u_username_of :: string
  u_role :: role
  u_created_at :: time
  u_last_login_at :: "time option"
  u_last_login_ip :: "string option"
  u_deactivated_at :: "time option"

record session =
  ss_id :: string
  ss_username :: string
  ss_created_at :: time
  ss_last_seen_at :: time
  ss_ip :: "string option"
  ss_user_agent :: "string option"

definition user_of_row :: "externs \<Rightarrow> time \<Rightarrow> user_row \<Rightarrow> user" where
  "user_of_row X now r =
     \<lparr>u_username_of = us_username r, u_role = role_from_db_str (us_role r),
      u_created_at = parse_or_now X now (us_created_at r),
      u_last_login_at = map_option (parse_or_now X now) (us_last_login_at r),
      u_last_login_ip = us_last_login_ip r,
      u_deactivated_at = map_option (parse_or_now X now) (us_deactivated_at r)\<rparr>"

definition session_of_row :: "externs \<Rightarrow> time \<Rightarrow> session_row \<Rightarrow> session" where
  "session_of_row X now r =
     \<lparr>ss_id = se_id r, ss_username = se_username r,
      ss_created_at = parse_or_now X now (se_created_at r),
      ss_last_seen_at = parse_or_now X now (se_last_seen_at r),
      ss_ip = se_ip r, ss_user_agent = se_user_agent r\<rparr>"

section \<open>Statements\<close>

definition insert_user :: "user_row \<Rightarrow> db \<Rightarrow> sqlx_error + unit \<times> db" where
  "insert_user u d =
     (if us_role u \<notin> {''admin'', ''viewer''} then Inl CheckViolation
      else if \<exists>v \<in> set (users d). us_username v = us_username u then Inl UniqueViolation
      else Inr ((), d\<lparr>users := users d @ [u]\<rparr>))"

definition update_user :: "string \<Rightarrow> (user_row \<Rightarrow> user_row) \<Rightarrow> db \<Rightarrow> nat \<times> db" where
  "update_user name f d =
     (count_where (\<lambda>u. us_username u = name) (users d),
      d\<lparr>users := update_where (\<lambda>u. us_username u = name) f (users d)\<rparr>)"

definition select_user :: "string \<Rightarrow> db \<Rightarrow> user_row option" where
  "select_user name d = find (\<lambda>u. us_username u = name) (users d)"

definition insert_session :: "session_row \<Rightarrow> db \<Rightarrow> sqlx_error + unit \<times> db" where
  "insert_session s d =
     (if \<exists>r \<in> set (sessions d). se_id r = se_id s then Inl UniqueViolation
      else if \<not> (\<exists>u \<in> set (users d). us_username u = se_username s) then Inl ForeignKeyViolation
      else Inr ((), d\<lparr>sessions := sessions d @ [s]\<rparr>))"

definition delete_sessions :: "(session_row \<Rightarrow> bool) \<Rightarrow> db \<Rightarrow> nat \<times> db" where
  "delete_sessions P d =
     (count_where P (sessions d), d\<lparr>sessions := delete_where P (sessions d)\<rparr>)"

definition update_session :: "string \<Rightarrow> (session_row \<Rightarrow> session_row) \<Rightarrow> db \<Rightarrow> nat \<times> db" where
  "update_session sid f d =
     (count_where (\<lambda>s. se_id s = sid) (sessions d),
      d\<lparr>sessions := update_where (\<lambda>s. se_id s = sid) f (sessions d)\<rparr>)"

text \<open>\<open>sessions s JOIN users u ON u.username = s.username WHERE s.id = ?\<close>.\<close>

definition select_session_with_user :: "string \<Rightarrow> db \<Rightarrow> (session_row \<times> user_row) option" where
  "select_session_with_user sid d =
     Option.bind (find (\<lambda>s. se_id s = sid) (sessions d)) (\<lambda>s.
       map_option (Pair s) (select_user (se_username s) d))"

definition insert_attempt :: "string option \<Rightarrow> string \<Rightarrow> string \<Rightarrow> int \<Rightarrow> db \<Rightarrow> unit \<times> db" where
  "insert_attempt username ip ts success d =
     ((), d\<lparr>attempts := attempts d @
        [\<lparr>at_id = attempt_seq d + 1, at_username = username, at_ip = ip, at_ts = ts,
          at_success = success\<rparr>],
      attempt_seq := attempt_seq d + 1\<rparr>)"

definition delete_attempts_before :: "string \<Rightarrow> db \<Rightarrow> nat \<times> db" where
  "delete_attempts_before ts d =
     (count_where (\<lambda>a. at_ts a < ts) (attempts d),
      d\<lparr>attempts := delete_where (\<lambda>a. at_ts a < ts) (attempts d)\<rparr>)"

section \<open>Users\<close>

definition user_count :: "('z, nat) op" where
  "user_count = query (\<lambda>d. length (users d))"

definition create_user :: "externs \<Rightarrow> string \<Rightarrow> string \<Rightarrow> role \<Rightarrow> ('z, user) op" where
  "create_user X username password_hash role =
     bnd utc_now (\<lambda>t.
     let now = x_rfc3339 X t in
     bnd (stmt (insert_user
            \<lparr>us_username = username, us_password_hash = password_hash, us_role = role_as_str role,
             us_created_at = now, us_last_login_at = None, us_last_login_ip = None,
             us_deactivated_at = None\<rparr>)) (\<lambda>_.
     ret \<lparr>u_username_of = username, u_role = role, u_created_at = parse_or_now X t now,
          u_last_login_at = None, u_last_login_ip = None, u_deactivated_at = None\<rparr>))"

definition list_users :: "externs \<Rightarrow> ('z, user list) op" where
  "list_users X =
     bnd (query (\<lambda>d. sort_key us_username (users d))) (\<lambda>rows.
     bnd utc_now (\<lambda>t. ret (map (user_of_row X t) rows)))"

definition get_user :: "externs \<Rightarrow> string \<Rightarrow> ('z, user option) op" where
  "get_user X username =
     bnd (query (select_user username)) (\<lambda>row.
     bnd utc_now (\<lambda>t. ret (map_option (user_of_row X t) row)))"

definition get_user_password_hash :: "string \<Rightarrow> ('z, string option) op" where
  "get_user_password_hash username =
     query (\<lambda>d. map_option us_password_hash (select_user username d))"

definition no_such_user :: "string \<Rightarrow> daemon_error" where
  "no_such_user name = NotFound (''user '' @ name)"

definition set_user_password :: "string \<Rightarrow> string \<Rightarrow> ('z, unit) op" where
  "set_user_password username password_hash =
     bnd (exec (update_user username (\<lambda>u. u\<lparr>us_password_hash := password_hash\<rparr>))) (\<lambda>updated.
     if updated = 0 then err (no_such_user username) else ret ())"

definition set_user_role :: "string \<Rightarrow> role \<Rightarrow> ('z, unit) op" where
  "set_user_role username role =
     bnd (exec (update_user username (\<lambda>u. u\<lparr>us_role := role_as_str role\<rparr>))) (\<lambda>updated.
     if updated = 0 then err (no_such_user username) else ret ())"

definition set_user_deactivated :: "externs \<Rightarrow> string \<Rightarrow> bool \<Rightarrow> ('z, unit) op" where
  "set_user_deactivated X username deactivated =
     tx (bnd utc_now (\<lambda>t.
         let value = (if deactivated then Some (x_rfc3339 X t) else None) in
         bnd (exec (update_user username (\<lambda>u. u\<lparr>us_deactivated_at := value\<rparr>))) (\<lambda>updated.
         if updated = 0 then err (no_such_user username)
         else if deactivated
         then bnd (exec (delete_sessions (\<lambda>s. se_username s = username))) (\<lambda>_. ret ())
         else ret ())))"

definition delete_user :: "string \<Rightarrow> ('z, unit) op" where
  "delete_user username =
     bnd (exec (delete_users (\<lambda>u. us_username u = username))) (\<lambda>updated.
     if updated = 0 then err (no_such_user username) else ret ())"

definition touch_user_login :: "externs \<Rightarrow> string \<Rightarrow> string option \<Rightarrow> ('z, unit) op" where
  "touch_user_login X username ip =
     bnd utc_now (\<lambda>t.
     best_effort (exec (update_user username (\<lambda>u.
       u\<lparr>us_last_login_at := Some (x_rfc3339 X t), us_last_login_ip := ip\<rparr>))))"

definition active_admin :: "user_row \<Rightarrow> bool" where
  "active_admin u \<longleftrightarrow> us_role u = ''admin'' \<and> us_deactivated_at u = None"

definition count_active_admins :: "('z, nat) op" where
  "count_active_admins = query (\<lambda>d. count_where active_admin (users d))"

section \<open>Sessions\<close>

definition create_session ::
  "externs \<Rightarrow> string \<Rightarrow> string \<Rightarrow> string option \<Rightarrow> string option \<Rightarrow> ('z, session) op" where
  "create_session X sid username ip user_agent =
     bnd utc_now (\<lambda>now.
     let now_str = x_rfc3339 X now in
     bnd (stmt (insert_session
            \<lparr>se_id = sid, se_username = username, se_created_at = now_str,
             se_last_seen_at = now_str, se_ip = ip, se_user_agent = user_agent\<rparr>)) (\<lambda>_.
     ret \<lparr>ss_id = sid, ss_username = username, ss_created_at = now, ss_last_seen_at = now,
          ss_ip = ip, ss_user_agent = user_agent\<rparr>))"

definition session_for_id :: "externs \<Rightarrow> string \<Rightarrow> ('z, (session \<times> role \<times> bool) option) op" where
  "session_for_id X sid =
     bnd (query (select_session_with_user sid)) (\<lambda>row.
     bnd utc_now (\<lambda>t.
     ret (map_option (\<lambda>(s, u). (session_of_row X t s, role_from_db_str (us_role u),
            us_deactivated_at u \<noteq> None)) row)))"

definition touch_session :: "externs \<Rightarrow> string \<Rightarrow> ('z, unit) op" where
  "touch_session X sid =
     bnd utc_now (\<lambda>t.
     best_effort (exec (update_session sid (\<lambda>s. s\<lparr>se_last_seen_at := x_rfc3339 X t\<rparr>))))"

definition revoke_session :: "string \<Rightarrow> ('z, unit) op" where
  "revoke_session sid =
     bnd (exec (delete_sessions (\<lambda>s. se_id s = sid))) (\<lambda>_. ret ())"

definition revoke_user_sessions :: "string \<Rightarrow> ('z, nat) op" where
  "revoke_user_sessions username = exec (delete_sessions (\<lambda>s. se_username s = username))"

definition list_user_sessions :: "externs \<Rightarrow> string \<Rightarrow> ('z, session list) op" where
  "list_user_sessions X username =
     bnd (query (\<lambda>d. order_desc se_last_seen_at
            (filter (\<lambda>s. se_username s = username) (sessions d)))) (\<lambda>rows.
     bnd utc_now (\<lambda>t. ret (map (session_of_row X t) rows)))"

definition purge_sessions_idle_since :: "externs \<Rightarrow> time \<Rightarrow> ('z, nat) op" where
  "purge_sessions_idle_since X cutoff =
     exec (delete_sessions (\<lambda>s. se_last_seen_at s < x_rfc3339 X cutoff))"

section \<open>Login attempts\<close>

definition record_attempt :: "externs \<Rightarrow> string option \<Rightarrow> string \<Rightarrow> bool \<Rightarrow> ('z, unit) op" where
  "record_attempt X username ip success =
     bnd utc_now (\<lambda>t.
     best_effort (exec (insert_attempt username ip (x_rfc3339 X t) (if success then 1 else 0))))"

definition failed_since :: "externs \<Rightarrow> time \<Rightarrow> attempt_row \<Rightarrow> bool" where
  "failed_since X since a \<longleftrightarrow> at_success a = 0 \<and> x_rfc3339 X since \<le> at_ts a"

definition count_recent_failures_for_username :: "externs \<Rightarrow> string \<Rightarrow> time \<Rightarrow> ('z, nat) op" where
  "count_recent_failures_for_username X username since =
     query (\<lambda>d. count_where (\<lambda>a. at_username a = Some username \<and> failed_since X since a) (attempts d))"

definition count_recent_failures_for_ip :: "externs \<Rightarrow> string \<Rightarrow> time \<Rightarrow> ('z, nat) op" where
  "count_recent_failures_for_ip X ip since =
     query (\<lambda>d. count_where (\<lambda>a. at_ip a = ip \<and> failed_since X since a) (attempts d))"

definition prune_auth_attempts_older_than :: "externs \<Rightarrow> time \<Rightarrow> ('z, nat) op" where
  "prune_auth_attempts_older_than X cutoff = exec (delete_attempts_before (x_rfc3339 X cutoff))"

section \<open>The schema's constraints\<close>

lemma schema_insert_user [schema_intros]: "preserves schema_ok (stmt (insert_user u))"
  by (rule preserves_stmt) (force simp: schema_defs insert_user_def split: if_splits)

lemma schema_update_user:
  assumes "\<And>u. us_username (f u) = us_username u"
    and "\<And>u. us_role u \<in> {''admin'', ''viewer''} \<Longrightarrow> us_role (f u) \<in> {''admin'', ''viewer''}"
  shows "preserves schema_ok (exec (update_user name f))"
proof (rule preserves_exec)
  fix d
  assume "schema_ok d"
  from schema_ok_update_users [OF this assms] show "schema_ok (snd (update_user name f d))"
    by (simp add: update_user_def)
qed

lemma schema_update_user_columns [schema_intros]:
  "preserves schema_ok (exec (update_user name (\<lambda>u. u\<lparr>us_password_hash := h\<rparr>)))"
  "preserves schema_ok (exec (update_user name (\<lambda>u. u\<lparr>us_role := role_as_str role\<rparr>)))"
  "preserves schema_ok (exec (update_user name (\<lambda>u. u\<lparr>us_deactivated_at := v\<rparr>)))"
  "preserves schema_ok (exec (update_user name (\<lambda>u. u\<lparr>us_last_login_at := a, us_last_login_ip := b\<rparr>)))"
  by (rule schema_update_user; use role_as_str_valid [of role] in simp)+

lemma schema_insert_session [schema_intros]: "preserves schema_ok (stmt (insert_session s))"
proof (rule preserves_stmt)
  fix d x d'
  assume ok: "schema_ok d" and "insert_session s d = Inr (x, d')"
  then have d': "d' = d\<lparr>sessions := sessions d @ [s]\<rparr>"
    and new: "se_id s \<notin> set (map se_id (sessions d))"
    and owner: "se_username s \<in> us_username ` set (users d)"
    by (auto simp: insert_session_def image_iff eq_commute [of "se_username s"] split: if_splits)
  have "distinct (map se_id (sessions d))" and
    "\<And>r. r \<in> set (sessions d) \<Longrightarrow> se_username r \<in> us_username ` set (users d)"
    using ok by (simp_all add: schema_ok_def sessions_ok_def)
  with ok new owner show "schema_ok d'"
    unfolding d' by (intro schema_ok_sessions) auto
qed

lemma schema_delete_sessions [schema_intros]: "preserves schema_ok (exec (delete_sessions P))"
  by (rule preserves_exec) (simp add: schema_defs delete_sessions_def distinct_delete_where)

lemma schema_update_session [schema_intros]:
  "preserves schema_ok (exec (update_session sid (\<lambda>s. s\<lparr>se_last_seen_at := t\<rparr>)))"
proof (rule preserves_exec)
  fix d
  assume ok: "schema_ok d"
  then show "schema_ok (snd (update_session sid (\<lambda>s. s\<lparr>se_last_seen_at := t\<rparr>) d))"
    unfolding update_session_def snd_conv
    by (intro schema_ok_sessions)
       (auto simp: schema_ok_def sessions_ok_def map_update_where, auto simp: update_where_def)
qed

lemma schema_delete_users [schema_intros]: "preserves schema_ok (exec (delete_users P))"
  by (rule preserves_exec) (rule schema_ok_delete_users)

lemma schema_attempts [schema_intros]:
  "preserves schema_ok (exec (insert_attempt username ip ts s))"
  "preserves schema_ok (exec (delete_attempts_before ts))"
  by (rule preserves_exec;
      simp add: insert_attempt_def delete_attempts_before_def schema_ok_other)+

lemma schema_user_ops [schema_intros]:
  "preserves schema_ok user_count"
  "preserves schema_ok (create_user X name h role)"
  "preserves schema_ok (list_users X)"
  "preserves schema_ok (get_user X name)"
  "preserves schema_ok (get_user_password_hash name)"
  "preserves schema_ok (set_user_password name h)"
  "preserves schema_ok (set_user_role name role)"
  "preserves schema_ok (set_user_deactivated X name b)"
  "preserves schema_ok (delete_user name)"
  "preserves schema_ok (touch_user_login X name ip)"
  "preserves schema_ok count_active_admins"
  unfolding user_count_def create_user_def list_users_def get_user_def get_user_password_hash_def
    set_user_password_def set_user_role_def set_user_deactivated_def delete_user_def
    touch_user_login_def count_active_admins_def Let_def
  by (intro pres_intros schema_intros)+

lemma schema_session_ops [schema_intros]:
  "preserves schema_ok (create_session X sid name ip ua)"
  "preserves schema_ok (session_for_id X sid)"
  "preserves schema_ok (touch_session X sid)"
  "preserves schema_ok (revoke_session sid)"
  "preserves schema_ok (revoke_user_sessions name)"
  "preserves schema_ok (list_user_sessions X name)"
  "preserves schema_ok (purge_sessions_idle_since X cutoff)"
  "preserves schema_ok (record_attempt X u i s)"
  "preserves schema_ok (count_recent_failures_for_username X name since)"
  "preserves schema_ok (count_recent_failures_for_ip X i since)"
  "preserves schema_ok (prune_auth_attempts_older_than X cutoff)"
  unfolding create_session_def session_for_id_def touch_session_def revoke_session_def
    revoke_user_sessions_def list_user_sessions_def purge_sessions_idle_since_def
    record_attempt_def count_recent_failures_for_username_def count_recent_failures_for_ip_def
    prune_auth_attempts_older_than_def Let_def
  by (intro pres_intros schema_intros)+

section \<open>Effects under every schedule\<close>

lemma fault_or_ideal_users [fault_intros]:
  "fault_or_ideal (create_user X name h role)"
  "fault_or_ideal (get_user X name)"
  "fault_or_ideal (set_user_password name h)"
  "fault_or_ideal (set_user_role name role)"
  "fault_or_ideal (set_user_deactivated X name b)"
  "fault_or_ideal (delete_user name)"
  "fault_or_ideal (create_session X sid name ip ua)"
  "fault_or_ideal (session_for_id X sid)"
  "fault_or_ideal (revoke_session sid)"
  "fault_or_ideal (revoke_user_sessions name)"
  unfolding create_user_def get_user_def set_user_password_def set_user_role_def
    set_user_deactivated_def delete_user_def create_session_def session_for_id_def
    revoke_session_def revoke_user_sessions_def Let_def
  by (intro fault_intros)+

lemma readonly_users [atomic_intros]:
  "readonly user_count" "readonly (list_users X)" "readonly (get_user X name)"
  "readonly (get_user_password_hash name)" "readonly count_active_admins"
  "readonly (session_for_id X sid)" "readonly (list_user_sessions X name)"
  "readonly (count_recent_failures_for_username X name since)"
  "readonly (count_recent_failures_for_ip X ip since)"
  unfolding user_count_def list_users_def get_user_def get_user_password_hash_def
    count_active_admins_def session_for_id_def list_user_sessions_def
    count_recent_failures_for_username_def count_recent_failures_for_ip_def
  by (intro atomic_intros)+

definition deactivated_user :: "externs \<Rightarrow> time \<Rightarrow> string \<Rightarrow> bool \<Rightarrow> db \<Rightarrow> db" where
  "deactivated_user X t name b d =
     d\<lparr>users := update_where (\<lambda>u. us_username u = name)
         (\<lambda>u. u\<lparr>us_deactivated_at := if b then Some (x_rfc3339 X t) else None\<rparr>) (users d),
       sessions := if b then delete_where (\<lambda>s. se_username s = name) (sessions d) else sessions d\<rparr>"

lemma db_sessions_same [simp]: "d\<lparr>sessions := sessions d\<rparr> = (d :: db)"
  by simp

lemma set_user_deactivated_quiet:
  assumes "quiet w"
  shows "set_user_deactivated X name b w =
    (if select_user name (w_db w) = None then (Err (no_such_user name), w)
     else (Ok (), w\<lparr>w_db := deactivated_user X (w_now w) name b (w_db w)\<rparr>))"
proof -
  have "count_where (\<lambda>u. us_username u = name) (users (w_db w)) = 0 \<longleftrightarrow> select_user name (w_db w) = None"
    by (simp add: select_user_def count_where_zero find_None_iff_key)
  then show ?thesis
    using assms
    by (simp add: set_user_deactivated_def tx_quiet bnd_def op_simps update_user_def
        delete_sessions_def deactivated_user_def)
qed

lemma set_user_deactivated_cases:
  obtains (ok) w' where "set_user_deactivated X name b w = (Ok (), w')"
      "w_db w' = deactivated_user X (w_now w) name b (w_db w)" "select_user name (w_db w) \<noteq> None"
    | (failed) e w' where "set_user_deactivated X name b w = (Err e, w')" "w_db w' = w_db w"
      "e \<in> {no_such_user name, fault}"
proof -
  have atomic: "atomic (set_user_deactivated X name b)"
    unfolding set_user_deactivated_def by (intro atomic_intros)
  obtain r0 w0 where run: "set_user_deactivated X name b (calm w) = (r0, w0)" by force
  from fault_or_ideal_users(5) run show thesis
  proof (rule fault_cases)
    fix w'
    assume w': "set_user_deactivated X name b w = (r0, w')" and "calm w' = w0"
    then have "w_db w' = w_db w0" by auto
    with run w' show thesis
      using that by (auto simp: set_user_deactivated_quiet split: if_splits)
  next
    fix w'
    assume "set_user_deactivated X name b w = (Err fault, w')"
    with atomicD [OF atomic this] show thesis using that by blast
  qed
qed

section \<open>The session interface\<close>

text \<open>
  What the authentication layer relies on: a created session is found with its user, a revoked one
  is not, and revoking touches no other session. Sessions without a user are never found.
\<close>

locale session_store =
  fixes create :: "externs \<Rightarrow> string \<Rightarrow> string \<Rightarrow> string option \<Rightarrow> string option \<Rightarrow> ('z, session) op"
    and revoke :: "string \<Rightarrow> ('z, unit) op"
    and lookup :: "string \<Rightarrow> db \<Rightarrow> (session_row \<times> user_row) option"
  assumes create_Ok: "create X sid name ip ua w = (Ok s, w') \<Longrightarrow>
      (\<exists>r u. lookup sid (w_db w') = Some (r, u) \<and> se_id r = sid \<and> us_username u = name) \<and>
      (\<forall>sid'. sid' \<noteq> sid \<longrightarrow> lookup sid' (w_db w') = lookup sid' (w_db w))"
    and create_failed: "create X sid name ip ua w = (r, w') \<Longrightarrow> (\<And>s. r \<noteq> Ok s) \<Longrightarrow> w_db w' = w_db w"
    and revoke_Ok: "revoke sid w = (Ok u, w') \<Longrightarrow>
      lookup sid' (w_db w') = (if sid' = sid then None else lookup sid' (w_db w))"
    and revoke_failed: "revoke sid w = (q, w') \<Longrightarrow> (\<And>u. q \<noteq> Ok u) \<Longrightarrow> w_db w' = w_db w"
begin

text \<open>A session can be ended at once: create, revoke, and it is gone, with all others as before.\<close>

lemma create_then_revoke:
  assumes "create X sid name ip ua w = (Ok s, w1)" and "revoke sid w1 = (Ok u, w2)"
    and "lookup sid (w_db w) = None"
  shows "lookup sid' (w_db w2) = lookup sid' (w_db w)"
  using create_Ok [OF assms(1)] revoke_Ok [OF assms(2), of sid'] assms(3) by auto

lemma revoked_stays_revoked:
  assumes "revoke sid w = (Ok u, w1)" and "sid' \<noteq> sid" and "create X sid' name ip ua w1 = (r, w2)"
  shows "lookup sid (w_db w2) = None"
proof (cases "\<exists>s. r = Ok s")
  case True
  then show ?thesis using create_Ok assms revoke_Ok [OF assms(1), of sid] by (metis (full_types))
next
  case False
  then have "w_db w2 = w_db w1" using create_failed [OF assms(3)] by blast
  then show ?thesis using revoke_Ok [OF assms(1), of sid] by simp
qed

end

lemma insert_session_Inr:
  "insert_session s d = Inr (u, d') \<longleftrightarrow>
   \<not> (\<exists>r \<in> set (sessions d). se_id r = se_id s) \<and> (\<exists>u \<in> set (users d). us_username u = se_username s) \<and>
   d' = d\<lparr>sessions := sessions d @ [s]\<rparr>"
  by (auto simp: insert_session_def)

lemma create_session_Ok:
  assumes "create_session X sid name ip ua w = (Ok s, w')"
  shows "insert_session \<lparr>se_id = sid, se_username = name, se_created_at = x_rfc3339 X (w_now w),
      se_last_seen_at = x_rfc3339 X (w_now w), se_ip = ip, se_user_agent = ua\<rparr> (w_db w) = Inr ((), w_db w')"
  using assms
  by (auto simp: create_session_def bnd_def utc_now_def ret_def stmt_def run_stmt_def Let_def
      split: list.splits if_splits sum.splits prod.splits)

lemma revoke_session_Ok:
  "revoke_session sid w = (Ok u, w') \<Longrightarrow>
   w_db w' = (w_db w)\<lparr>sessions := delete_where (\<lambda>s. se_id s = sid) (sessions (w_db w))\<rparr>"
  by (cases rule: exec_cases [of "delete_sessions (\<lambda>s. se_id s = sid)" w])
     (auto simp: revoke_session_def bnd_def ret_def delete_sessions_def)

lemma find_delete_where_other:
  "(\<And>x. Q x \<Longrightarrow> \<not> P x) \<Longrightarrow> find Q (delete_where P xs) = find Q xs"
  by (induction xs) (auto simp: delete_where_def)

interpretation session_rows: session_store create_session revoke_session select_session_with_user
proof
  fix X sid name ip ua and w :: "'a world_scheme" and s r w' u sid'
  show "(\<exists>r u. select_session_with_user sid (w_db w') = Some (r, u) \<and> se_id r = sid \<and> us_username u = name) \<and>
      (\<forall>sid'. sid' \<noteq> sid \<longrightarrow> select_session_with_user sid' (w_db w') = select_session_with_user sid' (w_db w))"
    if "create_session X sid name ip ua w = (Ok s, w')"
  proof -
    have w': "w_db w' = (w_db w)\<lparr>sessions := sessions (w_db w) @
        [\<lparr>se_id = sid, se_username = name, se_created_at = x_rfc3339 X (w_now w),
          se_last_seen_at = x_rfc3339 X (w_now w), se_ip = ip, se_user_agent = ua\<rparr>]\<rparr>"
      and new: "find (\<lambda>s. se_id s = sid) (sessions (w_db w)) = None"
      and user: "\<exists>u \<in> set (users (w_db w)). us_username u = name"
      using create_session_Ok [OF that] by (auto simp: insert_session_Inr find_None_iff_key)
    obtain u where "find (\<lambda>u. us_username u = name) (users (w_db w)) = Some u"
      using user by (meson find_None_iff not_None_eq)
    with w' new show ?thesis
      by (auto simp: select_session_with_user_def select_user_def find_append
          split: option.split dest: find_SomeD)
  qed
  show "w_db w' = w_db w" if "create_session X sid name ip ua w = (r, w')" "\<And>s. r \<noteq> Ok s"
  proof -
    have "atomic (create_session X sid name ip ua)"
      unfolding create_session_def Let_def
      by (intro atomic_intros atomic_then_compute [OF atomic_stmt])
    from atomicD [OF this that(1)] that(2) show ?thesis by blast
  qed
  show "select_session_with_user sid' (w_db w') =
      (if sid' = sid then None else select_session_with_user sid' (w_db w))"
    if "revoke_session sid w = (Ok u, w')"
    using revoke_session_Ok [OF that] session_table.lookup_deleted [of sid "w_db w"]
    by (auto simp: select_session_with_user_def select_user_def find_delete_where_other)
  show "w_db w' = w_db w" if "revoke_session sid w = (r', w')" "\<And>u. r' \<noteq> Ok u" for r'
  proof -
    have "atomic (revoke_session sid)"
      unfolding revoke_session_def by (intro atomic_then_compute [OF atomic_exec] atomic_intros)
    from atomicD [OF this that(1)] that(2) show ?thesis by blast
  qed
qed

section \<open>Properties\<close>

text \<open>C34: deactivating a user ends the user's sessions. When the change is reported, the user is
  marked and no session of the user is left, while every other session and user is as before;
  when it is refused or a statement fails, nothing has changed.\<close>

theorem deactivation_revokes_sessions:
  "case set_user_deactivated X name True w of
     (Ok u, w') \<Rightarrow>
       filter (\<lambda>s. se_username s = name) (sessions (w_db w')) = [] \<and>
       filter (\<lambda>s. se_username s \<noteq> name) (sessions (w_db w')) =
         filter (\<lambda>s. se_username s \<noteq> name) (sessions (w_db w)) \<and>
       map us_deactivated_at (filter (\<lambda>u. us_username u = name) (users (w_db w'))) =
         map (\<lambda>u. Some (x_rfc3339 X (w_now w))) (filter (\<lambda>u. us_username u = name) (users (w_db w))) \<and>
       filter (\<lambda>u. us_username u \<noteq> name) (users (w_db w')) =
         filter (\<lambda>u. us_username u \<noteq> name) (users (w_db w))
   | (Err e, w') \<Rightarrow> w_db w' = w_db w \<and> e \<in> {no_such_user name, fault}
   | (Panic, w') \<Rightarrow> False"
proof (cases rule: set_user_deactivated_cases [of X name True w])
  case (ok w')
  have marked: "map us_deactivated_at (filter (\<lambda>u. us_username u = name)
        (update_where (\<lambda>u. us_username u = name) (\<lambda>u. u\<lparr>us_deactivated_at := v\<rparr>) us)) =
      map (\<lambda>u. v) (filter (\<lambda>u. us_username u = name) us)"
    and other: "filter (\<lambda>u. us_username u \<noteq> name)
        (update_where (\<lambda>u. us_username u = name) (\<lambda>u. u\<lparr>us_deactivated_at := v\<rparr>) us) =
      filter (\<lambda>u. us_username u \<noteq> name) us" for v us
    by (induction us) auto
  from ok show ?thesis
    by (simp add: deactivated_user_def marked other delete_where_def filter_empty_conv)
next
  case (failed e w')
  then show ?thesis by simp
qed

end
