(* ===== verification/Store_Retention.thy ===== *)
theory Store_Retention
  imports Store_Users "HOL-Library.Product_Lexorder"
begin

text \<open>
  Retention in \<open>crates/errexd/src/store.rs\<close>: the settings row, the storage statistics and the three
  purges. A purge by count ranks the rows of a partition newest first (\<open>ROW_NUMBER\<close>) and deletes
  those past the bound; the purge by age compares the text of the timestamp column with the text
  of the cutoff.
\<close>

section \<open>Settings\<close>

definition unlimited :: retention_settings where
  "unlimited = \<lparr>rs_events_per_issue_max = 0, rs_issues_per_project_max = 0,
     rs_event_retention_days = 0\<rparr>"

definition get_retention_settings :: "('z, retention_settings) op" where
  "get_retention_settings =
     bnd (query retention) (\<lambda>row. ret (case row of Some s \<Rightarrow> s | None \<Rightarrow> unlimited))"

definition set_retention_settings :: "retention_settings \<Rightarrow> ('z, unit) op" where
  "set_retention_settings s = exec (\<lambda>d. ((), d\<lparr>retention := Some s\<rparr>))"

text \<open>
  The page counters and the Julian day arithmetic are SQLite's: \<open>page_bytes\<close> is the product of the
  two pragmas and \<open>julian_age\<close> the age in days, rounded down, of a timestamp
  text, or \<open>None\<close> when the text is not a date.
\<close>

record storage_summary =
  st_bytes :: int
  st_issues :: nat
  st_events :: nat
  st_oldest_event_age_days :: "int option"

definition storage_stats ::
  "(db \<Rightarrow> int) \<Rightarrow> (time \<Rightarrow> string \<Rightarrow> int option) \<Rightarrow> ('z, storage_summary) op" where
  "storage_stats page_bytes julian_age =
     bnd (query page_bytes) (\<lambda>bytes.
     bnd (query (\<lambda>d. length (issues d))) (\<lambda>issues_n.
     bnd (query (\<lambda>d. length (events d))) (\<lambda>events_n.
     bnd utc_now (\<lambda>now.
     bnd (query (\<lambda>d. if events d = [] then None
                     else julian_age now (foldl min (er_received_at (hd (events d)))
                            (map er_received_at (events d))))) (\<lambda>oldest.
     ret \<lparr>st_bytes = bytes, st_issues = issues_n, st_events = events_n,
          st_oldest_event_age_days = oldest\<rparr>)))))"

section \<open>Purges\<close>

definition row_number :: "('r \<Rightarrow> 'p) \<Rightarrow> ('r \<Rightarrow> 'r \<Rightarrow> bool) \<Rightarrow> 'r list \<Rightarrow> 'r \<Rightarrow> nat" where
  "row_number part before rs r = count_where (\<lambda>q. part q = part r \<and> before q r) rs + 1"

definition issue_before :: "issue_row \<Rightarrow> issue_row \<Rightarrow> bool" where
  "issue_before a b \<longleftrightarrow>
     ir_last_seen b < ir_last_seen a \<or> (ir_last_seen a = ir_last_seen b \<and> ir_id b < ir_id a)"

definition delete_events :: "(db \<Rightarrow> event_row \<Rightarrow> bool) \<Rightarrow> db \<Rightarrow> nat \<times> db" where
  "delete_events P d =
     (count_where (P d) (events d), d\<lparr>events := delete_where (P d) (events d)\<rparr>)"

definition excess_event :: "int \<Rightarrow> db \<Rightarrow> event_row \<Rightarrow> bool" where
  "excess_event max_n d e \<longleftrightarrow> max_n < int (row_number er_issue_id event_before (events d) e)"

definition excess_issue :: "int \<Rightarrow> db \<Rightarrow> issue_row \<Rightarrow> bool" where
  "excess_issue max_n d r \<longleftrightarrow> max_n < int (row_number ir_project issue_before (issues d) r)"

definition purge_excess_events_per_issue :: "int \<Rightarrow> ('z, nat) op" where
  "purge_excess_events_per_issue max_n =
     (if max_n \<le> 0 then ret 0 else exec (delete_events (excess_event max_n)))"

definition purge_excess_issues_per_project :: "int \<Rightarrow> ('z, nat) op" where
  "purge_excess_issues_per_project max_n =
     (if max_n \<le> 0 then ret 0 else exec (\<lambda>d. delete_issues (excess_issue max_n d) d))"

definition purge_events_older_than :: "externs \<Rightarrow> time \<Rightarrow> ('z, nat) op" where
  "purge_events_older_than X cutoff =
     exec (delete_events (\<lambda>d e. er_received_at e < x_rfc3339 X cutoff))"

section \<open>The schema's constraints\<close>

lemma schema_delete_events [schema_intros]: "preserves schema_ok (exec (delete_events P))"
  by (rule preserves_exec) (simp add: delete_events_def schema_ok_delete_events)

lemma schema_retention_ops [schema_intros]:
  "preserves schema_ok get_retention_settings"
  "preserves schema_ok (set_retention_settings s)"
  "preserves schema_ok (storage_stats page_bytes julian_age)"
  "preserves schema_ok (purge_excess_events_per_issue n)"
  "preserves schema_ok (purge_excess_issues_per_project n)"
  "preserves schema_ok (purge_events_older_than X cutoff)"
  unfolding get_retention_settings_def set_retention_settings_def storage_stats_def
    purge_excess_events_per_issue_def purge_excess_issues_per_project_def
    purge_events_older_than_def
  by (intro pres_intros schema_intros preserves_exec;
      simp add: schema_ok_other schema_ok_delete_issues)+

section \<open>Ranking\<close>

text \<open>In a linear order, exactly \<open>min n (card K)\<close> elements have fewer than \<open>n\<close> above them.\<close>

lemma card_top:
  fixes K :: "'k::linorder set"
  assumes "finite K"
  shows "card {k \<in> K. card {l \<in> K. k < l} < n} = min n (card K)"
  using assms
proof (induction K rule: finite_linorder_min_induct)
  case (insert b A)
  have above: "{l \<in> insert b A. k < l} = {l \<in> A. k < l}" if "k \<in> A" for k
    using insert.hyps(2) that by (auto simp: less_le_not_le)
  have b: "{l \<in> insert b A. b < l} = A" "b \<notin> A" using insert.hyps(2) by auto
  have "{k \<in> insert b A. card {l \<in> insert b A. k < l} < n} =
      (if card A < n then insert b {k \<in> A. card {l \<in> A. k < l} < n}
       else {k \<in> A. card {l \<in> A. k < l} < n})"
    using above b by auto
  moreover have "b \<notin> {k \<in> A. card {l \<in> A. k < l} < n}" using b(2) by blast
  ultimately show ?case
    using insert.IH insert.hyps(1) b(2) by auto
qed simp

lemma row_number_card:
  fixes key :: "'r \<Rightarrow> 'k::linorder" and part :: "'r \<Rightarrow> 'p"
  assumes "distinct rs" and "inj_on key (set rs)" and "r \<in> set rs"
    and "\<And>a b. before a b \<longleftrightarrow> key b < key a"
  defines "K \<equiv> key ` {q \<in> set rs. part q = part r}"
  shows "row_number part before rs r = card {l \<in> K. key r < l} + 1"
proof -
  have "{l \<in> K. key r < l} = key ` {q \<in> set rs. part q = part r \<and> key r < key q}"
    by (auto simp: K_def)
  moreover have "card (key ` {q \<in> set rs. part q = part r \<and> key r < key q}) =
      card {q \<in> set rs. part q = part r \<and> key r < key q}"
    by (rule card_image) (rule inj_on_subset [OF assms(2)], blast)
  moreover have "count_where (\<lambda>q. part q = part r \<and> before q r) rs =
      card {q \<in> set rs. part q = part r \<and> key r < key q}"
    using distinct_card [OF distinct_filter [OF assms(1)]] by (simp add: count_where_def assms(4))
  ultimately show ?thesis by (simp add: row_number_def)
qed

lemma count_where_card: "distinct rs \<Longrightarrow> count_where P rs = card {r \<in> set rs. P r}"
  using distinct_card [OF distinct_filter, of rs P] by (simp add: count_where_def)

text \<open>What is left of a partition after its rows past the bound are deleted.\<close>

lemma kept_rows:
  fixes key :: "'r \<Rightarrow> 'k::linorder"
  assumes "distinct rs" and "inj_on key (set rs)"
    and before: "\<And>a b. before a b \<longleftrightarrow> key b < key a"
  shows "count_where (\<lambda>r. part r = p) (delete_where (\<lambda>r. n < row_number part before rs r) rs)
    = min n (count_where (\<lambda>r. part r = p) rs)"
proof -
  let ?P = "{q \<in> set rs. part q = p}"
  let ?K = "key ` ?P"
  have inj: "inj_on key ?P" by (rule inj_on_subset [OF assms(2)]) blast
  have rank: "row_number part before rs r = card {l \<in> ?K. key r < l} + 1" if "r \<in> ?P" for r
    using row_number_card [OF assms(1,2) _ before, of r part] that by auto
  let ?top = "\<lambda>k. card {l \<in> ?K. k < l} < n"
  have a: "{r \<in> ?P. \<not> n < row_number part before rs r} = {r \<in> ?P. ?top (key r)}"
  proof (rule Collect_cong, rule conj_cong [OF refl])
    fix r
    assume "r \<in> ?P"
    then have "row_number part before rs r = card {l \<in> ?K. key r < l} + 1" by (rule rank)
    then show "(\<not> n < row_number part before rs r) = ?top (key r)"
      by (simp only: not_less Suc_eq_plus1 [symmetric] Suc_le_eq)
  qed
  have b: "key ` {r \<in> ?P. ?top (key r)} = {k \<in> ?K. ?top k}" by blast
  have c: "card (key ` {r \<in> ?P. ?top (key r)}) = card {r \<in> ?P. ?top (key r)}"
    by (rule card_image, rule inj_on_subset [OF inj]) blast
  have d: "card {k \<in> ?K. ?top k} = min n (card ?K)"
    by (rule card_top) simp
  have "card {r \<in> ?P. \<not> n < row_number part before rs r} = min n (card ?K)"
    unfolding a c [symmetric] unfolding b by (rule d)
  moreover have "card ?K = card ?P" by (rule card_image [OF inj])
  moreover have "count_where (\<lambda>r. part r = p) (delete_where (\<lambda>r. n < row_number part before rs r) rs)
      = card {r \<in> ?P. \<not> n < row_number part before rs r}"
    using count_where_card [of "delete_where (\<lambda>r. n < row_number part before rs r) rs"] assms(1)
    by (auto simp: delete_where_def intro!: arg_cong [where f = card])
  moreover have "count_where (\<lambda>r. part r = p) rs = card ?P"
    by (rule count_where_card [OF assms(1)])
  ultimately show ?thesis by simp
qed

lemma kept_rows_newest:
  assumes "row_number part before rs a \<le> n" and "n < row_number part before rs b"
    and "part a = part b" and before: "\<And>a b. before a b \<longleftrightarrow> key b < (key a :: 'k::linorder)"
  shows "key b < key a"
proof (rule ccontr)
  assume "\<not> key b < key a"
  then have "count_where (\<lambda>q. part q = part b \<and> before q b) rs \<le>
      count_where (\<lambda>q. part q = part a \<and> before q a) rs"
    using assms(3) by (induction rs) (auto simp: count_where_def before)
  with assms(1,2) show False by (simp add: row_number_def)
qed

section \<open>Properties\<close>

text \<open>The keys that \<open>ORDER BY\<close> sorts by; with the row id they are distinct.\<close>

lemma event_before_key: "event_before a b \<longleftrightarrow> (er_received_at b, er_id b) < (er_received_at a, er_id a)"
  by (auto simp: event_before_def less_prod_def)

lemma issue_before_key: "issue_before a b \<longleftrightarrow> (ir_last_seen b, ir_id b) < (ir_last_seen a, ir_id a)"
  by (auto simp: issue_before_def less_prod_def)

lemma inj_on_with_key: "distinct (map k rs) \<Longrightarrow> inj_on (\<lambda>r. (g r, k r)) (set rs)"
  by (auto simp: distinct_map inj_on_def)

text \<open>Trimming the events of an issue. Each issue keeps as many of its events as the bound
  allows, no other issue's events count against it, the result is the number of deleted rows, and
  a failing statement deletes nothing.\<close>

theorem purge_events_keeps_bound:
  assumes "schema_ok (w_db w)" and "0 < n"
  shows "case purge_excess_events_per_issue n w of
     (Ok k, w') \<Rightarrow>
       count_where (\<lambda>e. er_issue_id e = i) (events (w_db w')) =
         min (nat n) (count_where (\<lambda>e. er_issue_id e = i) (events (w_db w))) \<and>
       k + length (events (w_db w')) = length (events (w_db w)) \<and> issues (w_db w') = issues (w_db w)
   | (_, w') \<Rightarrow> w_db w' = w_db w"
proof (cases rule: exec_cases [of "delete_events (excess_event n)" w])
  case (ran w')
  have ids: "distinct (events (w_db w))" "distinct (map er_id (events (w_db w)))"
    using assms(1) by (auto simp: schema_ok_def events_ok_def distinct_map)
  have "excess_event n (w_db w) =
      (\<lambda>e. nat n < row_number er_issue_id event_before (events (w_db w)) e)"
    using assms(2) by (auto simp: excess_event_def fun_eq_iff)
  then show ?thesis
    using ran assms(2) kept_rows [OF ids(1) inj_on_with_key [OF ids(2)] event_before_key,
        of er_issue_id i "nat n"]
    by (simp add: purge_excess_events_per_issue_def delete_events_def length_delete_where)
next
  case (failed w')
  then show ?thesis using assms(2) by (simp add: purge_excess_events_per_issue_def)
qed

lemma demo_schema_ok: "schema_ok demo_db"
  by (simp add: schema_defs demo_defs issue_key_def)

theorem purge_events_keeps_bound_witness:
  "case purge_excess_events_per_issue 1 demo_db_world of
     (Ok k, w') \<Rightarrow>
       count_where (\<lambda>e. er_issue_id e = 1) (events (w_db w')) = 1 \<and>
       k + length (events (w_db w')) = 3 \<and> issues (w_db w') = issues demo_db
   | (_, w') \<Rightarrow> w_db w' = demo_db"
  using purge_events_keeps_bound [of demo_db_world 1 1] demo_schema_ok
  by (simp add: demo_db_world_def demo_world_def count_where_def demo_db_def demo_event_row_def
      empty_db_def split: prod.splits outcome.splits)

text \<open>Trimming the issues of a project. Each project keeps as many issues as the bound allows,
  every issue it keeps was seen later than every issue it loses (the row id breaking ties), and
  the events of the lost issues go with them.\<close>

theorem purge_issues_keeps_latest:
  assumes "schema_ok (w_db w)" and "0 < n"
  shows "case purge_excess_issues_per_project n w of
     (Ok k, w') \<Rightarrow>
       count_where (\<lambda>r. ir_project r = p) (issues (w_db w')) =
         min (nat n) (count_where (\<lambda>r. ir_project r = p) (issues (w_db w))) \<and>
       (\<forall>a \<in> set (issues (w_db w')). \<forall>b \<in> set (issues (w_db w)) - set (issues (w_db w')).
          ir_project a = ir_project b \<longrightarrow> issue_before a b) \<and>
       schema_ok (w_db w')
   | (_, w') \<Rightarrow> w_db w' = w_db w"
proof (cases rule: exec_cases [of "\<lambda>d. delete_issues (excess_issue n d) d" w])
  case (ran w')
  let ?rs = "issues (w_db w)"
  have ids: "distinct ?rs" "distinct (map ir_id ?rs)"
    using assms(1) by (auto simp: schema_ok_def issues_ok_def distinct_map)
  have ex: "excess_issue n (w_db w) = (\<lambda>r. nat n < row_number ir_project issue_before ?rs r)"
    using assms(2) by (auto simp: excess_issue_def fun_eq_iff)
  have "issue_before a b" if "a \<in> set ?rs" "\<not> excess_issue n (w_db w) a"
    "excess_issue n (w_db w) b" "ir_project a = ir_project b" for a b
    using kept_rows_newest [of ir_project issue_before ?rs a "nat n" b, OF _ _ _ issue_before_key]
      that by (simp add: ex issue_before_key)
  then show ?thesis
    using ran assms kept_rows [OF ids(1) inj_on_with_key [OF ids(2)] issue_before_key,
        of ir_project p "nat n"] schema_ok_delete_issues [OF assms(1), of "excess_issue n (w_db w)"]
    by (auto simp: purge_excess_issues_per_project_def delete_issues_def ex [symmetric])
next
  case (failed w')
  then show ?thesis using assms(2) by (simp add: purge_excess_issues_per_project_def)
qed

theorem purge_issues_keeps_latest_witness:
  "case purge_excess_issues_per_project 1 demo_db_world of
     (Ok k, w') \<Rightarrow>
       count_where (\<lambda>r. ir_project r = ''web'') (issues (w_db w')) = 1 \<and> schema_ok (w_db w')
   | (_, w') \<Rightarrow> w_db w' = demo_db"
  using purge_issues_keeps_latest [of demo_db_world 1 "''web''"] demo_schema_ok
  by (simp add: demo_db_world_def demo_world_def count_where_def demo_db_def demo_issue_def
      empty_db_def split: prod.splits outcome.splits)

text \<open>C38: the purge by age is a day early. An event stored on the cutoff's UTC day is deleted even
  when it was received after the cutoff, because SQLite's timestamp text has a space where the
  cutoff's RFC 3339 text has a \<open>T\<close>.\<close>

lemma space_before_T:
  "length d = 10 \<Longrightarrow> d @ CHR '' '' # s < d @ CHR ''T'' # (r :: string)"
  by (simp add: append_less_append less_char_def)

theorem age_purge_deletes_later_event_of_day:
  assumes "sqlite_text_format X" and "in_text_range cutoff" and "in_text_range t"
    and "utc_day t = utc_day cutoff" and "cutoff < t"
    and "w_faults w = []" and "e \<in> set (events (w_db w))" and "er_received_at e = x_sqlite_now X t"
  shows "e \<notin> set (events (w_db (snd (purge_events_older_than X cutoff w))))"
proof -
  obtain d r s where "length d = 10" "x_rfc3339 X cutoff = d @ CHR ''T'' # r"
    "x_sqlite_now X t = d @ CHR '' '' # s"
    using assms(1-4) unfolding sqlite_text_format_def by metis
  then have "er_received_at e < x_rfc3339 X cutoff"
    using assms(8) by (simp add: space_before_T)
  then show ?thesis
    using assms(6) by (simp add: purge_events_older_than_def delete_events_def exec_quiet quiet_def)
qed

theorem age_purge_deletes_later_event_of_day_witness:
  "demo_event_row 1 1 ''e1'' \<in> set (events (w_db demo_db_world)) \<and>
   demo_event_row 1 1 ''e1'' \<notin> set (events (w_db (snd
     (purge_events_older_than demo_externs (start_time - 3600000000000) demo_db_world))))"
proof
  show mem: "demo_event_row 1 1 ''e1'' \<in> set (events (w_db demo_db_world))"
    by (simp add: demo_db_world_def demo_db_def)
  show "demo_event_row 1 1 ''e1'' \<notin> set (events (w_db (snd
     (purge_events_older_than demo_externs (start_time - 3600000000000) demo_db_world))))"
    by (rule age_purge_deletes_later_event_of_day [OF demo_sqlite_text_format _ _ _ _ _ mem])
       (simp_all add: in_text_range_def utc_day_def demo_db_world_def demo_world_def
          demo_event_row_def demo_externs_def)
qed

end
