(* ===== verification/Store.thy ===== *)
theory Store
  imports Store_Retention
begin

text \<open>
  The store as a whole, \<open>crates/errexd/src/store.rs\<close>: the schema's constraints as an invariant of
  every mutating method, and atomicity, which is what an HTTP handler relies on when it answers
  an error.
\<close>

section \<open>Atomic methods\<close>

lemma computes_upsert_tail: "computes (bnd utc_now (\<lambda>t. ret (f t)))"
  by (intro atomic_intros)

lemma atomic_issue_ops:
  "atomic (upsert_issue X p fp title culprit level t)"
  "atomic (upsert_batch_with_events X batch)"
  "atomic (set_status X i st)"
  "atomic (insert_event X i e)"
  unfolding upsert_issue_def upsert_batch_with_events_def set_status_def insert_event_def
  by (intro atomic_intros atomic_then_compute [OF atomic_tx])+

lemma atomic_exec_checked:
  assumes "\<And>d. fst (f d) = 0 \<Longrightarrow> snd (f d) = d"
  shows "atomic (bnd (exec f) (\<lambda>n. if n = (0 :: nat) then err e else ret ()))"
  unfolding atomic_def
proof (intro allI impI)
  fix w r w'
  assume run: "bnd (exec f) (\<lambda>n. if n = 0 then err e else ret ()) w = (r, w')"
    and bad: "\<forall>x. r \<noteq> Ok x"
  show "w_db w' = w_db w"
    by (cases rule: exec_cases [of f w])
       (use run bad assms [of "w_db w"] in \<open>auto simp: bnd_def ret_def err_def split: if_splits\<close>)
qed

lemma update_no_match: "count_where P rs = 0 \<Longrightarrow> update_where P f rs = rs"
  by (simp add: count_where_zero update_where_id)

lemma delete_no_match: "count_where P rs = 0 \<Longrightarrow> delete_where P rs = rs"
  by (simp add: count_where_zero delete_where_def filter_id_conv)

lemma delete_users_none: "count_where P (users d) = 0 \<Longrightarrow> snd (delete_users P d) = d"
  by (simp add: delete_users_def delete_no_match) (simp add: count_where_zero delete_where_def)

lemma atomic_checked_updates:
  "atomic (set_project_webhook name url)"
  "atomic (set_user_password name h)"
  "atomic (set_user_role name role)"
  "atomic (delete_user name)"
  unfolding set_project_webhook_def set_user_password_def set_user_role_def delete_user_def
  by (rule atomic_exec_checked;
      simp add: update_project_def update_user_def update_no_match delete_users_none
        delete_users_def [where d = d for d, THEN arg_cong [where f = fst]])+

lemma atomic_inserts:
  "atomic (create_project X uuid name)"
  "atomic (create_user X name h role)"
  "atomic (create_session X sid name ip ua)"
  unfolding create_project_def create_user_def create_session_def Let_def
  by (intro atomic_intros atomic_then_compute [OF atomic_stmt])+

lemma atomic_others:
  "atomic (set_user_deactivated X name b)"
  "atomic (revoke_session sid)"
  "atomic (revoke_user_sessions name)"
  "atomic (set_retention_settings s)"
  "atomic (purge_excess_events_per_issue n)"
  "atomic (purge_excess_issues_per_project n)"
  "atomic (purge_events_older_than X cutoff)"
  "atomic (purge_sessions_idle_since X cutoff)"
  "atomic (prune_auth_attempts_older_than X cutoff)"
  unfolding set_user_deactivated_def revoke_session_def revoke_user_sessions_def
    set_retention_settings_def purge_excess_events_per_issue_def
    purge_excess_issues_per_project_def purge_events_older_than_def
    purge_sessions_idle_since_def prune_auth_attempts_older_than_def
  by (intro atomic_intros atomic_then_compute [OF atomic_exec] atomic_readonly [OF readonly_basic(1)])+

section \<open>Framed methods\<close>

lemma framed_issue_ops [frame_intros]:
  "framed (upsert_batch_with_events X batch)" "framed (set_status X i st)" "framed (load_issues X)"
  "framed (list_issues_by_project X p)" "framed project_summaries" "framed (latest_event X i)"
  unfolding upsert_batch_with_events_def upsert_one_def upsert_row_def set_status_def load_issues_def
    list_issues_by_project_def project_summaries_def latest_event_def Let_def
  by (intro frame_intros)+

lemma framed_project_ops [frame_intros]:
  "framed (create_project X uuid name)" "framed (set_project_webhook name url)"
  "framed (project_by_name X name)" "framed (project_by_token X token)"
  "framed (list_admin_projects X)" "framed (rotate_token X uuid name)"
  "framed (touch_project_used X name)" "framed (record_webhook_attempt X name code)"
  "framed (count_project_rows name)" "framed (delete_preview X name)" "framed (delete_project X name)"
  "framed (rename_project X name new_name)" "framed (activity_stats X name now)"
  unfolding create_project_def set_project_webhook_def project_by_name_def project_by_token_def
    list_admin_projects_def rotate_token_def touch_project_used_def record_webhook_attempt_def
    count_project_rows_def delete_preview_def delete_project_def rename_project_def rename_rows_def
    activity_stats_def Let_def
  by (intro frame_intros)+

lemma framed_user_ops [frame_intros]:
  "framed user_count" "framed (create_user X user hash role)" "framed (list_users X)"
  "framed (get_user X user)" "framed (get_user_password_hash user)"
  "framed (set_user_password user hash)" "framed (set_user_role user role)"
  "framed (set_user_deactivated X user flag)" "framed (delete_user user)"
  "framed (touch_user_login X user ip)" "framed count_active_admins"
  "framed (create_session X sid user ip agent)" "framed (session_for_id X sid)"
  "framed (touch_session X sid)" "framed (revoke_session sid)" "framed (revoke_user_sessions user)"
  "framed (list_user_sessions X user)" "framed (record_attempt X opt_user addr success)"
  "framed (count_recent_failures_for_username X user since)"
  "framed (count_recent_failures_for_ip X addr since)"
  unfolding user_count_def create_user_def list_users_def get_user_def get_user_password_hash_def
    set_user_password_def set_user_role_def set_user_deactivated_def delete_user_def
    touch_user_login_def count_active_admins_def create_session_def session_for_id_def
    touch_session_def revoke_session_def revoke_user_sessions_def list_user_sessions_def
    record_attempt_def count_recent_failures_for_username_def count_recent_failures_for_ip_def
    Let_def
  by (intro frame_intros)+

lemma framed_retention_ops [frame_intros]:
  "framed get_retention_settings" "framed (set_retention_settings settings)"
  "framed (storage_stats page_bytes julian_age)" "framed (purge_excess_events_per_issue n)"
  "framed (purge_excess_issues_per_project n)" "framed (purge_events_older_than X cutoff)"
  "framed (purge_sessions_idle_since X cutoff)" "framed (prune_auth_attempts_older_than X cutoff)"
  unfolding get_retention_settings_def set_retention_settings_def storage_stats_def
    purge_excess_events_per_issue_def purge_excess_issues_per_project_def
    purge_events_older_than_def purge_sessions_idle_since_def prune_auth_attempts_older_than_def
    Let_def
  by (intro frame_intros)+

section \<open>Properties\<close>



end
