(* ===== verification/Login_Guard.thy ===== *)
theory Login_Guard
  imports Store
begin

text \<open>
  The pieces of a login that touch no table: the lockout policy of
  \<open>crates/errexd/src/lockout.rs\<close>, and the password and session-id helpers of
  \<open>crates/errexd/src/crypto.rs\<close>. Argon2 and the random sources are third-party: the hash and its
  check are fields of \<open>externs\<close>, a salt and the bytes of a UUID are arguments.
\<close>

section \<open>Lockout\<close>

record lockout_policy =
  lp_user_threshold :: int
  lp_ip_threshold :: int
  lp_window :: duration
  lp_cooldown :: duration

definition default_policy :: lockout_policy where
  "default_policy = \<lparr>lp_user_threshold = 5, lp_ip_threshold = 20,
     lp_window = 15 * 60 * 1000000000, lp_cooldown = 15 * 60 * 1000000000\<rparr>"

datatype lockout_decision = Allow | BlockedByUser int | BlockedByIp int

definition retry_after_secs :: "lockout_decision \<Rightarrow> int option" where
  "retry_after_secs d =
     (case d of Allow \<Rightarrow> None | BlockedByUser s \<Rightarrow> Some s | BlockedByIp s \<Rightarrow> Some s)"

definition lockout_evaluate :: "lockout_policy \<Rightarrow> int \<Rightarrow> int \<Rightarrow> lockout_decision" where
  "lockout_evaluate p user_failures ip_failures =
     (let cooldown_secs = max (trunc_div (lp_cooldown p) 1000000000) 1
      in if user_failures \<ge> lp_user_threshold p then BlockedByUser cooldown_secs
         else if ip_failures \<ge> lp_ip_threshold p then BlockedByIp cooldown_secs
         else Allow)"

lemma evaluate_default:
  "retry_after_secs (lockout_evaluate default_policy u i) =
     (if u \<ge> 5 \<or> i \<ge> 20 then Some 900 else None)"
  by (simp add: lockout_evaluate_def default_policy_def retry_after_secs_def trunc_div_def)

section \<open>Passwords and session ids\<close>

definition hash_password :: "externs \<Rightarrow> string \<Rightarrow> string \<Rightarrow> string option" where
  "hash_password X salt plain = x_hash X salt plain"

definition verify_password :: "externs \<Rightarrow> string \<Rightarrow> string \<Rightarrow> bool" where
  "verify_password X stored_hash plain =
     (case x_verify X stored_hash plain of Some ok \<Rightarrow> ok | None \<Rightarrow> False)"

definition generate_session_id :: "bytes \<times> bytes \<Rightarrow> string" where
  "generate_session_id us = uuid_simple (fst us) @ uuid_simple (snd us)"

definition validate_password_strength :: "string \<Rightarrow> (string, unit) sum" where
  "validate_password_strength p =
     (if chars_count p < 12 then Inl ''password must be at least 12 characters''
      else if chars_count p > 256 then Inl ''password must be at most 256 characters''
      else Inr ())"

lemma validate_password_iff:
  "validate_password_strength p = Inr () \<longleftrightarrow> 12 \<le> chars_count p \<and> chars_count p \<le> 256"
  by (simp add: validate_password_strength_def)

lemma length_uuid_simple: "length (uuid_simple u) = 2 * length u"
  by (induction u) (simp_all add: uuid_simple_def hex_byte_def)

lemma byte_nibbles: "byte c div 16 < 16" "byte c mod 16 < 16"
  using nat_of_char_less_256 [of c] less_mult_imp_div_less [of "byte c" 16 16] by simp_all

lemma uuid_simple_digits: "list_all is_hex_digit (uuid_simple u)"
proof (induction u)
  case (Cons c u)
  with byte_nibbles [of c] show ?case
    by (simp add: uuid_simple_def hex_byte_def is_hex_digit_hex_digit)
qed (simp add: uuid_simple_def)

lemma uuid_simple_inj: "length u = length v \<Longrightarrow> uuid_simple u = uuid_simple v \<Longrightarrow> u = v"
proof (induction u v rule: list_induct2)
  case (Cons c u d v)
  from Cons.prems have "hex_digit (byte c div 16) = hex_digit (byte d div 16)"
    "hex_digit (byte c mod 16) = hex_digit (byte d mod 16)" and rest: "uuid_simple u = uuid_simple v"
    by (simp_all add: uuid_simple_def hex_byte_def)
  then have "byte c div 16 = byte d div 16" "byte c mod 16 = byte d mod 16"
    using hex_digit_inj byte_nibbles by metis+
  then have "byte c = byte d" by (metis div_mult_mod_eq)
  with rest Cons.IH show ?case by simp
qed simp

section \<open>Properties\<close>

text \<open>Session cookies are unguessable strings of the right shape. The id is 64 lower-case
  hexadecimal digits, and two ids agree only when all 32 random bytes do.\<close>

theorem session_id_format:
  assumes "length (fst us) = 16" "length (snd us) = 16" "length (fst vs) = 16" "length (snd vs) = 16"
  shows "length (generate_session_id us) = 64 \<and> list_all is_hex_digit (generate_session_id us) \<and>
    (generate_session_id us = generate_session_id vs \<longleftrightarrow> us = vs)"
  using assms uuid_simple_inj [of "fst us" "fst vs"] uuid_simple_inj [of "snd us" "snd vs"]
  by (auto simp: generate_session_id_def length_uuid_simple uuid_simple_digits prod_eq_iff)

theorem session_id_format_witness:
  "generate_session_id (replicate 16 (CHR 0x00), replicate 16 (CHR 0x01)) \<noteq>
   generate_session_id (replicate 16 (CHR 0x01), replicate 16 (CHR 0x00))"
  using session_id_format [of "(replicate 16 (CHR 0x00), replicate 16 (CHR 0x01))"
      "(replicate 16 (CHR 0x01), replicate 16 (CHR 0x00))"]
  by simp

end
