(* ===== verification/Rate_Limit.thy ===== *)
theory Rate_Limit
  imports Prelude Complex_Main
begin

text \<open>
  The per-project token bucket of \<open>crates/errexd/src/rate_limit.rs\<close>. Instants are nanoseconds; an
  \<open>f64\<close> is the rational it denotes, and the rounding of each floating point operation is the
  parameter \<open>rnd\<close>. The map of buckets grows with the projects seen.
\<close>

record token_bucket =
  tokens :: rat
  last_refill :: time

record rate_limiter =
  buckets :: "string \<Rightarrow> token_bucket option"
  capacity :: rat
  refill_per_sec :: rat

definition new_bucket :: "rat \<Rightarrow> time \<Rightarrow> token_bucket" where
  "new_bucket cap now = \<lparr>tokens = cap, last_refill = now\<rparr>"

text \<open>\<open>saturating_duration_since\<close> is zero for an instant in the future.\<close>

definition elapsed_secs :: "(rat \<Rightarrow> rat) \<Rightarrow> time \<Rightarrow> time \<Rightarrow> rat" where
  "elapsed_secs rnd now since = rnd (of_int (max 0 (now - since)) / 1000000000)"

definition try_acquire ::
  "(rat \<Rightarrow> rat) \<Rightarrow> rat \<Rightarrow> rat \<Rightarrow> time \<Rightarrow> token_bucket \<Rightarrow> bool \<times> token_bucket" where
  "try_acquire rnd cap rate now b =
     (let elapsed = elapsed_secs rnd now (last_refill b);
          b = (if elapsed > 0
               then b\<lparr>tokens := min (rnd (tokens b + rnd (elapsed * rate))) cap, last_refill := now\<rparr>
               else b)
      in if tokens b \<ge> 1 then (True, b\<lparr>tokens := rnd (tokens b - 1)\<rparr>) else (False, b))"

definition new_limiter :: "(rat \<Rightarrow> rat) \<Rightarrow> u32 \<Rightarrow> u32 \<Rightarrow> rate_limiter" where
  "new_limiter rnd per_min burst =
     \<lparr>buckets = (\<lambda>_. None), capacity = of_nat (unat (max burst 1)),
      refill_per_sec = rnd (of_nat (unat per_min) / 60)\<rparr>"

definition limiter_enabled :: "rate_limiter \<Rightarrow> bool" where
  "limiter_enabled l \<longleftrightarrow> refill_per_sec l > 0"

definition rate_check ::
  "(rat \<Rightarrow> rat) \<Rightarrow> string \<Rightarrow> time \<Rightarrow> rate_limiter \<Rightarrow> bool \<times> rate_limiter" where
  "rate_check rnd project now l =
     (if \<not> limiter_enabled l then (True, l)
      else
        let b = (case buckets l project of Some b \<Rightarrow> b | None \<Rightarrow> new_bucket (capacity l) now);
            (ok, b') = try_acquire rnd (capacity l) (refill_per_sec l) now b
        in (ok, l\<lparr>buckets := (buckets l)(project \<mapsto> b')\<rparr>))"

section \<open>A run of requests\<close>

fun run_checks ::
  "(rat \<Rightarrow> rat) \<Rightarrow> (string \<times> time) list \<Rightarrow> rate_limiter \<Rightarrow> bool list \<times> rate_limiter" where
  "run_checks rnd [] l = ([], l)"
| "run_checks rnd ((p, t) # rs) l =
     (let (ok, l') = rate_check rnd p t l; (oks, l'') = run_checks rnd rs l' in (ok # oks, l''))"

definition accepted_of :: "string \<Rightarrow> (string \<times> time) list \<Rightarrow> bool list \<Rightarrow> nat" where
  "accepted_of p rs oks = length (filter (\<lambda>((q, t), ok). q = p \<and> ok) (zip rs oks))"

text \<open>
  What is asked of the rounding: up to \<open>B\<close> it adds at most \<open>eps\<close>, and it keeps signs. For \<open>f64\<close> and a capacity below
  \<open>2 ^ 32\<close>, \<open>eps\<close> may be \<open>2 ^ - 20\<close>.
\<close>

definition rounds_within :: "rat \<Rightarrow> rat \<Rightarrow> (rat \<Rightarrow> rat) \<Rightarrow> bool" where
  "rounds_within B eps rnd \<longleftrightarrow>
     0 \<le> eps \<and> eps \<le> 1 \<and> (\<forall>x \<le> B. rnd x \<le> x + eps) \<and> (\<forall>x \<ge> 0. 0 \<le> rnd x)"

text \<open>The most that one request can add to a bucket beyond what the elapsed time pays for.\<close>

definition slack :: "rat \<Rightarrow> rat \<Rightarrow> rat" where
  "slack rate eps = (rate + 3) * eps"

definition secs :: "time \<Rightarrow> rat" where
  "secs t = of_int t / 1000000000"

lemma refill_bound:
  assumes rnd: "rounds_within B eps rnd" and "cap \<le> B" and "0 < rate" "0 \<le> tok"
    and "since \<le> now" and "secs (now - since) \<le> B"
  shows "min (rnd (tok + rnd (elapsed_secs rnd now since * rate))) cap
    \<le> tok + secs (now - since) * rate + (rate + 2) * eps"
proof -
  let ?e = "elapsed_secs rnd now since"
  have eps: "0 \<le> eps" and up: "x \<le> B \<Longrightarrow> rnd x \<le> x + eps" for x
    using rnd by (auto simp: rounds_within_def)
  have "?e \<le> secs (now - since) + eps"
    using up [of "secs (now - since)"] assms(5,6) by (simp add: elapsed_secs_def secs_def)
  then have er: "?e * rate \<le> secs (now - since) * rate + eps * rate"
    using assms(3) by (simp add: distrib_right [symmetric])
  show ?thesis
  proof (cases "?e * rate \<le> B")
    case False
    then have "cap \<le> secs (now - since) * rate + eps * rate" using er assms(2) by linarith
    then show ?thesis using assms(4) eps by (simp add: algebra_simps min_le_iff_disj)
  next
    case True
    then have r: "rnd (?e * rate) \<le> secs (now - since) * rate + eps * rate + eps"
      using up [OF True] er by linarith
    show ?thesis
    proof (cases "tok + rnd (?e * rate) \<le> B")
      case False
      then have "cap \<le> tok + (secs (now - since) * rate + eps * rate + eps)"
        using r assms(2) by linarith
      then show ?thesis using eps by (simp add: algebra_simps min_le_iff_disj)
    next
      case True
      then have "rnd (tok + rnd (?e * rate)) \<le> tok + (secs (now - since) * rate + eps * rate + eps) + eps"
        using up [OF True] r by linarith
      then show ?thesis by (simp add: algebra_simps min_le_iff_disj)
    qed
  qed
qed

lemma try_acquire_step:
  assumes rnd: "rounds_within B eps rnd" and cap: "0 \<le> cap" "cap \<le> B" and rate: "0 < rate"
    and b: "0 \<le> tokens b" "tokens b \<le> cap" "last_refill b \<le> now" "secs (now - last_refill b) \<le> B"
    and run: "try_acquire rnd cap rate now b = (ok, b')"
  shows "of_bool ok + tokens b' \<le> tokens b + secs (last_refill b' - last_refill b) * rate + slack rate eps"
    and "0 \<le> tokens b'" and "tokens b' \<le> cap" and "last_refill b \<le> last_refill b'" and "last_refill b' \<le> now"
proof -
  let ?e = "elapsed_secs rnd now (last_refill b)"
  let ?t = "if ?e > 0 then min (rnd (tokens b + rnd (?e * rate))) cap else tokens b"
  let ?s = "if ?e > 0 then now else last_refill b"
  have eps: "0 \<le> eps" and eps1: "eps \<le> 1"
    and up: "x \<le> B \<Longrightarrow> rnd x \<le> x + eps" and pos: "0 \<le> x \<Longrightarrow> 0 \<le> rnd x" for x
    using rnd by (auto simp: rounds_within_def)
  have t: "?t \<le> tokens b + secs (?s - last_refill b) * rate + (rate + 2) * eps"
    using refill_bound [OF rnd cap(2) rate b(1,3,4)] rate eps by (simp add: secs_def)
  have t0: "0 \<le> ?t" "?t \<le> cap"
    using b cap(1) rate by (auto intro!: pos add_nonneg_nonneg mult_nonneg_nonneg)
  have fields: "ok = (1 \<le> ?t)" "tokens b' = (if 1 \<le> ?t then rnd (?t - 1) else ?t)" "last_refill b' = ?s"
    using run by (auto simp: try_acquire_def Let_def split: if_splits)
  have less: "1 \<le> ?t \<Longrightarrow> rnd (?t - 1) \<le> ?t - 1 + eps"
    using t0(2) cap(2) by (intro up) linarith
  show "of_bool ok + tokens b' \<le> tokens b + secs (last_refill b' - last_refill b) * rate + slack rate eps"
  proof (cases "1 \<le> ?t")
    case True
    with less t show ?thesis
      unfolding fields slack_def distrib_right by simp
  next
    case False
    with t eps show ?thesis unfolding fields slack_def distrib_right by simp
  qed
  show "0 \<le> tokens b'" unfolding fields using t0 pos by auto
  show "tokens b' \<le> cap" unfolding fields using t0 less eps1 by fastforce
  show "last_refill b \<le> last_refill b'" "last_refill b' \<le> now" unfolding fields using b(3) by auto
qed

section \<open>The bound over a run\<close>

lemma rate_check_buckets:
  "limiter_enabled l \<Longrightarrow> rate_check rnd q t l = (ok, l') \<Longrightarrow>
   capacity l' = capacity l \<and> refill_per_sec l' = refill_per_sec l \<and> limiter_enabled l' \<and>
   (p \<noteq> q \<longrightarrow> buckets l' p = buckets l p) \<and>
   (\<exists>b'. buckets l' q = Some b' \<and> try_acquire rnd (capacity l) (refill_per_sec l) t
      (case buckets l q of Some b \<Rightarrow> b | None \<Rightarrow> new_bucket (capacity l) t) = (ok, b'))"
  by (auto simp: rate_check_def limiter_enabled_def Let_def split: prod.splits)

lemma slack_nonneg: "0 \<le> eps \<Longrightarrow> 0 < rate \<Longrightarrow> 0 \<le> slack rate eps"
  by (simp add: slack_def)

lemma secs_mono: "a \<le> b \<Longrightarrow> secs a \<le> secs b"
  by (simp add: secs_def divide_right_mono)

lemma secs_add: "secs (a - b) + secs (b - c) = secs (a - c)"
  by (simp add: secs_def field_simps)

lemma accepted_of_Cons:
  "accepted_of p ((q, t) # rs) (ok # oks) = (if q = p \<and> ok then 1 else 0) + accepted_of p rs oks"
  by (simp add: accepted_of_def)

lemma run_bound:
  assumes "rounds_within B eps rnd" and "limiter_enabled l" and "0 \<le> capacity l" "capacity l \<le> B"
    and "buckets l p = Some b" and "0 \<le> tokens b" "tokens b \<le> capacity l"
    and "sorted (map snd rs)" and "\<forall>(q, t) \<in> set rs. last_refill b \<le> t \<and> t \<le> T"
    and "last_refill b \<le> T" and "secs (T - last_refill b) \<le> B"
  shows "of_nat (accepted_of p rs (fst (run_checks rnd rs l)))
    \<le> tokens b + secs (T - last_refill b) * refill_per_sec l
       + of_nat (length rs) * slack (refill_per_sec l) eps"
  using assms
proof (induction rs arbitrary: l b)
  case Nil
  then have "0 \<le> secs (T - last_refill b)" by (simp add: secs_def)
  with Nil show ?case by (simp add: accepted_of_def limiter_enabled_def)
next
  case (Cons r rs)
  obtain q t where r: "r = (q, t)" by force
  obtain ok l' where check: "rate_check rnd q t l = (ok, l')" by force
  note l' = rate_check_buckets [OF Cons.prems(2) check, of p]
  let ?rate = "refill_per_sec l"
  have rate: "0 < ?rate" using Cons.prems(2) by (simp add: limiter_enabled_def)
  have eps: "0 \<le> eps" using Cons.prems(1) by (simp add: rounds_within_def)
  note slack0 = slack_nonneg [OF eps rate]
  have run: "fst (run_checks rnd (r # rs) l) = ok # fst (run_checks rnd rs l')"
    using check r by (simp split: prod.split)
  show ?case
  proof (cases "q = p")
    case False
    then have "of_nat (accepted_of p rs (fst (run_checks rnd rs l')))
      \<le> tokens b + secs (T - last_refill b) * ?rate + of_nat (length rs) * slack ?rate eps"
      using Cons.IH [of l' b] Cons.prems l' by auto
    with False slack0 show ?thesis
      unfolding run unfolding r accepted_of_Cons by (simp add: distrib_right)
  next
    case True
    then obtain b' where b': "buckets l' p = Some b'"
      "try_acquire rnd (capacity l) ?rate t b = (ok, b')"
      using l' Cons.prems(5) by auto
    have t: "last_refill b \<le> t" "t \<le> T" using Cons.prems(9) r by auto
    have "secs (t - last_refill b) \<le> B"
      using secs_mono [of "t - last_refill b" "T - last_refill b"] t Cons.prems(11) by linarith
    note step = try_acquire_step [OF Cons.prems(1,3,4) rate Cons.prems(6,7) t(1) this b'(2)]
    have later: "\<forall>(q, t') \<in> set rs. last_refill b' \<le> t' \<and> t' \<le> T"
      using Cons.prems(8,9) r step(5) by fastforce
    have "secs (T - last_refill b') \<le> B"
      using secs_mono [of "T - last_refill b'" "T - last_refill b"] step(4) Cons.prems(11) by linarith
    then have "of_nat (accepted_of p rs (fst (run_checks rnd rs l')))
      \<le> tokens b' + secs (T - last_refill b') * ?rate + of_nat (length rs) * slack ?rate eps"
      using Cons.IH [of l' b'] Cons.prems l' b' step t later by auto
    moreover have "secs (last_refill b' - last_refill b) * ?rate + secs (T - last_refill b') * ?rate
        = secs (T - last_refill b) * ?rate"
      using secs_add [of T "last_refill b'" "last_refill b"] by (simp add: distrib_right [symmetric])
    ultimately show ?thesis
      using step(1) True unfolding run unfolding r accepted_of_Cons
      by (cases ok) (simp_all add: distrib_right)
  qed
qed

section \<open>Properties\<close>



text \<open>One project cannot use up another's budget, and a limit of zero admits everything.\<close>

theorem rate_limit_isolated:
  "case rate_check rnd q t l of
     (ok, l') \<Rightarrow> (if limiter_enabled l then \<forall>p. p = q \<or> buckets l' p = buckets l p
                  else ok \<and> l' = l)"
  by (auto simp: rate_check_def Let_def split: prod.split)

end
