(* ===== verification/Aspects.thy ===== *)
theory Aspects
  imports Store
begin

text \<open>
  Invariants that look at one part of the database only. A predicate that does not depend on the
  issue, event, session, attempt and settings tables is kept by every method of
  \<open>crates/errexd/src/store.rs\<close> that writes nothing else; one that looks only at users is kept by the
  project methods as well, and one that looks only at projects by the user methods. The three
  interfaces give these facts once; the invariants of the daemon interpret them.
\<close>

locale table_aspect =
  fixes J :: "db \<Rightarrow> bool"
  assumes other_tables:
    "J (d\<lparr>issues := is\<rparr>) = J d" "J (d\<lparr>issue_seq := n\<rparr>) = J d" "J (d\<lparr>events := es\<rparr>) = J d"
    "J (d\<lparr>event_seq := n\<rparr>) = J d" "J (d\<lparr>sessions := ss\<rparr>) = J d" "J (d\<lparr>attempts := as\<rparr>) = J d"
    "J (d\<lparr>attempt_seq := n\<rparr>) = J d" "J (d\<lparr>retention := r\<rparr>) = J d"
begin

lemma keeps_statements [pres_intros]:
  "preserves J (exec (insert_issue_on_conflict_do_nothing p fp title culprit level t))"
  "preserves J (exec (update_issue p fp g))"
  "preserves J (exec (update_issue_status i st))"
  "preserves J (stmt (insert_event_on_conflict_do_nothing t i eid payload))"
  "preserves J (exec (delete_issues P))"
  "preserves J (exec (delete_events Q))"
  "preserves J (stmt (insert_session s))"
  "preserves J (exec (update_session sid h))"
  "preserves J (exec (delete_sessions R))"
  "preserves J (exec (insert_attempt user addr ts s'))"
  "preserves J (exec (delete_attempts_before ts))"
  "preserves J (stmt (rename_project_issues old new))"
  by (auto intro!: preserves_exec preserves_stmt
      simp: insert_issue_on_conflict_do_nothing_def update_issue_def update_issue_status_def
        insert_event_on_conflict_do_nothing_def delete_issues_def delete_events_def
        insert_session_def update_session_def delete_sessions_def insert_attempt_def
        delete_attempts_before_def rename_project_issues_def other_tables Let_def
      split: if_splits option.splits)

lemma keeps_issue_ops [pres_intros]:
  "preserves J (upsert_batch_with_events X batch)" "preserves J (set_status X i st)"
  "preserves J (load_issues X)" "preserves J (list_issues_by_project X p)"
  "preserves J project_summaries" "preserves J (latest_event X i)"
  unfolding upsert_batch_with_events_def upsert_one_def upsert_row_def set_status_def load_issues_def
    list_issues_by_project_def project_summaries_def latest_event_def Let_def
  by (intro pres_intros)+

lemma keeps_reads [pres_intros]:
  "preserves J (project_by_name X name)" "preserves J (project_by_token X token)"
  "preserves J (list_admin_projects X)" "preserves J (count_project_rows name)"
  "preserves J (delete_preview X name)" "preserves J (activity_stats X name now)"
  "preserves J user_count" "preserves J (list_users X)" "preserves J (get_user X user)"
  "preserves J (get_user_password_hash user)" "preserves J count_active_admins"
  "preserves J (storage_stats page_bytes julian_age)" "preserves J get_retention_settings"
  unfolding project_by_name_def project_by_token_def list_admin_projects_def count_project_rows_def
    delete_preview_def activity_stats_def user_count_def list_users_def get_user_def
    get_user_password_hash_def count_active_admins_def storage_stats_def get_retention_settings_def
    Let_def
  by (intro pres_intros)+

lemma keeps_session_ops [pres_intros]:
  "preserves J (create_session X sid user ip agent)" "preserves J (session_for_id X sid)"
  "preserves J (touch_session X sid)" "preserves J (revoke_session sid)"
  "preserves J (revoke_user_sessions user)" "preserves J (list_user_sessions X user)"
  "preserves J (record_attempt X opt_user addr success)"
  "preserves J (count_recent_failures_for_username X user since)"
  "preserves J (count_recent_failures_for_ip X addr since)"
  unfolding create_session_def session_for_id_def touch_session_def revoke_session_def
    revoke_user_sessions_def list_user_sessions_def record_attempt_def
    count_recent_failures_for_username_def count_recent_failures_for_ip_def Let_def
  by (intro pres_intros)+

lemma keeps_retention_ops [pres_intros]:
  "preserves J (set_retention_settings s)" "preserves J (purge_excess_events_per_issue n)"
  "preserves J (purge_excess_issues_per_project n)" "preserves J (purge_events_older_than X cutoff)"
  "preserves J (purge_sessions_idle_since X cutoff)"
  "preserves J (prune_auth_attempts_older_than X cutoff)"
  unfolding set_retention_settings_def purge_excess_events_per_issue_def
    purge_excess_issues_per_project_def purge_events_older_than_def purge_sessions_idle_since_def
    prune_auth_attempts_older_than_def
  by (intro pres_intros preserves_exec; simp add: delete_issues_def other_tables)+

end

locale user_aspect = table_aspect +
  assumes J_projects: "J (d\<lparr>projects := ps\<rparr>) = J d"
begin

lemma keeps_project_statements [pres_intros]:
  "preserves J (stmt (insert_project p))" "preserves J (exec (update_project name f))"
  "preserves J (exec (delete_project_row name))" "preserves J (stmt (rename_project_row old new))"
  by (auto intro!: preserves_exec preserves_stmt
      simp: insert_project_def update_project_def delete_project_row_def rename_project_row_def
        J_projects split: if_splits)

lemma keeps_project_ops [pres_intros]:
  "preserves J (create_project X uuid name)" "preserves J (set_project_webhook name url)"
  "preserves J (rotate_token X uuid name)" "preserves J (touch_project_used X name)"
  "preserves J (record_webhook_attempt X name code)" "preserves J (delete_project X name)"
  "preserves J (rename_project X name new_name)"
  unfolding create_project_def set_project_webhook_def rotate_token_def touch_project_used_def
    record_webhook_attempt_def delete_project_def rename_project_def rename_rows_def Let_def
  by (intro pres_intros)+

end

locale project_aspect = table_aspect +
  assumes J_users: "J (d\<lparr>users := us\<rparr>) = J d"
begin

lemma keeps_user_statements [pres_intros]:
  "preserves J (stmt (insert_user u))" "preserves J (exec (update_user name f))"
  "preserves J (exec (delete_users P))"
  by (auto intro!: preserves_exec preserves_stmt
      simp: insert_user_def update_user_def delete_users_def J_users other_tables split: if_splits)

lemma keeps_user_ops [pres_intros]:
  "preserves J (create_user X user hash role)" "preserves J (set_user_password user hash)"
  "preserves J (set_user_role user role)" "preserves J (set_user_deactivated X user flag)"
  "preserves J (delete_user user)" "preserves J (touch_user_login X user ip)"
  unfolding create_user_def set_user_password_def set_user_role_def set_user_deactivated_def
    delete_user_def touch_user_login_def Let_def
  by (intro pres_intros)+

end

section \<open>The aspects of the daemon\<close>

text \<open>Some user satisfies a predicate; no users; every user does.\<close>

interpretation some_user: user_aspect "\<lambda>d. list_ex P (users d)" for P
  by unfold_locales simp_all

interpretation user_or_none: user_aspect "\<lambda>d. users d = [] \<or> list_ex P (users d)" for P
  by unfold_locales simp_all

interpretation users_are: user_aspect "\<lambda>d. users d = U" for U
  by unfold_locales simp_all

interpretation all_projects: project_aspect "\<lambda>d. list_all P (projects d)" for P
  by unfold_locales simp_all

end
