(* ===== verification/Http.thy ===== *)
theory Http
  imports Login_Guard Rate_Limit Aspects
begin

text \<open>
  What the HTTP handlers of \<open>crates/errexd/src/ingest.rs\<close> and \<open>auth.rs\<close> share: request headers,
  responses, the configuration and channels of \<open>AppState\<close>, and the step from a handler's
  \<open>Result<Response, ApiError>\<close> to a response. Routing, JSON extraction and the response headers of
  \<open>build_router\<close> belong to axum and tower-http: a handler gets its extracted arguments, a body that
  does not deserialize being \<open>None\<close>.
\<close>

section \<open>Requests\<close>

text \<open>Header names are lower case; \<open>get\<close> finds the first value and \<open>to_str\<close> needs visible ASCII.\<close>

type_synonym headers = "(string \<times> bytes) list"

definition visible_ascii :: "bytes \<Rightarrow> bool" where
  "visible_ascii v \<longleftrightarrow> list_all (\<lambda>c. byte c = 9 \<or> (32 \<le> byte c \<and> byte c \<le> 126)) v"

definition header_str :: "string \<Rightarrow> headers \<Rightarrow> string option" where
  "header_str name hs =
     (case map_of hs name of None \<Rightarrow> None | Some v \<Rightarrow> if visible_ascii v then Some v else None)"

section \<open>Responses\<close>

record admin_project_view =
  av_name :: string
  av_token :: string
  av_webhook_url :: "string option"
  av_created_at :: time
  av_last_used_at :: "time option"
  av_dsn :: string
  av_ingest_url :: string
  av_last_webhook_status :: "int option"
  av_last_webhook_at :: "time option"

record metrics_view =
  mv_events_accepted :: u64
  mv_events_rejected_rate_limit :: u64
  mv_ws_lagged_total :: u64
  mv_ingest_channel :: "nat \<times> nat"
  mv_webhook_channel :: "nat \<times> nat"
  mv_subscribers :: nat
  mv_rss_kb :: "u64 option"

text \<open>\<open>PAsset\<close> is a file of the single-page application with its content type.\<close>

datatype payload =
    PNone
  | PText string
  | PHealth
  | PIssue issue
  | PIssues "issue list"
  | PSummaries "(string \<times> nat) list"
  | PEvent stored_event
  | PProject admin_project_view
  | PProjects "admin_project_view list"
  | PRetention retention_settings
  | PStorage storage_summary
  | PDeleted delete_summary
  | PActivity activity_summary
  | PUser user
  | PUsers "user list"
  | PSessions "session list"
  | PRevoked nat
  | PAccount string role
  | PSetup bool bool
  | PMetrics metrics_view
  | PAsset string bytes

record response =
  re_status :: nat
  re_payload :: payload
  re_cookie :: "string option"
  re_retry_after :: "int option"

definition reply :: "nat \<Rightarrow> payload \<Rightarrow> response" where
  "reply s p = \<lparr>re_status = s, re_payload = p, re_cookie = None, re_retry_after = None\<rparr>"

definition plain :: "nat \<Rightarrow> string \<Rightarrow> response" where
  "plain s t = reply s (PText t)"

definition internal_error :: response where
  "internal_error = plain 500 ''internal error''"

lemma reply_simps [simp]:
  "re_status (reply s p) = s" "re_payload (reply s p) = p" "re_cookie (reply s p) = None"
  "re_status (plain s t) = s" "re_cookie (plain s t) = None" "re_status internal_error = 500"
  "re_cookie internal_error = None"
  by (simp_all add: reply_def plain_def internal_error_def)

text \<open>\<open>ApiError::into_response\<close>: an error of the store is a 500 that says nothing more.\<close>

definition respond :: "('z, response) op \<Rightarrow> ('z, response) op" where
  "respond m = bnd (try_op m) (\<lambda>r. case r of Inl e \<Rightarrow> ret internal_error | Inr x \<Rightarrow> ret x)"

section \<open>The application state\<close>

record app_config =
  cf_require_auth :: bool
  cf_setup_token :: "string option"
  cf_public_url :: string
  cf_dev_mode :: bool
  cf_trust_proxy_headers :: bool

record counters =
  mt_events_accepted :: u64
  mt_events_rejected_rate_limit :: u64
  mt_ws_lagged_total :: u64

record ingest_event =
  ig_project :: string
  ig_fingerprint :: fingerprint
  ig_title :: string
  ig_level :: "string option"
  ig_culprit :: "string option"
  ig_exception_type :: string
  ig_first_frame :: string
  ig_received_at :: time
  ig_event_id :: string
  ig_payload :: string

text \<open>
  The server's world: the store's, and the shared parts of \<open>AppState\<close>. The ingest queue is the
  bounded channel to the digest task; \<open>sv_fanout\<close> is everything sent on the broadcast channel, in
  order; \<open>sv_instant\<close> is the monotonic clock.
\<close>

record server = world +
  sv_queue :: "ingest_event list"
  sv_queue_open :: bool
  sv_fanout :: "server_message list"
  sv_limiter :: rate_limiter
  sv_counters :: counters
  sv_instant :: time

definition broadcast :: "server_message \<Rightarrow> ('z server_ext, unit) op" where
  "broadcast m w = (Ok (), w\<lparr>sv_fanout := sv_fanout w @ [m]\<rparr>)"

definition send_event :: "ingest_event \<Rightarrow> ('z server_ext, bool) op" where
  "send_event e w =
     (if sv_queue_open w then (Ok True, w\<lparr>sv_queue := sv_queue w @ [e]\<rparr>) else (Ok False, w))"

definition update_counters :: "(counters \<Rightarrow> counters) \<Rightarrow> ('z server_ext, unit) op" where
  "update_counters f w = (Ok (), w\<lparr>sv_counters := f (sv_counters w)\<rparr>)"

definition inc_accepted :: "counters \<Rightarrow> counters" where
  "inc_accepted c = c\<lparr>mt_events_accepted := mt_events_accepted c + 1\<rparr>"

definition inc_rejected_rate_limit :: "counters \<Rightarrow> counters" where
  "inc_rejected_rate_limit c = c\<lparr>mt_events_rejected_rate_limit := mt_events_rejected_rate_limit c + 1\<rparr>"

definition add_ws_lagged :: "u64 \<Rightarrow> counters \<Rightarrow> counters" where
  "add_ws_lagged n c = c\<lparr>mt_ws_lagged_total := mt_ws_lagged_total c + n\<rparr>"

definition limiter_check :: "(rat \<Rightarrow> rat) \<Rightarrow> string \<Rightarrow> ('z server_ext, bool) op" where
  "limiter_check rnd project w =
     (case rate_check rnd project (sv_instant w) (sv_limiter w) of
        (ok, l) \<Rightarrow> (Ok ok, w\<lparr>sv_limiter := l\<rparr>))"

lemma server_ops_keep_db:
  "w_db (snd (broadcast m w)) = w_db w" "w_db (snd (send_event e w)) = w_db w"
  "w_db (snd (update_counters f w)) = w_db w" "w_db (snd (limiter_check rnd p w)) = w_db w"
  by (simp_all add: broadcast_def send_event_def update_counters_def limiter_check_def
      split: prod.split)

lemma same_server:
  "world.more w' = world.more w \<Longrightarrow>
   sv_queue w' = sv_queue w \<and> sv_queue_open w' = sv_queue_open w \<and> sv_fanout w' = sv_fanout w \<and>
   sv_limiter w' = sv_limiter w \<and> sv_counters w' = sv_counters w \<and> sv_instant w' = sv_instant w \<and>
   server.more w' = server.more w"
  by (cases w; cases w') simp

lemma readonly_server_ops [atomic_intros]:
  "readonly (broadcast m)" "readonly (send_event e)" "readonly (update_counters f)"
  "readonly (limiter_check rnd p)"
  by (simp_all add: readonly_def server_ops_keep_db)

lemma preserves_readonly: "readonly m \<Longrightarrow> preserves J m"
  by (simp add: preserves_def readonly_def)

lemma preserves_respond [pres_intros]: "preserves J m \<Longrightarrow> preserves J (respond m)"
  unfolding respond_def by (intro pres_intros)

lemma readonly_try_op [atomic_intros]: "readonly m \<Longrightarrow> readonly (try_op m)"
  unfolding readonly_def try_op_def
  by (auto split: prod.split outcome.split) (metis snd_conv)+

section \<open>Symbolic execution of handlers\<close>

lemma wp_panic: "Q Panic w \<Longrightarrow> wp panic Q w"
  by (simp add: wp_def panic_def)

lemmas wp_store = wp_panic wp_bnd wp_ret wp_err wp_utc_now wp_query wp_exec wp_stmt wp_try_op wp_best_effort

lemma wp_case_option:
  "(x = None \<Longrightarrow> wp m Q w) \<Longrightarrow> (\<And>y. x = Some y \<Longrightarrow> wp (f y) Q w) \<Longrightarrow>
   wp (case x of None \<Rightarrow> m | Some y \<Rightarrow> f y) Q w"
  by (cases x) auto

lemma wp_if:
  "(b \<Longrightarrow> wp m Q w) \<Longrightarrow> (\<not> b \<Longrightarrow> wp m' Q w) \<Longrightarrow> wp (if b then m else m') Q w"
  by simp

lemma wp_case_sum:
  "(\<And>y. x = Inl y \<Longrightarrow> wp (f y) Q w) \<Longrightarrow> (\<And>y. x = Inr y \<Longrightarrow> wp (g y) Q w) \<Longrightarrow>
   wp (case x of Inl y \<Rightarrow> f y | Inr y \<Rightarrow> g y) Q w"
  by (cases x) auto

lemmas wp_intros = wp_store wp_case_option wp_case_sum wp_if

text \<open>Without faults every statement runs.\<close>

lemma wp_quiet:
  "quiet w \<Longrightarrow> Q (Ok (f (w_db w))) w \<Longrightarrow> wp (query f) Q w"
  "quiet w \<Longrightarrow> Q (Ok (fst (g (w_db w)))) (w\<lparr>w_db := snd (g (w_db w))\<rparr>) \<Longrightarrow> wp (exec g) Q w"
  by (simp_all add: wp_def query_quiet exec_quiet)

lemma wp_stmt_quiet:
  "quiet w \<Longrightarrow> (\<And>e. f (w_db w) = Inl e \<Longrightarrow> Q (Err (Sqlx e)) w) \<Longrightarrow>
   (\<And>x d. f (w_db w) = Inr (x, d) \<Longrightarrow> Q (Ok x) (w\<lparr>w_db := d\<rparr>)) \<Longrightarrow> wp (stmt f) Q w"
  by (auto simp: wp_def stmt_quiet run_stmt_def split: sum.split)

lemmas wp_quiet_intros = wp_panic wp_bnd wp_ret wp_err wp_utc_now wp_try_op wp_best_effort wp_case_option
  wp_case_sum wp_if wp_quiet wp_stmt_quiet

end
