(* ===== verification/Auth.thy ===== *)
theory Auth
  imports Http
begin

text \<open>
  Authentication, \<open>crates/errexd/src/auth.rs\<close>: the session cookie, the client address, the gates
  \<open>require_auth\<close> and \<open>require_admin\<close>, and the handlers for setup, login, logout and the current user.

  A handler is an operation on the server's world; the random bytes it draws (salt, session id) are
  arguments. The theory ends with the interface that the other handlers use, a gate that lets an
  administrator pass and turns everyone else away.
\<close>

section \<open>Cookies\<close>

definition COOKIE_NAME :: string where
  "COOKIE_NAME = ''errex_session''"

definition SESSION_TTL_SECS :: int where
  "SESSION_TTL_SECS = 30 * 24 * 60 * 60"

fun find_session_cookie :: "string list \<Rightarrow> string option" where
  "find_session_cookie [] = None"
| "find_session_cookie (kv # kvs) =
     (case split_once ''='' (trim kv) of
        None \<Rightarrow> find_session_cookie kvs
      | Some (k, v) \<Rightarrow>
          if k = COOKIE_NAME
          then (let v = trim_matches (CHR 0x22) v in if v = [] then None else Some v)
          else find_session_cookie kvs)"

definition extract_session_id :: "headers \<Rightarrow> string option" where
  "extract_session_id hs =
     (case header_str ''cookie'' hs of
        None \<Rightarrow> None
      | Some raw \<Rightarrow> find_session_cookie (split_by (\<lambda>c. c = CHR '';'') raw))"

definition secure_attr :: "bool \<Rightarrow> string" where
  "secure_attr dev_mode = (if dev_mode then [] else ''; Secure'')"

definition build_session_cookie :: "string \<Rightarrow> bool \<Rightarrow> string" where
  "build_session_cookie sid dev_mode =
     COOKIE_NAME @ ''='' @ sid @ ''; HttpOnly'' @ secure_attr dev_mode
       @ ''; SameSite=Strict; Path=/; Max-Age='' @ show_int SESSION_TTL_SECS"

definition build_clearing_cookie :: "bool \<Rightarrow> string" where
  "build_clearing_cookie dev_mode =
     COOKIE_NAME @ ''=; HttpOnly'' @ secure_attr dev_mode @ ''; SameSite=Strict; Path=/; Max-Age=0''"

section \<open>The client\<close>

text \<open>The peer is the text of the socket's address, when the server knows it.\<close>

definition extract_client_ip :: "headers \<Rightarrow> string option \<Rightarrow> bool \<Rightarrow> string" where
  "extract_client_ip hs peer trust_proxy_headers =
     (let fallback = (case peer of Some ip \<Rightarrow> ip | None \<Rightarrow> ''unknown'') in
      if trust_proxy_headers then
        (case header_str ''x-forwarded-for'' hs of
           Some xff \<Rightarrow>
             (case split_by (\<lambda>c. c = CHR '','') xff of
                first # _ \<Rightarrow> (let trimmed = trim first in if trimmed \<noteq> [] then trimmed else fallback)
              | [] \<Rightarrow> fallback)
         | None \<Rightarrow> fallback)
      else fallback)"

definition client_user_agent :: "headers \<Rightarrow> string option" where
  "client_user_agent hs = header_str ''user-agent'' hs"

section \<open>Gates\<close>

record auth_context =
  ac_session :: session
  ac_role :: role

definition require_auth :: "externs \<Rightarrow> headers \<Rightarrow> ('z, response + auth_context) op" where
  "require_auth X hs =
     (case extract_session_id hs of
        None \<Rightarrow> ret (Inl (plain 401 ''not signed in''))
      | Some sid \<Rightarrow>
          bnd (try_op (session_for_id X sid)) (\<lambda>lookup.
          case lookup of
            Inl _ \<Rightarrow> ret (Inl internal_error)
          | Inr None \<Rightarrow> ret (Inl (plain 401 ''session invalid''))
          | Inr (Some (session, role, deactivated)) \<Rightarrow>
              bnd (touch_session X (ss_id session)) (\<lambda>_.
              ret (Inr \<lparr>ac_session = session, ac_role = role\<rparr>))))"

definition require_admin :: "externs \<Rightarrow> headers \<Rightarrow> ('z, response + auth_context) op" where
  "require_admin X hs =
     bnd (require_auth X hs) (\<lambda>ctx.
     case ctx of
       Inl resp \<Rightarrow> ret (Inl resp)
     | Inr ctx \<Rightarrow>
         if \<not> is_admin (ac_role ctx) then ret (Inl (plain 403 ''admin role required''))
         else ret (Inr ctx))"

section \<open>Handlers\<close>

definition too_many_attempts :: "int \<Rightarrow> response" where
  "too_many_attempts retry_after =
     plain 429 (''too many attempts '' @ [CHR 0xE2, CHR 0x80, CHR 0x94] @ '' try again later'')
       \<lparr>re_retry_after := Some retry_after\<rparr>"

record setup_body =
  sb_token :: string
  sb_username :: string
  sb_password :: string

record login_body =
  lb_username :: string
  lb_password :: string

text \<open>What a request to a login handler brings, and the random bytes drawn while it is handled.\<close>

record client =
  cl_headers :: headers
  cl_peer :: "string option"
  cl_salt :: string
  cl_session_bytes :: "bytes \<times> bytes"

definition handle_setup ::
  "externs \<Rightarrow> app_config \<Rightarrow> client \<Rightarrow> setup_body option \<Rightarrow> ('z, response) op" where
  "handle_setup X cfg cl body =
     (case body of
        None \<Rightarrow> ret (plain 400 ''missing body'')
      | Some body \<Rightarrow>
        bnd user_count (\<lambda>n.
        if n > 0 then ret (plain 409 ''setup already complete'')
        else case cf_setup_token cfg of
          None \<Rightarrow> ret (plain 503 ''setup is disabled (set ERREX_ADMIN_TOKEN to enable)'')
        | Some expected \<Rightarrow>
          let setup_ip = extract_client_ip (cl_headers cl) (cl_peer cl) (cf_trust_proxy_headers cfg);
              policy = default_policy in
          bnd utc_now (\<lambda>now.
          bnd (count_recent_failures_for_ip X setup_ip (now - lp_window policy)) (\<lambda>ip_failures.
          case retry_after_secs (lockout_evaluate policy 0 (int ip_failures)) of
            Some retry_after \<Rightarrow> ret (too_many_attempts retry_after)
          | None \<Rightarrow>
            if sb_token body \<noteq> expected then
              bnd (record_attempt X None setup_ip False) (\<lambda>_. ret (plain 401 ''invalid setup token''))
            else
            let username = trim (sb_username body) in
            if username = [] \<or> length username > 64 then ret (plain 400 ''username 1..=64 chars'')
            else case validate_password_strength (sb_password body) of
              Inl why \<Rightarrow> ret (plain 400 why)
            | Inr _ \<Rightarrow>
              (case hash_password X (cl_salt cl) (sb_password body) of
                None \<Rightarrow> ret internal_error
              | Some hash \<Rightarrow>
                bnd (create_user X username hash Admin) (\<lambda>_.
                let sid = generate_session_id (cl_session_bytes cl);
                    ua = client_user_agent (cl_headers cl) in
                bnd (create_session X sid username (Some setup_ip) ua) (\<lambda>_.
                bnd (touch_user_login X username (Some setup_ip)) (\<lambda>_.
                ret (reply 201 (PAccount username Admin)
                  \<lparr>re_cookie := Some (build_session_cookie sid (cf_dev_mode cfg))\<rparr>)))))))))"

definition decoy_hash :: string where
  "decoy_hash = ''$argon2id$v=19$m=19456,t=2,p=1$abcdefghijklmnopqrstuv$aaaaaaaaaaaaaaaaaaaaaaaaaaaaaaaaaaaaaaaaaaa''"

definition handle_login ::
  "externs \<Rightarrow> app_config \<Rightarrow> client \<Rightarrow> login_body option \<Rightarrow> ('z, response) op" where
  "handle_login X cfg cl body =
     (case body of
        None \<Rightarrow> ret (plain 400 ''missing body'')
      | Some body \<Rightarrow>
        let username = trim (lb_username body);
            ip = extract_client_ip (cl_headers cl) (cl_peer cl) (cf_trust_proxy_headers cfg);
            policy = default_policy in
        bnd utc_now (\<lambda>now.
        let since = now - lp_window policy in
        bnd (if username = [] then ret 0 else count_recent_failures_for_username X username since)
          (\<lambda>user_failures.
        bnd (count_recent_failures_for_ip X ip since) (\<lambda>ip_failures.
        case retry_after_secs (lockout_evaluate policy (int user_failures) (int ip_failures)) of
          Some retry_after \<Rightarrow> ret (too_many_attempts retry_after)
        | None \<Rightarrow>
          bnd (get_user_password_hash username) (\<lambda>stored.
          let stored_hash = (case stored of Some h \<Rightarrow> h | None \<Rightarrow> decoy_hash);
              ok = verify_password X stored_hash (lb_password body) in
          bnd (get_user X username) (\<lambda>u.
          let user_exists_active = (case u of Some u \<Rightarrow> u_deactivated_at u = None | None \<Rightarrow> False) in
          if \<not> ok \<or> \<not> user_exists_active then
            bnd (record_attempt X (if username = [] then None else Some username) ip False) (\<lambda>_.
            ret (plain 401 ''invalid credentials''))
          else
            bnd (record_attempt X (Some username) ip True) (\<lambda>_.
            bnd (touch_user_login X username (Some ip)) (\<lambda>_.
            let sid = generate_session_id (cl_session_bytes cl);
                ua = client_user_agent (cl_headers cl) in
            bnd (create_session X sid username (Some ip) ua) (\<lambda>_.
            bnd (get_user X username) (\<lambda>u.
            case u of
              None \<Rightarrow> panic
            | Some u \<Rightarrow>
                ret (reply 200 (PAccount (u_username_of u) (u_role u))
                  \<lparr>re_cookie := Some (build_session_cookie sid (cf_dev_mode cfg))\<rparr>)))))))))))"

definition handle_logout :: "app_config \<Rightarrow> headers \<Rightarrow> ('z, response) op" where
  "handle_logout cfg hs =
     bnd (case extract_session_id hs of Some sid \<Rightarrow> revoke_session sid | None \<Rightarrow> ret ()) (\<lambda>_.
     ret (reply 204 PNone \<lparr>re_cookie := Some (build_clearing_cookie (cf_dev_mode cfg))\<rparr>))"

definition handle_me :: "externs \<Rightarrow> headers \<Rightarrow> ('z, response) op" where
  "handle_me X hs =
     bnd (require_auth X hs) (\<lambda>ctx.
     case ctx of
       Inr ctx \<Rightarrow> ret (reply 200 (PAccount (ss_username (ac_session ctx)) (ac_role ctx)))
     | Inl resp \<Rightarrow> ret resp)"

definition handle_setup_status :: "app_config \<Rightarrow> ('z, response) op" where
  "handle_setup_status cfg =
     bnd user_count (\<lambda>n.
     let no_users = (n = 0); token_configured = (cf_setup_token cfg \<noteq> None) in
     ret (reply 200 (PSetup (no_users \<and> token_configured) (no_users \<and> \<not> token_configured))))"

section \<open>Who is calling\<close>

text \<open>The account a request's cookie stands for, read off the tables.\<close>

definition caller :: "db \<Rightarrow> headers \<Rightarrow> user_row option" where
  "caller d hs =
     Option.bind (extract_session_id hs) (\<lambda>sid. map_option snd (select_session_with_user sid d))"

definition admin_caller :: "db \<Rightarrow> headers \<Rightarrow> bool" where
  "admin_caller d hs \<longleftrightarrow> (case caller d hs of Some u \<Rightarrow> us_role u = ''admin'' | None \<Rightarrow> False)"

text \<open>The sliding expiry: nothing changes but the time a session was last seen.\<close>

definition slid :: "db \<Rightarrow> db \<Rightarrow> bool" where
  "slid d d' \<longleftrightarrow> (\<exists>f. (\<forall>s. f s = s\<lparr>se_last_seen_at := se_last_seen_at (f s)\<rparr>) \<and>
     d' = d\<lparr>sessions := map f (sessions d)\<rparr>)"

lemma slid_refl: "slid d d"
  unfolding slid_def by (rule exI [of _ "\<lambda>s. s"]) simp

lemma slid_touch:
  "slid d (d\<lparr>sessions := update_where P (\<lambda>s. s\<lparr>se_last_seen_at := t\<rparr>) (sessions d)\<rparr>)"
  unfolding slid_def update_where_def
  by (rule exI [of _ "\<lambda>s. if P s then s\<lparr>se_last_seen_at := t\<rparr> else s"]) auto

lemma slid_same:
  "slid d d' \<Longrightarrow> users d' = users d \<and> projects d' = projects d \<and> issues d' = issues d \<and>
     events d' = events d \<and> retention d' = retention d \<and> attempts d' = attempts d \<and>
     length (sessions d') = length (sessions d)"
  by (auto simp: slid_def)

lemma slid_schema_ok: "slid d d' \<Longrightarrow> schema_ok d \<Longrightarrow> schema_ok d'"
proof -
  assume "slid d d'" and ok: "schema_ok d"
  then obtain f where f: "\<And>s. f s = s\<lparr>se_last_seen_at := se_last_seen_at (f s)\<rparr>"
    and d': "d' = d\<lparr>sessions := map f (sessions d)\<rparr>"
    by (auto simp: slid_def)
  have "se_id (f s) = se_id s" "se_username (f s) = se_username s" for s
    by (subst f, simp)+
  with ok show ?thesis unfolding d' by (auto simp: schema_defs comp_def)
qed

text \<open>What a gate may do to the world: slide an expiry, and use up the fault schedule.\<close>

definition kept :: "'z world_scheme \<Rightarrow> 'z world_scheme \<Rightarrow> bool" where
  "kept w w' \<longleftrightarrow> slid (w_db w) (w_db w') \<and> w_now w' = w_now w \<and> world.more w' = world.more w"

lemma keptI: "w_db w' = w_db w \<Longrightarrow> w_now w' = w_now w \<Longrightarrow> world.more w' = world.more w \<Longrightarrow> kept w w'"
  by (simp add: kept_def slid_refl)

lemma wp_touch_session:
  assumes "\<And>w'. kept w w' \<Longrightarrow> Q (Ok ()) w'"
  shows "wp (touch_session X sid) Q w"
  unfolding touch_session_def
  by (auto simp: update_session_def kept_def slid_refl
      intro!: wp_bnd wp_utc_now wp_best_effort wp_exec assms slid_touch)

lemma role_from_db_str_Admin [simp]: "role_from_db_str s = Admin \<longleftrightarrow> s = ''admin''"
  by (simp add: role_from_db_str_def)

lemma role_from_db_str_Viewer [simp]: "role_from_db_str s = Viewer \<longleftrightarrow> s \<noteq> ''admin''"
  by (simp add: role_from_db_str_def)

lemma is_admin_iff [simp]: "is_admin r \<longleftrightarrow> r = Admin"
  by (cases r) (simp_all add: is_admin_def)

lemma wp_session_for_id:
  assumes "\<And>e fs. Q (Err e) (w\<lparr>w_faults := fs\<rparr>)"
    and "\<And>fs. Q (Ok (map_option (\<lambda>(s, u). (session_of_row X (w_now w) s, role_from_db_str (us_role u),
            us_deactivated_at u \<noteq> None)) (select_session_with_user sid (w_db w)))) (w\<lparr>w_faults := fs\<rparr>)"
  shows "wp (session_for_id X sid) Q w"
  unfolding session_for_id_def
  by (auto intro!: wp_bnd wp_utc_now wp_query wp_ret assms(1) assms(2) [simplified])

lemma kept_faults [simp]: "kept (w\<lparr>w_faults := fs\<rparr>) w' = kept w w'" "kept w (w\<lparr>w_faults := fs\<rparr>)"
  by (simp_all add: kept_def slid_refl)

lemma wp_require_auth:
  assumes "\<And>w' ctx u. kept w w' \<Longrightarrow> caller (w_db w) hs = Some u \<Longrightarrow>
      ac_role ctx = role_from_db_str (us_role u) \<Longrightarrow> Q (Ok (Inr ctx)) w'"
    and "\<And>w' resp. kept w w' \<Longrightarrow> re_cookie resp = None \<Longrightarrow>
      re_status resp = 500 \<or> (re_status resp = 401 \<and> caller (w_db w) hs = None) \<Longrightarrow>
      Q (Ok (Inl resp)) w'"
  shows "wp (require_auth X hs) Q w"
proof (cases "extract_session_id hs")
  case None
  then show ?thesis
    unfolding require_auth_def by (simp add: wp_def op_basic assms(2) caller_def keptI)
next
  case (Some sid)
  show ?thesis
  proof (cases "select_session_with_user sid (w_db w)")
    case None
    then show ?thesis
      unfolding require_auth_def using Some
      by (auto intro!: wp_bnd wp_try_op wp_session_for_id wp_ret assms(2) simp: caller_def)
  next
    case (Some p)
    obtain s u where p: "p = (s, u)" by force
    have caller: "caller (w_db w) hs = Some u"
      using Some p \<open>extract_session_id hs = Some sid\<close> by (simp add: caller_def)
    then show ?thesis
      unfolding require_auth_def using \<open>extract_session_id hs = Some sid\<close> Some p
      by (auto intro!: wp_bnd wp_try_op wp_session_for_id wp_touch_session wp_ret assms(2)
          assms(1) [OF _ caller])
  qed
qed

lemma wp_require_admin:
  assumes "\<And>w' ctx. kept w w' \<Longrightarrow> admin_caller (w_db w) hs \<Longrightarrow> Q (Ok (Inr ctx)) w'"
    and "\<And>w' resp. kept w w' \<Longrightarrow> re_cookie resp = None \<Longrightarrow> re_status resp \<in> {401, 403, 500} \<Longrightarrow>
      (admin_caller (w_db w) hs \<Longrightarrow> re_status resp = 500) \<Longrightarrow> Q (Ok (Inl resp)) w'"
  shows "wp (require_admin X hs) Q w"
  unfolding require_admin_def
  by (auto intro!: wp_bnd wp_require_auth wp_ret assms simp: admin_caller_def)

lemma require_admin_quiet:
  assumes "quiet w" and "admin_caller (w_db w) hs"
  obtains ctx d where "require_admin X hs w = (Ok (Inr ctx), w\<lparr>w_db := d\<rparr>)" "slid (w_db w) d"
proof -
  from assms(2) obtain sid s u where sid: "extract_session_id hs = Some sid"
    and row: "select_session_with_user sid (w_db w) = Some (s, u)" and admin: "us_role u = ''admin''"
    by (auto simp: admin_caller_def caller_def split: option.splits bind_splits)
  show thesis
    by (rule that [OF _ slid_touch])
       (simp add: require_admin_def require_auth_def session_for_id_def touch_session_def best_effort_def
          bnd_def try_op_def query_quiet exec_quiet op_basic assms(1) sid row admin update_session_def)
qed

section \<open>The gate as an interface\<close>

text \<open>
  What the handlers rely on: a gate lets a caller through only if the tables allow it, answers
  everyone else itself, and in either case does no more to the world than \<open>kept\<close> says. Both gates
  of the daemon provide this.
\<close>

definition guarded :: "('z, response + 'c) op \<Rightarrow> ('z, response) op \<Rightarrow> ('z, response) op" where
  "guarded gate handler =
     bnd gate (\<lambda>ctx. case ctx of Inl resp \<Rightarrow> ret resp | Inr _ \<Rightarrow> handler)"

definition refusal :: "response \<Rightarrow> bool" where
  "refusal resp \<longleftrightarrow> re_status resp \<in> {401, 403, 500} \<and> re_cookie resp = None"

locale access_gate =
  fixes gate :: "('z, response + 'c) op"
    and allowed :: "db \<Rightarrow> bool"
  assumes gate_law:
    "wp gate (\<lambda>r w'. kept w w' \<and>
        (case r of
           Ok (Inl resp) \<Rightarrow> refusal resp \<and> (if allowed (w_db w) then re_status resp = 500 else True)
         | Ok (Inr ctx) \<Rightarrow> allowed (w_db w)
         | _ \<Rightarrow> False)) w"
begin

lemma wp_guarded:
  assumes "\<And>w'. kept w w' \<Longrightarrow> allowed (w_db w) \<Longrightarrow> wp handler Q w'"
    and "\<And>w' resp. kept w w' \<Longrightarrow> refusal resp \<Longrightarrow>
      (allowed (w_db w) \<Longrightarrow> re_status resp = 500) \<Longrightarrow> Q (Ok resp) w'"
  shows "wp (guarded gate handler) Q w"
  unfolding guarded_def
  by (rule wp_bnd, rule wp_mono [OF gate_law])
     (auto intro!: wp_ret assms split: outcome.splits sum.splits if_splits)

lemma stranger_refused:
  "\<not> allowed (w_db w) \<Longrightarrow>
   wp (guarded gate handler) (\<lambda>r w'. kept w w' \<and> (\<exists>resp. r = Ok resp \<and> refusal resp)) w"
  by (rule wp_guarded) auto

lemma preserves_guarded:
  assumes "\<And>d d'. slid d d' \<Longrightarrow> J d \<Longrightarrow> J d'" and "preserves J handler"
  shows "preserves J (guarded gate handler)"
proof (rule preserves_wp)
  fix w :: "'z world_scheme"
  assume J: "J (w_db w)"
  show "wp (guarded gate handler) (\<lambda>_ w'. J (w_db w')) w"
    by (rule wp_guarded) (use J assms in \<open>auto simp: kept_def intro: wp_preserves\<close>)
qed

end

interpretation user_gate: access_gate "require_auth X hs" "\<lambda>d. caller d hs \<noteq> None" for X hs
  by unfold_locales (rule wp_require_auth; force simp: refusal_def)

interpretation admin_gate: access_gate "require_admin X hs" "\<lambda>d. admin_caller d hs" for X hs
  by unfold_locales (rule wp_require_admin; force simp: refusal_def)

section \<open>What the handlers do\<close>

text \<open>The rows the handlers write.\<close>

definition setup_user :: "externs \<Rightarrow> time \<Rightarrow> string \<Rightarrow> string \<Rightarrow> user_row" where
  "setup_user X t name hash =
     \<lparr>us_username = name, us_password_hash = hash, us_role = ''admin'',
      us_created_at = x_rfc3339 X t, us_last_login_at = None, us_last_login_ip = None,
      us_deactivated_at = None\<rparr>"

lemma insert_user_Inr:
  "insert_user u d = Inr (x, d') \<longleftrightarrow>
   us_role u \<in> {''admin'', ''viewer''} \<and> \<not> (\<exists>v \<in> set (users d). us_username v = us_username u) \<and>
   d' = d\<lparr>users := users d @ [u]\<rparr>"
  by (auto simp: insert_user_def)

lemmas handler_simps = insert_user_Inr insert_session_Inr insert_attempt_def update_user_def
  delete_sessions_def too_many_attempts_def

lemma wp_handle_setup:
  "wp (handle_setup X cfg cl body)
     (\<lambda>r w'. case r of
        Ok resp \<Rightarrow>
          if re_status resp = 201 then
            \<exists>b u. body = Some b \<and> users (w_db w) = [] \<and> cf_setup_token cfg = Some (sb_token b) \<and>
              validate_password_strength (sb_password b) = Inr () \<and>
              users (w_db w') = [u] \<and> us_username u = trim (sb_username b) \<and>
              us_role u = ''admin'' \<and> us_deactivated_at u = None \<and>
              hash_password X (cl_salt cl) (sb_password b) = Some (us_password_hash u) \<and>
              re_cookie resp =
                Some (build_session_cookie (generate_session_id (cl_session_bytes cl)) (cf_dev_mode cfg))
          else users (w_db w') = users (w_db w) \<and> sessions (w_db w') = sessions (w_db w) \<and>
            re_cookie resp = None \<and> (if users (w_db w) = [] then True else w_db w' = w_db w)
      | Err e \<Rightarrow> if users (w_db w) = [] then length (users (w_db w')) \<le> 1 else w_db w' = w_db w
      | Panic \<Rightarrow> False) w"
  unfolding handle_setup_def user_count_def count_recent_failures_for_ip_def Let_def
    record_attempt_def create_user_def create_session_def touch_user_login_def
  by (auto intro!: wp_intros simp: handler_simps role_as_str_def)

lemma find_key_name:
  "find (\<lambda>u. us_username u = n) us = Some u \<Longrightarrow> us_username u = n"
  by (drule find_SomeD) simp

lemma wp_handle_login:
  "wp (handle_login X cfg cl body)
     (\<lambda>r w'. case r of
        Ok resp \<Rightarrow>
          if re_status resp = 200 then
            \<exists>b u. body = Some b \<and> select_user (trim (lb_username b)) (w_db w) = Some u \<and>
              us_deactivated_at u = None \<and>
              verify_password X (us_password_hash u) (lb_password b) \<and>
              re_payload resp = PAccount (trim (lb_username b)) (role_from_db_str (us_role u)) \<and>
              re_cookie resp =
                Some (build_session_cookie (generate_session_id (cl_session_bytes cl)) (cf_dev_mode cfg)) \<and>
              (\<exists>s. sessions (w_db w') = sessions (w_db w) @ [s] \<and>
                 se_id s = generate_session_id (cl_session_bytes cl) \<and> se_username s = trim (lb_username b))
          else sessions (w_db w') = sessions (w_db w) \<and> users (w_db w') = users (w_db w) \<and>
            re_cookie resp = None
      | Err e \<Rightarrow> True
      | Panic \<Rightarrow> False) w"
  unfolding handle_login_def count_recent_failures_for_username_def count_recent_failures_for_ip_def
    Let_def record_attempt_def get_user_def get_user_password_hash_def create_session_def
    touch_user_login_def select_user_def
  by (auto intro!: wp_intros simp: handler_simps user_of_row_def find_update_same
      split: option.splits)
     (erule find_key_name | erule find_key_name [symmetric])+

section \<open>Failed logins\<close>

text \<open>Without faults every failed login is recorded.\<close>

definition failures_for :: "externs \<Rightarrow> string \<Rightarrow> time \<Rightarrow> db \<Rightarrow> nat" where
  "failures_for X name since d =
     count_where (\<lambda>a. at_username a = Some name \<and> failed_since X since a) (attempts d)"

definition rejected :: "(daemon_error, response) outcome \<Rightarrow> bool" where
  "rejected r = (case r of Ok resp \<Rightarrow> re_status resp = 401 | _ \<Rightarrow> False)"

lemma wp_login_ledger:
  assumes "quiet w" and "name = trim (lb_username b)" and "name \<noteq> []"
  shows "wp (handle_login X cfg cl (Some b))
    (\<lambda>r w'. quiet w' \<and> (\<exists>l. attempts (w_db w') = attempts (w_db w) @ l \<and>
       (rejected r \<longrightarrow>
          failures_for X name (w_now w - lp_window default_policy) (w_db w) < 5 \<and>
          (\<exists>a. l = [a] \<and> at_username a = Some name \<and> at_success a = 0 \<and>
             at_ts a = x_rfc3339 X (w_now w))))) w"
  unfolding handle_login_def count_recent_failures_for_username_def count_recent_failures_for_ip_def
    Let_def record_attempt_def get_user_def get_user_password_hash_def create_session_def
    touch_user_login_def failures_for_def rejected_def
  by (auto intro!: wp_quiet_intros
      simp: assms(1,3) assms(2) [symmetric] handler_simps evaluate_default split: if_splits)

fun login_run ::
  "externs \<Rightarrow> app_config \<Rightarrow> (time \<times> client \<times> login_body) list \<Rightarrow> 'z world_scheme \<Rightarrow>
     (daemon_error, response) outcome list \<times> 'z world_scheme" where
  "login_run X cfg [] w = ([], w)"
| "login_run X cfg ((t, cl, b) # rs) w =
     (let (r, w') = handle_login X cfg cl (Some b) (w\<lparr>w_now := t\<rparr>);
          (out, w'') = login_run X cfg rs w'
      in (r # out, w''))"

lemma count_where_append: "count_where P (xs @ ys) = count_where P xs + count_where P ys"
  by (simp add: count_where_def)

lemma count_where_mono: "(\<And>x. P x \<Longrightarrow> Q x) \<Longrightarrow> count_where P xs \<le> count_where Q xs"
  by (induction xs) (auto simp: count_where_def)

lemma failures_for_earlier:
  assumes "rfc3339_ordered X" "in_text_range a" "in_text_range b" "a \<le> b"
  shows "failures_for X name b d \<le> failures_for X name a d"
proof -
  have "x_rfc3339 X a \<le> x_rfc3339 X b" using assms by (simp add: rfc3339_le_iff)
  then show ?thesis
    unfolding failures_for_def by (intro count_where_mono) (auto simp: failed_since_def)
qed

lemma login_run_rejections:
  assumes "rfc3339_ordered X" and "quiet w" and "name \<noteq> []" and "in_text_range t0"
    and "list_all (\<lambda>(t, cl, b). trim (lb_username b) = name \<and> t0 \<le> t \<and>
           t - lp_window default_policy \<le> t0 \<and> in_text_range t \<and>
           in_text_range (t - lp_window default_policy)) rs"
  shows "length (filter rejected (fst (login_run X cfg rs w))) + min 5 (failures_for X name t0 (w_db w)) \<le> 5"
  using assms
proof (induction rs arbitrary: w)
  case (Cons r rs)
  obtain t cl b where r: "r = (t, cl, b)" by (metis prod.exhaust)
  obtain out w' where run: "handle_login X cfg cl (Some b) (w\<lparr>w_now := t\<rparr>) = (out, w')" by force
  have t: "name = trim (lb_username b)" "t0 \<le> t" "t - lp_window default_policy \<le> t0"
    "in_text_range t" "in_text_range (t - lp_window default_policy)"
    using Cons.prems(5) r by auto
  have "quiet (w\<lparr>w_now := t\<rparr>)" using Cons.prems(2) by simp
  from wpD [OF wp_login_ledger [OF this t(1) Cons.prems(3)] run]
  obtain l where l: "quiet w'" "attempts (w_db w') = attempts (w_db w) @ l"
    and rej: "rejected out \<Longrightarrow>
      failures_for X name (t - lp_window default_policy) (w_db w) < 5 \<and>
      (\<exists>a. l = [a] \<and> at_username a = Some name \<and> at_success a = 0 \<and> at_ts a = x_rfc3339 X t)"
    by auto
  have IH: "length (filter rejected (fst (login_run X cfg rs w'))) +
      min 5 (failures_for X name t0 (w_db w')) \<le> 5"
    using Cons.IH [OF Cons.prems(1) l(1) Cons.prems(3,4)] Cons.prems(5) by simp
  have grow: "failures_for X name t0 (w_db w') = failures_for X name t0 (w_db w) +
      count_where (\<lambda>a. at_username a = Some name \<and> failed_since X t0 a) l"
    using l(2) by (simp add: failures_for_def count_where_append)
  show ?case
  proof (cases "rejected out")
    case False
    with IH grow run r show ?thesis by (simp add: case_prod_beta Let_def)
  next
    case True
    from rej [OF True] obtain a where a: "l = [a]" "at_username a = Some name" "at_success a = 0"
      "at_ts a = x_rfc3339 X t" by blast
    have "x_rfc3339 X t0 \<le> x_rfc3339 X t"
      using Cons.prems(1,4) t(2,4) by (simp add: rfc3339_le_iff)
    then have "count_where (\<lambda>a. at_username a = Some name \<and> failed_since X t0 a) l = 1"
      using a by (simp add: count_where_def failed_since_def)
    moreover have "failures_for X name t0 (w_db w) < 5"
      using rej [OF True] failures_for_earlier [OF Cons.prems(1) t(5) Cons.prems(4) t(3), of name "w_db w"]
      by linarith
    ultimately show ?thesis
      using True IH grow run r by (simp add: case_prod_beta Let_def)
  qed
qed simp

section \<open>Properties\<close>

text \<open>C18: setup happens once. It succeeds only while no user exists, with the configured setup token
  and an acceptable password; then exactly one user exists, an active administrator with the
  hash of that password, and the response carries the cookie of a session. Every other response
  leaves users and sessions as they were, and once a user exists nothing at all changes.\<close>

theorem setup_creates_first_admin_once:
  "case handle_setup X cfg cl body w of
     (Ok resp, w') \<Rightarrow>
       if re_status resp = 201 then
         \<exists>b u. body = Some b \<and> users (w_db w) = [] \<and> cf_setup_token cfg = Some (sb_token b) \<and>
           validate_password_strength (sb_password b) = Inr () \<and>
           users (w_db w') = [u] \<and> us_username u = trim (sb_username b) \<and>
           us_role u = ''admin'' \<and> us_deactivated_at u = None \<and>
           hash_password X (cl_salt cl) (sb_password b) = Some (us_password_hash u) \<and>
           re_cookie resp =
             Some (build_session_cookie (generate_session_id (cl_session_bytes cl)) (cf_dev_mode cfg))
       else users (w_db w') = users (w_db w) \<and> sessions (w_db w') = sessions (w_db w) \<and>
         re_cookie resp = None \<and> (if users (w_db w) = [] then True else w_db w' = w_db w)
   | (Err e, w') \<Rightarrow> if users (w_db w) = [] then length (users (w_db w')) \<le> 1 else w_db w' = w_db w
   | (Panic, w') \<Rightarrow> False"
  using wp_handle_setup [of X cfg cl body w]
  by (simp add: wp_def split: prod.splits outcome.splits)


text \<open>C14: password guessing is bounded. In any fifteen minutes, however the logins for an account are
  spread over clients and addresses, at most five of them are told that the credentials are
  wrong, and fewer if failures were on record at the start; the rest are turned away unchecked.\<close>

theorem at_most_five_guesses_per_window:
  assumes "rfc3339_ordered X" and "w_faults w = []" and "name \<noteq> []" and "in_text_range t0"
    and "list_all (\<lambda>(t, cl, b). trim (lb_username b) = name \<and> t0 \<le> t \<and>
           t - lp_window default_policy \<le> t0 \<and> in_text_range t \<and>
           in_text_range (t - lp_window default_policy)) rs"
  shows "length (filter rejected (fst (login_run X cfg rs w))) + min 5 (failures_for X name t0 (w_db w)) \<le> 5"
  using assms by (intro login_run_rejections) (simp_all add: quiet_def)

definition demo_config :: app_config where
  "demo_config = \<lparr>cf_require_auth = True, cf_setup_token = Some ''setup-secret'',
     cf_public_url = ''https://errex.example'', cf_dev_mode = False, cf_trust_proxy_headers = False\<rparr>"

definition demo_client :: client where
  "demo_client = \<lparr>cl_headers = [], cl_peer = Some ''10.0.0.1'', cl_salt = ''salt'',
     cl_session_bytes = (replicate 16 (CHR 0x01), replicate 16 (CHR 0x02))\<rparr>"

theorem at_most_five_guesses_per_window_witness:
  "length (filter rejected (fst (login_run demo_externs demo_config
     (replicate 9 (start_time, demo_client, \<lparr>lb_username = ''ann'', lb_password = ''guess''\<rparr>))
     demo_db_world))) \<le> 5"
  using at_most_five_guesses_per_window [OF demo_rfc3339_ordered, where w = demo_db_world
      and name = "''ann''" and ?t0.0 = start_time and cfg = demo_config
      and rs = "replicate 9 (start_time, demo_client, \<lparr>lb_username = ''ann'', lb_password = ''guess''\<rparr>)"]
  by (simp add: demo_db_world_def demo_world_def in_text_range_def default_policy_def list_all_iff
      trim_graphic graphic_def)

text \<open>Logging out ends the session of the cookie. After a successful logout the request's cookie
  stands for nobody, every other session is as before, and the cookie is cleared; a failure
  changes nothing.\<close>

theorem logout_ends_the_session:
  "case handle_logout cfg hs w of
     (Ok resp, w') \<Rightarrow> caller (w_db w') hs = None \<and>
       re_cookie resp = Some (build_clearing_cookie (cf_dev_mode cfg)) \<and>
       (\<forall>sid. extract_session_id hs = Some sid \<or>
          select_session_with_user sid (w_db w') = select_session_with_user sid (w_db w))
   | (_, w') \<Rightarrow> w_db w' = w_db w"
proof (cases "extract_session_id hs")
  case None
  then show ?thesis by (simp add: handle_logout_def op_basic caller_def)
next
  case (Some sid)
  obtain r w' where run: "revoke_session sid w = (r, w')" by force
  show ?thesis
  proof (cases r)
    case (Ok u)
    with Some run session_rows.revoke_Ok [of sid w u w'] show ?thesis
      by (auto simp: handle_logout_def bnd_def op_basic caller_def)
  next
    case (Err e)
    with Some run session_rows.revoke_failed [of sid w r w'] show ?thesis
      by (simp add: handle_logout_def bnd_def)
  next
    case Panic
    with Some run session_rows.revoke_failed [of sid w r w'] show ?thesis
      by (simp add: handle_logout_def bnd_def)
  qed
qed

lemma hex_digit_graphic:
  "is_hex_digit c \<Longrightarrow> graphic c \<and> c \<noteq> CHR 0x22 \<and> c \<noteq> CHR '';''"
  by (auto simp: is_hex_digit_def graphic_def)

lemma dropWhile_none: "c \<notin> set s \<Longrightarrow> dropWhile (\<lambda>x. x = c) s = s"
  by (cases s) auto

lemma trim_matches_none: "c \<notin> set s \<Longrightarrow> trim_matches c s = s"
  using dropWhile_none [of c "rev s"]
  by (simp add: trim_matches_def trim_end_matches_def trim_start_matches_def dropWhile_none)

lemma graphic_visible: "list_all graphic s \<Longrightarrow> visible_ascii s"
  by (induction s) (auto simp: visible_ascii_def graphic_def)

lemma split_by_whole: "(\<And>c. c \<in> set s \<Longrightarrow> \<not> p c) \<Longrightarrow> split_by p s = [s]"
  by (induction s) auto

lemma extract_session_id_cookie:
  assumes "list_all graphic sid" and "CHR 0x22 \<notin> set sid" and "CHR '';'' \<notin> set sid"
  shows "extract_session_id [(''cookie'', COOKIE_NAME @ ''='' @ sid)] =
     (if sid = [] then None else Some sid)"
proof -
  have graphic: "list_all graphic (COOKIE_NAME @ ''='' @ sid)"
    using assms(1) by (simp add: COOKIE_NAME_def graphic_def)
  then have "visible_ascii (COOKIE_NAME @ ''='' @ sid)"
    by (rule graphic_visible)
  moreover have "split_by (\<lambda>c. c = CHR '';'') (COOKIE_NAME @ ''='' @ sid) = [COOKIE_NAME @ ''='' @ sid]"
    using assms(3) by (intro split_by_whole) (auto simp: COOKIE_NAME_def)
  moreover have "split_once ''='' (COOKIE_NAME @ ''='' @ sid) = Some (COOKIE_NAME, sid)"
    by (simp add: COOKIE_NAME_def starts_with_def)
  ultimately show ?thesis
    using trim_graphic [OF graphic] trim_matches_none [OF assms(2)]
    by (simp add: extract_session_id_def header_str_def Let_def)
qed

lemma demo_cookie: "extract_session_id [(''cookie'', ''errex_session=s-bob'')] = Some ''s-bob''"
  using extract_session_id_cookie [of "''s-bob''"] by (simp add: graphic_def COOKIE_NAME_def)

lemma demo_admin_cookie: "extract_session_id [(''cookie'', ''errex_session=s-ann'')] = Some ''s-ann''"
  using extract_session_id_cookie [of "''s-ann''"] by (simp add: graphic_def COOKIE_NAME_def)

lemma no_cookie: "extract_session_id [] = None"
  by (simp add: extract_session_id_def header_str_def)

lemma demo_callers:
  "caller demo_db [(''cookie'', ''errex_session=s-ann'')] = Some (demo_user ''ann'' ''admin'')"
  "caller demo_db [(''cookie'', ''errex_session=s-bob'')] = Some (demo_user ''bob'' ''viewer'')"
  "caller demo_db [] = None"
  by (simp_all add: caller_def demo_cookie demo_admin_cookie select_session_with_user_def select_user_def
      demo_db_def demo_session_def demo_user_def no_cookie)

lemma demo_admin: "admin_caller (w_db demo_db_world) [(''cookie'', ''errex_session=s-ann'')]"
  by (simp add: admin_caller_def demo_callers demo_db_world_def demo_user_def)


text \<open>A deactivated user with a live session is still let in. The gate reads the flag and ignores
  it, so if a login races with the deactivation and stores its session after the sessions were
  revoked, that session works.\<close>

theorem deactivated_session_is_accepted:
  assumes "w_faults w = []" and "extract_session_id hs = Some sid"
    and "select_session_with_user sid (w_db w) = Some (s, u)" and "us_deactivated_at u = Some t"
  shows "\<exists>w'. handle_me X hs w = (Ok (reply 200 (PAccount (se_username s) (role_from_db_str (us_role u)))), w')"
  using assms
  by (simp add: handle_me_def require_auth_def session_for_id_def touch_session_def best_effort_def
      bnd_def try_op_def query_quiet exec_quiet quiet_def op_basic session_of_row_def)

theorem deactivated_session_is_accepted_witness:
  fixes d
  defines "d \<equiv> demo_db\<lparr>users := [demo_user ''bob'' ''viewer''\<lparr>us_deactivated_at := Some []\<rparr>]\<rparr>"
  shows "\<exists>w'. handle_me demo_externs [(''cookie'', ''errex_session=s-bob'')] (demo_world\<lparr>w_db := d\<rparr>) =
    (Ok (reply 200 (PAccount ''bob'' Viewer)), w')"
proof -
  from deactivated_session_is_accepted [OF _ demo_cookie, of "demo_world\<lparr>w_db := d\<rparr>"
      "demo_session ''s-bob'' ''bob''" "demo_user ''bob'' ''viewer''\<lparr>us_deactivated_at := Some []\<rparr>" "[]"
      demo_externs]
  show ?thesis
    by (simp add: d_def demo_world_def demo_db_def select_session_with_user_def select_user_def
        demo_session_def demo_user_def role_from_db_str_def)
qed

end
