(* ===== verification/Webhook.thy ===== *)
theory Webhook
  imports Http "HOL-Library.Sublist"
begin

text \<open>
  Outgoing webhooks, \<open>crates/errexd/src/webhook.rs\<close>: the gate that a configured URL has to pass
  (\<open>validate_url\<close>), the Slack-shaped message (\<open>build_payload\<close>) and the task that delivers triggers
  (\<open>run\<close>).

  The HTTP client is a parameter: \<open>post url body\<close> is the status code of the answer, or \<open>None\<close> for
  any transport failure. It may depend on everything sent before.
\<close>

unbundle bit_operations_syntax

section \<open>The gate for configured URLs\<close>

text \<open>The predicates of the standard library on an IPv4 address, then those on an IPv6 address.\<close>

definition v4_is_loopback :: "u8 \<Rightarrow> bool" where
  "v4_is_loopback a \<longleftrightarrow> a = 127"

definition v4_is_private :: "u8 \<Rightarrow> u8 \<Rightarrow> bool" where
  "v4_is_private a b \<longleftrightarrow> a = 10 \<or> (a = 172 \<and> 16 \<le> b \<and> b \<le> 31) \<or> (a = 192 \<and> b = 168)"

definition v4_is_link_local :: "u8 \<Rightarrow> u8 \<Rightarrow> bool" where
  "v4_is_link_local a b \<longleftrightarrow> a = 169 \<and> b = 254"

definition v4_is_multicast :: "u8 \<Rightarrow> bool" where
  "v4_is_multicast a \<longleftrightarrow> 224 \<le> a \<and> a \<le> 239"

definition v6_is_multicast :: "u16 \<Rightarrow> bool" where
  "v6_is_multicast s \<longleftrightarrow> s AND 0xff00 = 0xff00"

fun ip_is_private_or_local :: "ip_addr \<Rightarrow> bool" where
  "ip_is_private_or_local (V4 a b c d) \<longleftrightarrow>
     v4_is_loopback a \<or> v4_is_private a b \<or> v4_is_link_local a b \<or> v4_is_multicast a
     \<or> (a = 0 \<and> b = 0 \<and> c = 0 \<and> d = 0)
     \<or> (a = 255 \<and> b = 255 \<and> c = 255 \<and> d = 255)
     \<or> (a = 100 \<and> b AND 0xC0 = 64)"
| "ip_is_private_or_local (V6 s0 s1 s2 s3 s4 s5 s6 s7) \<longleftrightarrow>
     (s0 = 0 \<and> s1 = 0 \<and> s2 = 0 \<and> s3 = 0 \<and> s4 = 0 \<and> s5 = 0 \<and> s6 = 0 \<and> s7 = 1)
     \<or> (s0 = 0 \<and> s1 = 0 \<and> s2 = 0 \<and> s3 = 0 \<and> s4 = 0 \<and> s5 = 0 \<and> s6 = 0 \<and> s7 = 0)
     \<or> v6_is_multicast s0
     \<or> s0 AND 0xfe00 = 0xfc00
     \<or> s0 AND 0xffc0 = 0xfe80"

definition INTERNAL_SUFFIXES :: "string list" where
  "INTERNAL_SUFFIXES =
     [''.localhost'', ''.local'', ''.internal'', ''.lan'', ''.intranet'', ''.corp'', ''.home.arpa'']"

definition hostname_in_internal_zone :: "string \<Rightarrow> bool" where
  "hostname_in_internal_zone host \<longleftrightarrow> list_ex (\<lambda>s. ends_with s host) INTERNAL_SUFFIXES"

definition host_for_parse :: "string \<Rightarrow> string" where
  "host_for_parse host = trim_end_matches (CHR '']'') (trim_start_matches (CHR ''['') host)"

definition validate_url :: "externs \<Rightarrow> string \<Rightarrow> string + unit" where
  "validate_url X raw =
     (case x_url X raw of
        None \<Rightarrow> Inl ''invalid url''
      | Some url \<Rightarrow>
        if u_scheme url \<noteq> ''http'' \<and> u_scheme url \<noteq> ''https'' then Inl ''scheme must be http or https''
        else if u_username url \<noteq> [] \<or> u_password url \<noteq> None then
          Inl ''userinfo not allowed in webhook url''
        else
          (case u_host url of
             None \<Rightarrow> Inl ''missing host''
           | Some host \<Rightarrow>
             (case x_ip X (host_for_parse host) of
                Some ip \<Rightarrow>
                  if ip_is_private_or_local ip
                  then Inl ''private, loopback, or link-local addresses not allowed''
                  else Inr ()
              | None \<Rightarrow>
                  (let lower = to_ascii_lowercase host in
                   if lower = ''localhost'' \<or> hostname_in_internal_zone lower
                   then Inl ''loopback / internal-zone hostnames not allowed''
                   else Inr ()))))"

section \<open>Triggers and their message\<close>

datatype trigger_kind = NewIssue | Regression

record trigger =
  tr_issue :: issue
  tr_kind :: trigger_kind

definition kind_label :: "trigger_kind \<Rightarrow> string" where
  "kind_label k = (case k of NewIssue \<Rightarrow> ''New issue'' | Regression \<Rightarrow> ''Regression'')"

definition slack_color :: "trigger_kind \<Rightarrow> string" where
  "slack_color k = (case k of NewIssue \<Rightarrow> ''danger'' | Regression \<Rightarrow> ''warning'')"

definition json_i64 :: "int \<Rightarrow> json" where
  "json_i64 i = JNum (if i \<ge> 0 then PosInt (of_int i) else NegInt i)"

definition slack_field :: "bool \<Rightarrow> string \<Rightarrow> string \<Rightarrow> json" where
  "slack_field short title v =
     JObj [(''short'', JBool short), (''title'', JStr title), (''value'', JStr v)]"

definition issue_link :: "string \<Rightarrow> int \<Rightarrow> string" where
  "issue_link public_url i = trim_end_matches (CHR ''/'') public_url @ ''/issues/'' @ show_int i"

definition build_payload :: "trigger \<Rightarrow> string \<Rightarrow> json" where
  "build_payload t public_url =
     (let issue = tr_issue t;
          title = kind_label (tr_kind t) @ '': '' @ is_title issue;
          link = issue_link public_url (is_id issue);
          fields =
            [slack_field True ''Project'' (is_project issue),
             slack_field True ''Events'' (show_int (is_event_count issue))]
            @ (case is_level issue of Some level \<Rightarrow> [slack_field True ''Level'' level] | None \<Rightarrow> [])
            @ (case is_culprit issue of
                 Some culprit \<Rightarrow> [slack_field False ''Culprit'' culprit] | None \<Rightarrow> [])
      in JObj
        [(''attachments'', JArr [JObj
           [(''color'', JStr (slack_color (tr_kind t))),
            (''fallback'', JStr title),
            (''fields'', JArr fields),
            (''title'', JStr (is_title issue)),
            (''title_link'', JStr link),
            (''ts'', json_i64 (is_last_seen issue div 1000000000))]]),
         (''text'', JStr title)])"

section \<open>The delivery task\<close>

type_synonym delivery = "string \<times> json"
type_synonym http_client = "delivery list \<Rightarrow> string \<Rightarrow> json \<Rightarrow> u16 option"

text \<open>One turn of the loop, given what was sent so far: what is sent in this turn, if anything.\<close>

definition deliver ::
  "externs \<Rightarrow> http_client \<Rightarrow> string \<Rightarrow> delivery list \<Rightarrow> trigger \<Rightarrow> ('z, delivery option) op" where
  "deliver X post public_url sent t =
     (if is_status (tr_issue t) = Muted \<or> is_status (tr_issue t) = Ignored then ret None
      else
        bnd (try_op (project_by_name X (is_project (tr_issue t)))) (\<lambda>found.
        case (case found of Inr (Some p) \<Rightarrow> pj_webhook_url p | Inr None \<Rightarrow> None | Inl e \<Rightarrow> None) of
          None \<Rightarrow> ret None
        | Some url \<Rightarrow>
            let body = build_payload t public_url;
                status_code = (case post sent url body of Some code \<Rightarrow> code | None \<Rightarrow> 0) in
            bnd (record_webhook_attempt X (is_project (tr_issue t)) status_code) (\<lambda>_.
            ret (Some (url, body)))))"

text \<open>The loop over everything the channel brings, until its senders are gone.\<close>

fun webhook_run ::
  "externs \<Rightarrow> http_client \<Rightarrow> string \<Rightarrow> delivery list \<Rightarrow> trigger list \<Rightarrow> ('z, delivery list) op" where
  "webhook_run X post public_url sent [] = ret sent"
| "webhook_run X post public_url sent (t # ts) =
     bnd (deliver X post public_url sent t) (\<lambda>d.
     webhook_run X post public_url (sent @ (case d of Some x \<Rightarrow> [x] | None \<Rightarrow> [])) ts)"

section \<open>The address gate as a list of blocks\<close>

text \<open>
  The reference for the address gate: an address is a number, a block \<open>base/len\<close> the addresses that
  agree with \<open>base\<close> on the first \<open>len\<close> of \<open>w\<close> bits, and the gate a list of blocks.
\<close>

definition in_block :: "nat \<Rightarrow> nat \<Rightarrow> nat \<times> nat \<Rightarrow> bool" where
  "in_block w n blk = (case blk of (base, len) \<Rightarrow> n div 2 ^ (w - len) = base div 2 ^ (w - len))"

definition v4_number :: "u8 \<Rightarrow> u8 \<Rightarrow> u8 \<Rightarrow> u8 \<Rightarrow> nat" where
  "v4_number a b c d = ((unat a * 256 + unat b) * 256 + unat c) * 256 + unat d"

definition v4_blocks :: "(nat \<times> nat) list" where
  "v4_blocks =
     [(v4_number 0 0 0 0, 32), (v4_number 10 0 0 0, 8), (v4_number 100 64 0 0, 10),
      (v4_number 127 0 0 0, 8), (v4_number 169 254 0 0, 16), (v4_number 172 16 0 0, 12),
      (v4_number 192 168 0 0, 16), (v4_number 224 0 0 0, 4), (v4_number 255 255 255 255, 32)]"

definition v6_number :: "u16 list \<Rightarrow> nat" where
  "v6_number segs = foldl (\<lambda>n s. n * 65536 + unat s) 0 segs"

definition v6_blocks :: "(nat \<times> nat) list" where
  "v6_blocks =
     [(v6_number [0, 0, 0, 0, 0, 0, 0, 0], 128), (v6_number [0, 0, 0, 0, 0, 0, 0, 1], 128),
      (v6_number [0xfc00, 0, 0, 0, 0, 0, 0, 0], 7), (v6_number [0xfe80, 0, 0, 0, 0, 0, 0, 0], 10),
      (v6_number [0xff00, 0, 0, 0, 0, 0, 0, 0], 8)]"

lemma high_bits_eq:
  fixes w c m :: "'a::len word"
  assumes m: "m = NOT (mask k)" and c: "c AND m = c"
  shows "w AND m = c \<longleftrightarrow> unat w div 2 ^ k = unat c div 2 ^ k"
proof -
  have drop: "drop_bit k (x AND m) = drop_bit k x" for x :: "'a word"
    unfolding m by (rule bit_eqI) (auto simp: bit_simps dest: bit_imp_le_length)
  have push: "push_bit k (drop_bit k x) = x AND m" for x :: "'a word"
    unfolding m by (rule bit_eqI) (auto simp: bit_simps)
  have "w AND m = c \<longleftrightarrow> drop_bit k w = drop_bit k c"
    by (metis c push drop)
  also have "\<dots> \<longleftrightarrow> unat (drop_bit k w) = unat (drop_bit k c)"
    by (simp add: word_unat_eq_iff)
  finally show ?thesis
    unfolding unat_drop_bit_eq by (simp add: drop_bit_eq_div)
qed

lemma prefix_masks:
  "(b :: u8) AND 0xC0 = 64 \<longleftrightarrow> unat b div 64 = 1"
  "(s :: u16) AND 0xff00 = 0xff00 \<longleftrightarrow> unat s div 256 = 255"
  "(s :: u16) AND 0xfe00 = 0xfc00 \<longleftrightarrow> unat s div 512 = 126"
  "(s :: u16) AND 0xffc0 = 0xfe80 \<longleftrightarrow> unat s div 64 = 1018"
proof -
  have m: "(0xC0 :: u8) = NOT (mask 6)" "(0xff00 :: u16) = NOT (mask 8)"
    "(0xfe00 :: u16) = NOT (mask 9)" "(0xffc0 :: u16) = NOT (mask 6)"
    by code_simp+
  show "b AND 0xC0 = 64 \<longleftrightarrow> unat b div 64 = 1"
    using high_bits_eq [OF m(1), of 64 b] by simp
  show "s AND 0xff00 = 0xff00 \<longleftrightarrow> unat s div 256 = 255"
    using high_bits_eq [OF m(2), of "0xff00" s] by simp
  show "s AND 0xfe00 = 0xfc00 \<longleftrightarrow> unat s div 512 = 126"
    using high_bits_eq [OF m(3), of "0xfc00" s] by simp
  show "s AND 0xffc0 = 0xfe80 \<longleftrightarrow> unat s div 64 = 1018"
    using high_bits_eq [OF m(4), of "0xfe80" s] by simp
qed

lemma octet_bound: "unat (a :: u8) < 256"
  using unsigned_less [of a, where 'a = nat] by simp

lemma segment_bound: "unat (s :: u16) < 65536"
  using unsigned_less [of s, where 'a = nat] by simp

lemma v4_number_div:
  "v4_number a b c d div 268435456 = unat a div 16"
  "v4_number a b c d div 16777216 = unat a"
  "v4_number a b c d div 4194304 = unat a * 4 + unat b div 64"
  "v4_number a b c d div 1048576 = unat a * 16 + unat b div 16"
  "v4_number a b c d div 65536 = unat a * 256 + unat b"
  using octet_bound [of a] octet_bound [of b] octet_bound [of c] octet_bound [of d]
  by (simp_all add: v4_number_def)

lemma digits_eq:
  fixes x x' y y' m :: nat
  assumes "y < m" and "y' < m"
  shows "x * m + y = x' * m + y' \<longleftrightarrow> x = x' \<and> y = y'"
proof
  assume eq: "x * m + y = x' * m + y'"
  have "(x * m + y) div m = x" "(x' * m + y') div m = x'" using assms by auto
  with eq show "x = x' \<and> y = y'" by simp
qed simp

lemma v4_number_inj:
  "v4_number a b c d = v4_number a' b' c' d' \<longleftrightarrow> a = a' \<and> b = b' \<and> c = c' \<and> d = d'"
  unfolding v4_number_def by (simp only: digits_eq octet_bound word_unat_eq_iff conj_assoc)

lemma v4_gate:
  "ip_is_private_or_local (V4 a b c d) \<longleftrightarrow> list_ex (in_block 32 (v4_number a b c d)) v4_blocks"
proof -
  note bounds = octet_bound [of a] octet_bound [of b]
  have eqs: "a = 10 \<longleftrightarrow> unat a = 10" "a = 100 \<longleftrightarrow> unat a = 100" "a = 127 \<longleftrightarrow> unat a = 127"
    "a = 169 \<longleftrightarrow> unat a = 169" "a = 172 \<longleftrightarrow> unat a = 172" "a = 192 \<longleftrightarrow> unat a = 192"
    "b = 254 \<longleftrightarrow> unat b = 254" "b = 168 \<longleftrightarrow> unat b = 168" "16 \<le> b \<and> b \<le> 31 \<longleftrightarrow> unat b div 16 = 1"
    "224 \<le> a \<and> a \<le> 239 \<longleftrightarrow> unat a div 16 = 14"
    using bounds by (auto simp: word_unat_eq_iff word_le_nat_alt)
  have digits: "unat a * 4 + unat b div 64 = 401 \<longleftrightarrow> unat a = 100 \<and> unat b div 64 = 1"
    "unat a * 16 + unat b div 16 = 2753 \<longleftrightarrow> unat a = 172 \<and> unat b div 16 = 1"
    "unat a * 256 + unat b = 43518 \<longleftrightarrow> unat a = 169 \<and> unat b = 254"
    "unat a * 256 + unat b = 49320 \<longleftrightarrow> unat a = 192 \<and> unat b = 168"
    using bounds digits_eq [of "unat b div 64" 4 1 "unat a" 100] digits_eq [of "unat b div 16" 16 1 "unat a" 172]
      digits_eq [of "unat b" 256 254 "unat a" 169] digits_eq [of "unat b" 256 168 "unat a" 192]
    by auto
  have "in_block 32 (v4_number a b c d) (v4_number p q r s, 32) \<longleftrightarrow>
      a = p \<and> b = q \<and> c = r \<and> d = s" for p q r s
    by (simp add: in_block_def v4_number_inj)
  then show ?thesis
    unfolding v4_blocks_def
    by (auto simp: in_block_def v4_number_div digits v4_is_loopback_def v4_is_private_def
        v4_is_link_local_def v4_is_multicast_def prefix_masks eqs)
qed

lemma v6_number_8:
  "v6_number [s0, s1, s2, s3, s4, s5, s6, s7] =
     ((((((unat s0 * 65536 + unat s1) * 65536 + unat s2) * 65536 + unat s3) * 65536 + unat s4) * 65536
        + unat s5) * 65536 + unat s6) * 65536 + unat s7"
  by (simp add: v6_number_def)

lemma v6_number_inj:
  "v6_number [s0, s1, s2, s3, s4, s5, s6, s7] = v6_number [t0, t1, t2, t3, t4, t5, t6, t7] \<longleftrightarrow>
   s0 = t0 \<and> s1 = t1 \<and> s2 = t2 \<and> s3 = t3 \<and> s4 = t4 \<and> s5 = t5 \<and> s6 = t6 \<and> s7 = t7"
  unfolding v6_number_8 by (simp only: digits_eq segment_bound word_unat_eq_iff conj_assoc)

lemma v6_number_div:
  assumes "k \<le> 16"
  shows "v6_number [s0, s1, s2, s3, s4, s5, s6, s7] div 2 ^ (112 + k) = unat s0 div 2 ^ k"
proof -
  have step: "(n * 65536 + unat s) div (65536 * m) = n div m" for n m and s :: u16
    using segment_bound [of s] by (simp add: div_mult2_eq)
  have "(2 :: nat) ^ (112 + k) = 65536 * (65536 * (65536 * (65536 * (65536 * (65536 * (65536 * 2 ^ k))))))"
    by (simp add: power_add)
  then show ?thesis unfolding v6_number_8 by (simp only: step)
qed

lemma v6_gate:
  "ip_is_private_or_local (V6 s0 s1 s2 s3 s4 s5 s6 s7) \<longleftrightarrow>
   list_ex (in_block 128 (v6_number [s0, s1, s2, s3, s4, s5, s6, s7])) v6_blocks"
proof -
  have host: "in_block 128 (v6_number [s0, s1, s2, s3, s4, s5, s6, s7]) (v6_number [t0, t1, t2, t3, t4, t5, t6, t7], 128)
      \<longleftrightarrow> s0 = t0 \<and> s1 = t1 \<and> s2 = t2 \<and> s3 = t3 \<and> s4 = t4 \<and> s5 = t5 \<and> s6 = t6 \<and> s7 = t7"
    for t0 t1 t2 t3 t4 t5 t6 t7
    by (simp add: in_block_def v6_number_inj)
  have net: "in_block 128 (v6_number [s0, s1, s2, s3, s4, s5, s6, s7]) (v6_number [t0, 0, 0, 0, 0, 0, 0, 0], 16 - k)
      \<longleftrightarrow> unat s0 div 2 ^ k = unat t0 div 2 ^ k" if "k \<le> 16" for k t0
    using that v6_number_div [OF that] by (simp add: in_block_def)
  show ?thesis
    using net [of 8 "0xff00"] net [of 9 "0xfc00"] net [of 6 "0xfe80"]
    by (auto simp: v6_blocks_def host v6_is_multicast_def prefix_masks)
qed

lemma gate_is_blocks:
  "ip_is_private_or_local ip \<longleftrightarrow>
     (case ip of
        V4 a b c d \<Rightarrow> list_ex (in_block 32 (v4_number a b c d)) v4_blocks
      | V6 s0 s1 s2 s3 s4 s5 s6 s7 \<Rightarrow>
          list_ex (in_block 128 (v6_number [s0, s1, s2, s3, s4, s5, s6, s7])) v6_blocks)"
  by (cases ip) (simp_all only: v4_gate v6_gate ip_addr.case)

section \<open>Properties\<close>

text \<open>C10: the gate for webhook URLs is the block list. A URL is accepted exactly when it parses, is \<open>http\<close> or
  \<open>https\<close>, carries no user and password, and its host is either an address outside every refused
  block, for IPv4 and IPv6, or a name that is neither \<open>localhost\<close> nor in an internal zone.\<close>

theorem webhook_gate_is_the_block_list:
  "validate_url X raw = Inr () \<longleftrightarrow>
   (\<exists>u host. x_url X raw = Some u \<and> u_scheme u \<in> {''http'', ''https''} \<and> u_username u = [] \<and>
      u_password u = None \<and> u_host u = Some host \<and>
      (case x_ip X (host_for_parse host) of
         None \<Rightarrow> to_ascii_lowercase host \<noteq> ''localhost'' \<and>
           \<not> hostname_in_internal_zone (to_ascii_lowercase host)
       | Some (V4 a b c d) \<Rightarrow> \<not> list_ex (in_block 32 (v4_number a b c d)) v4_blocks
       | Some (V6 s0 s1 s2 s3 s4 s5 s6 s7) \<Rightarrow>
           \<not> list_ex (in_block 128 (v6_number [s0, s1, s2, s3, s4, s5, s6, s7])) v6_blocks))"
  unfolding validate_url_def
  by (simp only: gate_is_blocks Let_def) (auto split: option.splits if_splits ip_addr.splits)

text \<open>C38: the IPv6 side of the gate knows no IPv4-mapped addresses. Any address of \<open>::ffff:0:0/96\<close>,
  loopback and private networks included, passes, although the same host as an IPv4 literal is
  refused.\<close>

theorem mapped_address_passes_the_gate:
  assumes "x_url X raw = Some u" and "u_scheme u = ''http''" and "u_username u = []"
    and "u_password u = None" and "u_host u = Some host"
    and "x_ip X (host_for_parse host) = Some (V6 0 0 0 0 0 0xffff hi lo)"
  shows "validate_url X raw = Inr ()"
  using assms by (simp add: validate_url_def v6_is_multicast_def)

theorem mapped_address_passes_the_gate_witness:
  "validate_url demo_externs ''http://[::ffff:127.0.0.1]/'' = Inr () \<and>
   validate_url demo_externs ''http://127.0.0.1/'' \<noteq> Inr ()"
proof
  show "validate_url demo_externs ''http://[::ffff:127.0.0.1]/'' = Inr ()"
    by (rule mapped_address_passes_the_gate [where hi = "0x7F00" and lo = 1
          and host = "''[::ffff:127.0.0.1]''"
          and u = "\<lparr>u_scheme = ''http'', u_username = [], u_password = None,
            u_host = Some ''[::ffff:127.0.0.1]''\<rparr>"])
       (simp_all add: demo_externs_def demo_url_def demo_ip_def host_for_parse_def
          trim_end_matches_def trim_start_matches_def starts_with_def)
  show "validate_url demo_externs ''http://127.0.0.1/'' \<noteq> Inr ()"
    by (simp add: validate_url_def demo_externs_def demo_url_def demo_ip_def host_for_parse_def
          trim_end_matches_def trim_start_matches_def starts_with_def v4_is_loopback_def)
qed

text \<open>What the task ought to send: for every trigger whose issue is not silenced, one message to the URL
  configured for the project of the issue.\<close>

definition webhook_of :: "string \<Rightarrow> db \<Rightarrow> string option" where
  "webhook_of project d = Option.bind (select_project project d) pr_webhook_url"

definition wanted :: "db \<Rightarrow> string \<Rightarrow> trigger \<Rightarrow> delivery list" where
  "wanted d public_url t =
     (if is_status (tr_issue t) = Muted \<or> is_status (tr_issue t) = Ignored then []
      else case webhook_of (is_project (tr_issue t)) d of
             None \<Rightarrow> [] | Some url \<Rightarrow> [(url, build_payload t public_url)])"

lemma webhook_of_recorded:
  "update_project name (\<lambda>p. p\<lparr>pr_last_webhook_status := a, pr_last_webhook_at := b\<rparr>) d = (n, d') \<Longrightarrow>
   webhook_of project d' = webhook_of project d"
  by (auto simp: webhook_of_def select_project_def update_project_def find_update_key bind_map_option
      comp_def if_distrib cong: if_cong)

lemma webhook_of_lookup:
  "select_project project d = None \<Longrightarrow> webhook_of project d = None"
  "select_project project d = Some r \<Longrightarrow> webhook_of project d = pr_webhook_url r"
  by (simp_all add: webhook_of_def)

lemma wp_deliver:
  "wp (deliver X post public_url sent t)
     (\<lambda>r w'. (\<forall>p. webhook_of p (w_db w') = webhook_of p (w_db w)) \<and>
        (r = Ok None \<or> r = Ok (first_opt (wanted (w_db w) public_url t)))) w"
  unfolding deliver_def project_by_name_def record_webhook_attempt_def Let_def
  by (auto intro!: wp_intros simp: wanted_def webhook_of_recorded project_of_row_def webhook_of_lookup
      first_opt_def split: option.splits)

lemma wp_deliver_quiet:
  "quiet w \<Longrightarrow> wp (deliver X post public_url sent t)
     (\<lambda>r w'. quiet w' \<and> (\<forall>p. webhook_of p (w_db w') = webhook_of p (w_db w)) \<and>
        r = Ok (first_opt (wanted (w_db w) public_url t))) w"
  unfolding deliver_def project_by_name_def record_webhook_attempt_def Let_def
  by (auto intro!: wp_quiet_intros simp: wanted_def webhook_of_recorded project_of_row_def
      webhook_of_recorded [OF prod.collapse [symmetric]] webhook_of_lookup first_opt_def
      split: option.splits)

lemma wanted_cong:
  "(\<forall>p. webhook_of p d' = webhook_of p d) \<Longrightarrow> wanted d' public_url = wanted d public_url"
  by (rule ext) (simp add: wanted_def)

abbreviation opt_list :: "'a option \<Rightarrow> 'a list" where
  "opt_list x \<equiv> (case x of Some y \<Rightarrow> [y] | None \<Rightarrow> [])"

lemma wanted_first: "opt_list (first_opt (wanted d public_url t)) = wanted d public_url t"
  by (simp add: wanted_def first_opt_def split: option.split)

lemma webhook_run_sends:
  "\<exists>ds w'. webhook_run X post public_url sent ts w = (Ok (sent @ ds), w') \<and>
     subseq ds (concat (map (wanted (w_db w) public_url) ts))"
proof (induction ts arbitrary: sent w)
  case Nil
  then show ?case by (simp add: ret_def)
next
  case (Cons t ts)
  obtain r w' where run: "deliver X post public_url sent t w = (r, w')" by force
  with wp_deliver [of X post public_url sent t w]
  have same: "wanted (w_db w') public_url = wanted (w_db w) public_url"
    and "r = Ok None \<or> r = Ok (first_opt (wanted (w_db w) public_url t))"
    using wanted_cong by (auto simp: wp_def)
  then obtain d where r: "r = Ok d" and d: "subseq (opt_list d) (wanted (w_db w) public_url t)"
    using wanted_first by fastforce
  from Cons.IH [of "sent @ opt_list d" w'] obtain ds w'' where
    "webhook_run X post public_url (sent @ opt_list d) ts w' = (Ok ((sent @ opt_list d) @ ds), w'')"
    and "subseq ds (concat (map (wanted (w_db w) public_url) ts))"
    unfolding same by blast
  with d run r show ?case
    by (auto simp: bnd_def intro!: exI [of _ "opt_list d @ ds"] list_emb_append_mono)
qed

lemma webhook_run_quiet:
  "quiet w \<Longrightarrow> fst (webhook_run X post public_url sent ts w) =
     Ok (sent @ concat (map (wanted (w_db w) public_url) ts))"
proof (induction ts arbitrary: sent w)
  case Nil
  then show ?case by (simp add: ret_def)
next
  case (Cons t ts)
  obtain r w' where run: "deliver X post public_url sent t w = (r, w')" by force
  with wp_deliver_quiet [OF Cons.prems, of X post public_url sent t]
  have same: "wanted (w_db w') public_url = wanted (w_db w) public_url" and "quiet w'"
    and r: "r = Ok (first_opt (wanted (w_db w) public_url t))"
    using wanted_cong by (auto simp: wp_def)
  with run Cons.IH [of w'] wanted_first show ?case by (simp add: bnd_def)
qed

text \<open>C24: only configured webhooks are called, and never for silenced issues. Whatever the database and
  the receivers do, the task survives, and what it sends is a subsequence of the messages the
  triggers ask for, in their order and each to the URL stored for its project. Without database
  faults it sends exactly those.\<close>

theorem webhooks_go_where_configured:
  "(\<exists>ds. fst (webhook_run X post public_url [] ts w) = Ok ds \<and>
      subseq ds (concat (map (wanted (w_db w) public_url) ts))) \<and>
   fst (webhook_run X post public_url [] ts (calm w)) =
     Ok (concat (map (wanted (w_db w) public_url) ts))"
  using webhook_run_sends [of X post public_url "[]" ts w]
    webhook_run_quiet [of "calm w" X post public_url "[]" ts] by auto

end
