(* ===== verification/Api.thy ===== *)
theory Api
  imports Auth Webhook
begin

text \<open>
  The read and administration endpoints of \<open>crates/errexd/src/ingest.rs\<close>, except those for users. A
  handler takes the request's headers, its path and query parameters and its body (\<open>None\<close> when it
  does not deserialize); \<open>respond\<close> turns its errors into a 500.
\<close>

section \<open>Views\<close>

definition dsn_for :: "string \<Rightarrow> string \<Rightarrow> string \<Rightarrow> string" where
  "dsn_for public_url project token =
     (let trimmed = trim_end_matches (CHR ''/'') public_url;
          (scheme, authority) =
            (case split_once ''://'' trimmed of Some parts \<Rightarrow> parts | None \<Rightarrow> (''http'', trimmed))
      in scheme @ ''://'' @ token @ ''@'' @ authority @ ''/'' @ project)"

definition ingest_url_for :: "string \<Rightarrow> string \<Rightarrow> string \<Rightarrow> string" where
  "ingest_url_for public_url project token =
     trim_end_matches (CHR ''/'') public_url @ ''/api/'' @ project @ ''/envelope/?sentry_key='' @ token"

definition view_of_project :: "string \<Rightarrow> project \<Rightarrow> admin_project_view" where
  "view_of_project public_url p =
     \<lparr>av_name = pj_name p, av_token = pj_token p, av_webhook_url = pj_webhook_url p,
      av_created_at = pj_created_at p, av_last_used_at = pj_last_used_at p,
      av_dsn = dsn_for public_url (pj_name p) (pj_token p),
      av_ingest_url = ingest_url_for public_url (pj_name p) (pj_token p),
      av_last_webhook_status = pj_last_webhook_status p,
      av_last_webhook_at = pj_last_webhook_at p\<rparr>"

section \<open>Endpoints for every signed-in user\<close>

definition list_projects :: "externs \<Rightarrow> headers \<Rightarrow> ('z, response) op" where
  "list_projects X hs =
     guarded (require_auth X hs)
       (bnd project_summaries (\<lambda>ps. ret (reply 200 (PSummaries ps))))"

definition list_issues :: "externs \<Rightarrow> headers \<Rightarrow> string option \<Rightarrow> ('z, response) op" where
  "list_issues X hs project =
     guarded (require_auth X hs)
       (bnd (case project of Some p \<Rightarrow> list_issues_by_project X p | None \<Rightarrow> load_issues X) (\<lambda>is.
        ret (reply 200 (PIssues is))))"

definition get_latest_event :: "externs \<Rightarrow> headers \<Rightarrow> int \<Rightarrow> ('z, response) op" where
  "get_latest_event X hs issue_id =
     guarded (require_auth X hs)
       (bnd (latest_event X issue_id) (\<lambda>stored.
        case stored of
          Some e \<Rightarrow> ret (reply 200 (PEvent e))
        | None \<Rightarrow> ret (plain 404 ''no event for issue'')))"

section \<open>Triage\<close>

definition put_status ::
  "externs \<Rightarrow> headers \<Rightarrow> int \<Rightarrow> issue_status option \<Rightarrow> ('z server_ext, response) op" where
  "put_status X hs issue_id body =
     guarded (require_admin X hs)
       (case body of
          None \<Rightarrow> ret (plain 400 ''invalid status body'')
        | Some status \<Rightarrow>
          bnd (try_op (set_status X issue_id status)) (\<lambda>res.
          case res of
            Inr issue \<Rightarrow>
              bnd (broadcast (IssueUpdated issue)) (\<lambda>_. ret (reply 200 (PIssue issue)))
          | Inl e \<Rightarrow>
              (case e of NotFound _ \<Rightarrow> ret (plain 404 ''issue not found'') | other \<Rightarrow> err other)))"

section \<open>Storage and retention\<close>

definition check_admin :: "externs \<Rightarrow> headers \<Rightarrow> ('z, response + unit) op" where
  "check_admin X hs =
     bnd (require_admin X hs) (\<lambda>ctx. ret (case ctx of Inl resp \<Rightarrow> Inl resp | Inr _ \<Rightarrow> Inr ()))"

interpretation check_gate: access_gate "check_admin X hs" "\<lambda>d. admin_caller d hs" for X hs
  unfolding check_admin_def
  by unfold_locales (rule wp_bnd, rule wp_require_admin; force intro!: wp_ret simp: refusal_def)

lemma guarded_admin_quiet:
  assumes "quiet w" and "admin_caller (w_db w) hs"
  obtains d where "slid (w_db w) d" "guarded (check_admin X hs) m w = m (w\<lparr>w_db := d\<rparr>)"
proof -
  obtain ctx d where "require_admin X hs w = (Ok (Inr ctx), w\<lparr>w_db := d\<rparr>)" "slid (w_db w) d"
    using require_admin_quiet [OF assms] by metis
  then show thesis
    by (intro that [of d]) (simp_all add: guarded_def check_admin_def bnd_def ret_def)
qed

definition admin_get_storage ::
  "externs \<Rightarrow> (db \<Rightarrow> int) \<Rightarrow> (time \<Rightarrow> string \<Rightarrow> int option) \<Rightarrow> headers \<Rightarrow> ('z, response) op" where
  "admin_get_storage X page_bytes julian_age hs =
     guarded (check_admin X hs)
       (bnd (storage_stats page_bytes julian_age) (\<lambda>s. ret (reply 200 (PStorage s))))"

definition admin_get_retention :: "externs \<Rightarrow> headers \<Rightarrow> ('z, response) op" where
  "admin_get_retention X hs =
     guarded (check_admin X hs)
       (bnd get_retention_settings (\<lambda>s. ret (reply 200 (PRetention s))))"

definition admin_put_retention ::
  "externs \<Rightarrow> headers \<Rightarrow> retention_settings option \<Rightarrow> ('z, response) op" where
  "admin_put_retention X hs body =
     guarded (check_admin X hs)
       (case body of
          None \<Rightarrow> ret (plain 400 ''missing body'')
        | Some s \<Rightarrow>
          if rs_events_per_issue_max s < 0 \<or> rs_issues_per_project_max s < 0
             \<or> rs_event_retention_days s < 0
          then ret (plain 400 ''values must be >= 0'')
          else bnd (set_retention_settings s) (\<lambda>_. ret (reply 200 (PRetention s))))"

section \<open>Projects\<close>

definition admin_list_projects :: "externs \<Rightarrow> app_config \<Rightarrow> headers \<Rightarrow> ('z, response) op" where
  "admin_list_projects X cfg hs =
     guarded (check_admin X hs)
       (bnd (list_admin_projects X) (\<lambda>ps.
        ret (reply 200 (PProjects (map (view_of_project (cf_public_url cfg)) ps)))))"

definition admin_create_project ::
  "externs \<Rightarrow> app_config \<Rightarrow> headers \<Rightarrow> bytes \<Rightarrow> string option \<Rightarrow> ('z, response) op" where
  "admin_create_project X cfg hs uuid body =
     guarded (check_admin X hs)
       (case body of
          None \<Rightarrow> ret (plain 400 ''missing body'')
        | Some raw \<Rightarrow>
          let name = trim raw in
          if name = [] then ret (plain 400 ''name must not be empty'')
          else bnd (try_op (create_project X uuid name)) (\<lambda>res.
            case res of
              Inr p \<Rightarrow> ret (reply 201 (PProject (view_of_project (cf_public_url cfg) p)))
            | Inl e \<Rightarrow>
                if e = Sqlx UniqueViolation then ret (plain 409 ''project name already exists'')
                else err e))"

definition admin_set_webhook ::
  "externs \<Rightarrow> app_config \<Rightarrow> headers \<Rightarrow> string \<Rightarrow> string option option \<Rightarrow> ('z, response) op" where
  "admin_set_webhook X cfg hs name body =
     guarded (check_admin X hs)
       (case body of
          None \<Rightarrow> ret (plain 400 ''missing body'')
        | Some url \<Rightarrow>
          (case (case url of Some u \<Rightarrow> validate_url X u | None \<Rightarrow> Inr ()) of
             Inl why \<Rightarrow> ret (plain 400 why)
           | Inr _ \<Rightarrow>
             bnd (try_op (set_project_webhook name url)) (\<lambda>res.
             case res of
               Inr _ \<Rightarrow>
                 bnd (project_by_name X name) (\<lambda>p.
                 case p of
                   None \<Rightarrow> panic
                 | Some p \<Rightarrow> ret (reply 200 (PProject (view_of_project (cf_public_url cfg) p))))
             | Inl e \<Rightarrow>
                 (case e of NotFound _ \<Rightarrow> ret (plain 404 ''project not found'') | other \<Rightarrow> err other))))"

definition admin_rotate_token ::
  "externs \<Rightarrow> app_config \<Rightarrow> headers \<Rightarrow> bytes \<Rightarrow> string \<Rightarrow> ('z, response) op" where
  "admin_rotate_token X cfg hs uuid name =
     guarded (check_admin X hs)
       (bnd (try_op (rotate_token X uuid name)) (\<lambda>res.
        case res of
          Inr p \<Rightarrow> ret (reply 200 (PProject (view_of_project (cf_public_url cfg) p)))
        | Inl e \<Rightarrow>
            (case e of NotFound _ \<Rightarrow> ret (plain 404 ''project not found'') | other \<Rightarrow> err other)))"

definition admin_rename_project ::
  "externs \<Rightarrow> app_config \<Rightarrow> headers \<Rightarrow> string \<Rightarrow> string option \<Rightarrow> ('z, response) op" where
  "admin_rename_project X cfg hs name body =
     guarded (check_admin X hs)
       (case body of
          None \<Rightarrow> ret (plain 400 ''missing body'')
        | Some raw \<Rightarrow>
          let new_name = trim raw in
          if new_name = [] then ret (plain 400 ''name must not be empty'')
          else bnd (try_op (rename_project X name new_name)) (\<lambda>res.
            case res of
              Inr p \<Rightarrow> ret (reply 200 (PProject (view_of_project (cf_public_url cfg) p)))
            | Inl e \<Rightarrow>
                (case e of
                   NotFound _ \<Rightarrow> ret (plain 404 ''project not found'')
                 | other \<Rightarrow>
                     if other = Sqlx UniqueViolation
                     then ret (plain 409 ''project name already exists'') else err other)))"

definition admin_delete_project :: "externs \<Rightarrow> headers \<Rightarrow> string \<Rightarrow> ('z, response) op" where
  "admin_delete_project X hs name =
     guarded (check_admin X hs)
       (bnd (try_op (delete_project X name)) (\<lambda>res.
        case res of
          Inr summary \<Rightarrow> ret (reply 200 (PDeleted summary))
        | Inl e \<Rightarrow>
            (case e of NotFound _ \<Rightarrow> ret (plain 404 ''project not found'') | other \<Rightarrow> err other)))"

definition admin_destroy_preview :: "externs \<Rightarrow> headers \<Rightarrow> string \<Rightarrow> ('z, response) op" where
  "admin_destroy_preview X hs name =
     guarded (check_admin X hs)
       (bnd (try_op (delete_preview X name)) (\<lambda>res.
        case res of
          Inr summary \<Rightarrow> ret (reply 200 (PDeleted summary))
        | Inl e \<Rightarrow>
            (case e of NotFound _ \<Rightarrow> ret (plain 404 ''project not found'') | other \<Rightarrow> err other)))"

definition admin_project_activity :: "externs \<Rightarrow> headers \<Rightarrow> string \<Rightarrow> ('z, response) op" where
  "admin_project_activity X hs name =
     guarded (check_admin X hs)
       (bnd (project_by_name X name) (\<lambda>p.
        if p = None then ret (plain 404 ''project not found'')
        else bnd utc_now (\<lambda>now.
             bnd (activity_stats X name now) (\<lambda>s. ret (reply 200 (PActivity s))))))"

end
