(* ===== verification/Api_Users.thy ===== *)
theory Api_Users
  imports Api
begin

text \<open>
  The administration of users in \<open>crates/errexd/src/ingest.rs\<close>. The guard that keeps at least one
  active administrator reads the tables first and writes later; the two halves of the PATCH handler
  are separate definitions, and theory \<open>Races\<close> lets other requests run between their steps.
\<close>

section \<open>Handlers\<close>

record create_user_body =
  cu_username :: string
  cu_password :: string
  cu_role :: role

record patch_user_body =
  pu_password :: "string option"
  pu_role :: "role option"
  pu_deactivated :: "bool option"

definition admin_list_users :: "externs \<Rightarrow> headers \<Rightarrow> ('z, response) op" where
  "admin_list_users X hs =
     guarded (check_admin X hs) (bnd (list_users X) (\<lambda>us. ret (reply 200 (PUsers us))))"

definition admin_create_user ::
  "externs \<Rightarrow> headers \<Rightarrow> string \<Rightarrow> create_user_body option \<Rightarrow> ('z, response) op" where
  "admin_create_user X hs salt body =
     guarded (check_admin X hs)
       (case body of
          None \<Rightarrow> ret (plain 400 ''missing body'')
        | Some body \<Rightarrow>
          let username = trim (cu_username body) in
          if username = [] \<or> length username > 64 then ret (plain 400 ''username 1..=64 chars'')
          else case validate_password_strength (cu_password body) of
            Inl why \<Rightarrow> ret (plain 400 why)
          | Inr _ \<Rightarrow>
            (case hash_password X salt (cu_password body) of
               None \<Rightarrow> err (Crypto ''crypto'')
             | Some hash \<Rightarrow>
               bnd (try_op (create_user X username hash (cu_role body))) (\<lambda>res.
               case res of
                 Inr u \<Rightarrow> ret (reply 201 (PUser u))
               | Inl e \<Rightarrow>
                   if e = Sqlx UniqueViolation then ret (plain 409 ''username already exists'')
                   else err e)))"

definition admin_get_user :: "externs \<Rightarrow> headers \<Rightarrow> string \<Rightarrow> ('z, response) op" where
  "admin_get_user X hs u =
     guarded (check_admin X hs)
       (bnd (get_user X u) (\<lambda>found.
        case found of
          Some user \<Rightarrow> ret (reply 200 (PUser user))
        | None \<Rightarrow> ret (plain 404 ''user not found'')))"

text \<open>The checks of the PATCH handler: a refusal, or the go-ahead.\<close>

definition patch_checks ::
  "externs \<Rightarrow> string \<Rightarrow> patch_user_body \<Rightarrow> ('z, response + unit) op" where
  "patch_checks X u body =
     bnd (get_user X u) (\<lambda>found.
     if found = None then ret (Inl (plain 404 ''user not found''))
     else case (case pu_password body of Some p \<Rightarrow> validate_password_strength p | None \<Rightarrow> Inr ()) of
       Inl why \<Rightarrow> ret (Inl (plain 400 why))
     | Inr _ \<Rightarrow>
       bnd (get_user X u) (\<lambda>found.
       case found of
         None \<Rightarrow> panic
       | Some current \<Rightarrow>
         let demoting = (case pu_role body of
                           Some r \<Rightarrow> r \<noteq> Admin \<and> u_role current = Admin | None \<Rightarrow> False);
             deactivating = (pu_deactivated body = Some True \<and> u_role current = Admin
                             \<and> u_deactivated_at current = None) in
         if demoting \<or> deactivating then
           bnd count_active_admins (\<lambda>n.
           if n \<le> 1
           then ret (Inl (plain 409 ''cannot demote or deactivate the last active admin''))
           else ret (Inr ()))
         else ret (Inr ())))"

definition patch_apply ::
  "externs \<Rightarrow> string \<Rightarrow> string \<Rightarrow> patch_user_body \<Rightarrow> ('z, response) op" where
  "patch_apply X salt u body =
     bnd (case pu_password body of
            None \<Rightarrow> ret ()
          | Some p \<Rightarrow>
              (case hash_password X salt p of
                 None \<Rightarrow> err (Crypto ''crypto'')
               | Some hash \<Rightarrow> set_user_password u hash)) (\<lambda>_.
     bnd (case pu_role body of None \<Rightarrow> ret () | Some role \<Rightarrow> set_user_role u role) (\<lambda>_.
     bnd (case pu_deactivated body of None \<Rightarrow> ret () | Some d \<Rightarrow> set_user_deactivated X u d) (\<lambda>_.
     bnd (get_user X u) (\<lambda>found.
     case found of None \<Rightarrow> panic | Some updated \<Rightarrow> ret (reply 200 (PUser updated))))))"

definition admin_patch_user ::
  "externs \<Rightarrow> headers \<Rightarrow> string \<Rightarrow> string \<Rightarrow> patch_user_body option \<Rightarrow> ('z, response) op" where
  "admin_patch_user X hs salt u body =
     guarded (check_admin X hs)
       (case body of
          None \<Rightarrow> ret (plain 400 ''missing body'')
        | Some body \<Rightarrow>
          bnd (patch_checks X u body) (\<lambda>verdict.
          case verdict of Inl resp \<Rightarrow> ret resp | Inr _ \<Rightarrow> patch_apply X salt u body))"

definition admin_delete_user :: "externs \<Rightarrow> headers \<Rightarrow> string \<Rightarrow> ('z, response) op" where
  "admin_delete_user X hs u =
     guarded (check_admin X hs)
       (bnd (get_user X u) (\<lambda>found.
        case found of
          None \<Rightarrow> ret (plain 404 ''user not found'')
        | Some target \<Rightarrow>
          bnd (if u_role target = Admin \<and> u_deactivated_at target = None
               then bnd count_active_admins (\<lambda>n. ret (n \<le> 1)) else ret False) (\<lambda>last.
          if last then ret (plain 409 ''cannot delete the last active admin'')
          else bnd (delete_user u) (\<lambda>_. ret (reply 204 PNone)))))"

definition admin_list_user_sessions :: "externs \<Rightarrow> headers \<Rightarrow> string \<Rightarrow> ('z, response) op" where
  "admin_list_user_sessions X hs u =
     guarded (check_admin X hs)
       (bnd (get_user X u) (\<lambda>found.
        if found = None then ret (plain 404 ''user not found'')
        else bnd (list_user_sessions X u) (\<lambda>ss. ret (reply 200 (PSessions ss)))))"

definition admin_revoke_user_sessions :: "externs \<Rightarrow> headers \<Rightarrow> string \<Rightarrow> ('z, response) op" where
  "admin_revoke_user_sessions X hs u =
     guarded (check_admin X hs)
       (bnd (get_user X u) (\<lambda>found.
        if found = None then ret (plain 404 ''user not found'')
        else bnd (revoke_user_sessions u) (\<lambda>n. ret (reply 200 (PRevoked n)))))"

section \<open>The last active administrator\<close>

definition admin_remains :: "db \<Rightarrow> bool" where
  "admin_remains d \<longleftrightarrow> schema_ok d \<and> (users d = [] \<or> list_ex active_admin (users d))"

lemma slid_admin_remains: "slid d d' \<Longrightarrow> admin_remains d \<Longrightarrow> admin_remains d'"
  by (auto simp: admin_remains_def slid_schema_ok dest: slid_same)

text \<open>Statements on one user keep whatever holds of some user, if they keep it of that one.\<close>

lemma list_ex_update_where:
  assumes "\<And>u. Q u \<Longrightarrow> P u \<Longrightarrow> P (f u)"
  shows "list_ex P rs \<Longrightarrow> list_ex P (update_where Q f rs)"
  by (induction rs) (auto simp: assms)

lemma preserves_update_user:
  assumes "\<And>u. us_username u = name \<Longrightarrow> P u \<Longrightarrow> P (f u)"
  shows "preserves (\<lambda>d. list_ex P (users d)) (exec (update_user name f))"
  by (rule preserves_exec) (simp add: update_user_def list_ex_update_where assms)

definition other_admin :: "string \<Rightarrow> user_row \<Rightarrow> bool" where
  "other_admin name u \<longleftrightarrow> us_username u \<noteq> name \<and> active_admin u"

definition this_admin :: "string \<Rightarrow> user_row \<Rightarrow> bool" where
  "this_admin name u \<longleftrightarrow> us_username u = name \<and> active_admin u"

lemma preserves_sessions: "preserves (\<lambda>d. list_ex P (users d)) (exec (delete_sessions Q))"
  by (rule preserves_exec) (simp add: delete_sessions_def)

lemma patch_apply_keeps:
  assumes "\<And>u h. us_username u = name \<Longrightarrow> P u \<Longrightarrow> P (u\<lparr>us_password_hash := h\<rparr>)"
    and "\<And>u r. us_username u = name \<Longrightarrow> P u \<Longrightarrow> pu_role body = Some r \<Longrightarrow> P (u\<lparr>us_role := role_as_str r\<rparr>)"
    and "\<And>u v b. us_username u = name \<Longrightarrow> P u \<Longrightarrow> pu_deactivated body = Some b \<Longrightarrow> (b \<longleftrightarrow> v \<noteq> None) \<Longrightarrow>
      P (u\<lparr>us_deactivated_at := v\<rparr>)"
  shows "preserves (\<lambda>d. list_ex P (users d)) (patch_apply X salt name body)"
  unfolding patch_apply_def set_user_password_def set_user_role_def set_user_deactivated_def
    get_user_def Let_def
  by (intro pres_intros preserves_update_user preserves_sessions)
     (auto intro: assms)

lemma patch_apply_schema: "preserves schema_ok (patch_apply X salt name body)"
  unfolding patch_apply_def by (intro pres_intros schema_intros)

text \<open>The checks of the PATCH handler let through only what cannot lose the last active admin.\<close>

definition patch_allowed :: "string \<Rightarrow> patch_user_body \<Rightarrow> db \<Rightarrow> bool" where
  "patch_allowed name body d \<longleftrightarrow>
     (if (pu_role body = Some Viewer \<or> pu_deactivated body = Some True) \<and>
         map_option active_admin (select_user name d) = Some True
      then 2 \<le> count_where active_admin (users d) else True)"

lemma not_Admin: "r \<noteq> Admin \<longleftrightarrow> r = Viewer"
  by (cases r) simp_all

lemma wp_patch_checks:
  "wp (patch_checks X name body)
     (\<lambda>r w'. w_db w' = w_db w \<and>
        (case r of
           Ok (Inr _) \<Rightarrow> select_user name (w_db w) \<noteq> None \<and> patch_allowed name body (w_db w)
         | Ok (Inl resp) \<Rightarrow> re_status resp \<in> {400, 404, 409}
         | Err e \<Rightarrow> True
         | Panic \<Rightarrow> False)) w"
  unfolding patch_checks_def get_user_def count_active_admins_def Let_def
  by (auto intro!: wp_intros simp: patch_allowed_def user_of_row_def active_admin_def not_Admin
      split: option.splits)

lemma another_admin:
  assumes "distinct (map us_username us)" and "2 \<le> count_where active_admin us"
  shows "list_ex (other_admin name) us"
proof (rule ccontr)
  assume none: "\<not> list_ex (other_admin name) us"
  let ?as = "map us_username (filter active_admin us)"
  have "set ?as \<subseteq> {name}"
    using none by (auto simp: list_ex_iff other_admin_def)
  then have "card (set ?as) \<le> 1" using card_mono [of "{name}"] by simp
  moreover have "distinct ?as" by (simp add: assms(1) distinct_map_filter)
  ultimately have "length ?as \<le> 1" using distinct_card [of ?as] by simp
  with assms(2) show False by (simp add: count_where_def)
qed

lemma admin_remains_via:
  assumes "preserves schema_ok m" and "preserves (\<lambda>d. list_ex P (users d)) m"
    and "schema_ok (w_db w)" and "list_ex P (users (w_db w))" and "\<And>u. P u \<Longrightarrow> active_admin u"
  shows "wp m (\<lambda>_ w'. admin_remains (w_db w')) w"
proof -
  have "schema_ok (w_db (snd (m w)))" "list_ex P (users (w_db (snd (m w))))"
    using preservesD [OF assms(1,3)] preservesD [OF assms(2), of w] assms(4) by blast+
  moreover from this(2) have "list_ex active_admin (users (w_db (snd (m w))))"
    using assms(5) by (auto simp: list_ex_iff)
  ultimately show ?thesis by (simp add: wp_def admin_remains_def case_prod_beta)
qed

lemma select_user_member:
  "schema_ok d \<Longrightarrow> u \<in> set (users d) \<Longrightarrow> us_username u = name \<Longrightarrow> select_user name d = Some u"
  using user_table.lookup_iff_member [of d name u]
  by (simp add: select_user_def schema_ok_def users_ok_def)

lemma wp_patch_apply:
  assumes "admin_remains (w_db w)" and "select_user name (w_db w) \<noteq> None"
    and "patch_allowed name body (w_db w)"
  shows "wp (patch_apply X salt name body) (\<lambda>_ w'. admin_remains (w_db w')) w"
proof (cases "list_ex (other_admin name) (users (w_db w))")
  case True
  show ?thesis
    by (rule admin_remains_via [OF patch_apply_schema patch_apply_keeps, of name "other_admin name"])
       (use assms(1) True in \<open>auto simp: admin_remains_def other_admin_def active_admin_def\<close>)
next
  case False
  have ok: "schema_ok (w_db w)" using assms(1) by (simp add: admin_remains_def)
  have "users (w_db w) \<noteq> []" using assms(2) by (auto simp: select_user_def)
  then obtain a where a: "a \<in> set (users (w_db w))" "active_admin a" "us_username a = name"
    using assms(1) False by (auto simp: admin_remains_def list_ex_iff other_admin_def)
  then have "select_user name (w_db w) = Some a" using select_user_member [OF ok] by blast
  moreover have "\<not> 2 \<le> count_where active_admin (users (w_db w))"
    using False another_admin ok by (auto simp: schema_ok_def users_ok_def)
  ultimately have "pu_role body \<noteq> Some Viewer" "pu_deactivated body \<noteq> Some True"
    using assms(3) a(2) by (auto simp: patch_allowed_def)
  then show ?thesis
    by (intro admin_remains_via [OF patch_apply_schema patch_apply_keeps, of name "this_admin name"])
       (use a ok in \<open>auto simp: this_admin_def active_admin_def list_ex_iff role_as_str_def not_Admin
          split: role.splits\<close>)
qed

lemma patch_keeps_admin: "preserves admin_remains (admin_patch_user X hs salt name body)"
  unfolding admin_patch_user_def
proof (rule check_gate.preserves_guarded [OF slid_admin_remains], assumption+)
  have "preserves admin_remains (bnd (patch_checks X name b) (\<lambda>verdict.
      case verdict of Inl resp \<Rightarrow> ret resp | Inr _ \<Rightarrow> patch_apply X salt name b))" for b
    by (rule preserves_wp, rule wp_bnd, rule wp_mono [OF wp_patch_checks])
       (auto intro!: wp_ret wp_patch_apply split: outcome.splits sum.splits)
  then show "preserves admin_remains (case body of None \<Rightarrow> ret (plain 400 ''missing body'')
      | Some b \<Rightarrow> bnd (patch_checks X name b) (\<lambda>verdict.
          case verdict of Inl resp \<Rightarrow> ret resp | Inr _ \<Rightarrow> patch_apply X salt name b))"
    by (cases body) (auto intro: pres_intros)
qed

lemma deleted_admin:
  assumes "admin_remains d" and "select_user name d = Some r"
    and "active_admin r \<Longrightarrow> 2 \<le> count_where active_admin (users d)"
    and "delete_users (\<lambda>u. us_username u = name) d = (n, d')"
  shows "admin_remains d'"
proof -
  have ok: "schema_ok d" using assms(1) by (simp add: admin_remains_def)
  have "list_ex (other_admin name) (users d)"
  proof (cases "active_admin r")
    case True
    then show ?thesis
      using another_admin assms(3) ok by (simp add: schema_ok_def users_ok_def)
  next
    case False
    have "users d \<noteq> []" using assms(2) by (auto simp: select_user_def)
    then obtain a where a: "a \<in> set (users d)" "active_admin a"
      using assms(1) by (auto simp: admin_remains_def list_ex_iff)
    then have "us_username a \<noteq> name" using False select_user_member [OF ok] assms(2) by fastforce
    with a show ?thesis by (auto simp: list_ex_iff other_admin_def)
  qed
  moreover have "schema_ok d'"
    using schema_ok_delete_users [OF ok, of "\<lambda>u. us_username u = name"] assms(4) by simp
  moreover have "users d' = delete_where (\<lambda>u. us_username u = name) (users d)"
    using assms(4) by (auto simp: delete_users_def)
  ultimately show ?thesis by (auto simp: admin_remains_def list_ex_iff other_admin_def)
qed

lemma delete_keeps_admin: "preserves admin_remains (admin_delete_user X hs name)"
  unfolding admin_delete_user_def
proof (rule check_gate.preserves_guarded [OF slid_admin_remains], assumption+, rule preserves_wp)
  fix w :: "'a world_scheme"
  assume J: "admin_remains (w_db w)"
  show "wp (bnd (get_user X name) (\<lambda>found.
      case found of
        None \<Rightarrow> ret (plain 404 ''user not found'')
      | Some target \<Rightarrow>
        bnd (if u_role target = Admin \<and> u_deactivated_at target = None
             then bnd count_active_admins (\<lambda>n. ret (n \<le> 1)) else ret False) (\<lambda>last.
        if last then ret (plain 409 ''cannot delete the last active admin'')
        else bnd (delete_user name) (\<lambda>_. ret (reply 204 PNone)))))
     (\<lambda>_ w'. admin_remains (w_db w')) w"
    unfolding get_user_def count_active_admins_def delete_user_def
    by (auto intro!: wp_intros simp: J user_of_row_def)
       (rule deleted_admin [OF J], assumption; force simp: active_admin_def)+
qed

section \<open>A demotion without faults\<close>

text \<open>What the two halves of a PATCH that demotes an administrator do.\<close>

definition demotion :: patch_user_body where
  "demotion = \<lparr>pu_password = None, pu_role = Some Viewer, pu_deactivated = None\<rparr>"

lemma patch_checks_demotion:
  assumes "quiet w" and "select_user name (w_db w) = Some u" and "us_role u = ''admin''"
    and "2 \<le> count_where active_admin (users (w_db w))"
  shows "patch_checks X name demotion w = (Ok (Inr ()), w)"
  using assms
  by (simp add: patch_checks_def get_user_def count_active_admins_def bnd_def query_quiet op_basic Let_def
      demotion_def user_of_row_def)

definition demoted :: "string \<Rightarrow> db \<Rightarrow> db" where
  "demoted name d =
     d\<lparr>users := update_where (\<lambda>u. us_username u = name) (\<lambda>u. u\<lparr>us_role := ''viewer''\<rparr>) (users d)\<rparr>"

lemma patch_apply_demotion:
  assumes "quiet w" and "select_user name (w_db w) = Some u"
  shows "\<exists>v. patch_apply X salt name demotion w = (Ok (reply 200 (PUser v)), w\<lparr>w_db := demoted name (w_db w)\<rparr>)"
proof -
  have "us_username u = name" "\<exists>r \<in> set (users (w_db w)). us_username r = name"
    using assms(2) by (auto simp: select_user_def dest: find_SomeD)
  with assms show ?thesis
    by (auto simp: patch_apply_def demotion_def set_user_role_def get_user_def bnd_def op_basic exec_quiet
        query_quiet update_user_def select_user_def find_update_key count_where_def filter_empty_conv
        role_as_str_def demoted_def)
qed

lemma select_demoted:
  "select_user b (demoted a d) =
     map_option (\<lambda>u. if us_username u = a then u\<lparr>us_role := ''viewer''\<rparr> else u) (select_user b d)"
  by (simp add: demoted_def select_user_def find_update_key)

lemma not_demoted:
  "r \<in> set (users (demoted name d)) \<Longrightarrow> us_role r = ''admin'' \<Longrightarrow> r \<in> set (users d) \<and> us_username r \<noteq> name"
  by (auto simp: demoted_def update_where_def split: if_splits)

end
