(* ===== verification/Fingerprint.thy ===== *)
theory Fingerprint
  imports Proto
begin

text \<open>
  \<open>crates/errexd/src/fingerprint.rs\<close>: the vendored 64-bit FNV-1a hash, the byte layout that
  \<open>write_opt_str\<close> gives the hashed fields, and \<open>derive\<close>, which groups events into issues.

  The hasher's state is one \<open>u64\<close>; every \<open>write\<close> is the left fold of a byte step. The lemmas split
  the hash from what is hashed: \<open>derive_input\<close> is the byte stream \<open>derive\<close> feeds the hasher, so that
  the layout (which inputs can be confused) and the hash (how it mixes) are treated apart.
\<close>

section \<open>The hash\<close>

definition FNV_OFFSET_BASIS :: u64 where
  "FNV_OFFSET_BASIS = 0xcbf29ce484222325"

definition FNV_PRIME :: u64 where
  "FNV_PRIME = 0x00000100000001b3"

definition fnv_step :: "u64 \<Rightarrow> char \<Rightarrow> u64" where
  "fnv_step h b = (xor h (of_nat (byte b))) * FNV_PRIME"

definition fnv_write :: "u64 \<Rightarrow> bytes \<Rightarrow> u64" where
  "fnv_write h bs = foldl fnv_step h bs"

definition fnv_write_opt_str :: "u64 \<Rightarrow> string option \<Rightarrow> u64" where
  "fnv_write_opt_str h s =
     (let h = (case s of
                 Some s \<Rightarrow> fnv_write (fnv_write h [CHR 0x01]) s
               | None \<Rightarrow> fnv_write h [CHR 0x00])
      in fnv_write h [CHR 0xFF])"

text \<open>\<open>{:016x}\<close>: sixteen lower-case hexadecimal digits, most significant first.\<close>

fun hex_fixed :: "nat \<Rightarrow> nat \<Rightarrow> string" where
  "hex_fixed 0 n = []"
| "hex_fixed (Suc k) n = hex_fixed k (n div 16) @ [hex_digit (n mod 16)]"

definition hex16 :: "u64 \<Rightarrow> string" where
  "hex16 w = hex_fixed 16 (unat w)"

definition derive :: "event \<Rightarrow> fingerprint" where
  "derive e =
     (let h = FNV_OFFSET_BASIS;
          h = (case primary_exception e of
                 Some ex \<Rightarrow>
                   (let h = fnv_write_opt_str h (ex_ty ex)
                    in case first_frame ex of
                         Some frame \<Rightarrow>
                           (let h = fnv_write_opt_str h (fr_function frame)
                            in fnv_write_opt_str h (fr_filename frame))
                       | None \<Rightarrow> h)
               | None \<Rightarrow>
                   (case ev_message e of
                      Some msg \<Rightarrow> fnv_write_opt_str h (Some msg)
                    | None \<Rightarrow> fnv_write h (ev_event_id e)))
      in hex16 h)"

section \<open>The byte layout\<close>

definition opt_str_bytes :: "string option \<Rightarrow> bytes" where
  "opt_str_bytes s =
     (case s of Some s \<Rightarrow> CHR 0x01 # s @ [CHR 0xFF] | None \<Rightarrow> [CHR 0x00, CHR 0xFF])"

definition fields_bytes :: "string option list \<Rightarrow> bytes" where
  "fields_bytes fs = concat (map opt_str_bytes fs)"

text \<open>The fields \<open>derive\<close> looks at: what distinguishes one group of events from another.\<close>

definition grouping_fields :: "event \<Rightarrow> string option list option" where
  "grouping_fields e =
     (case primary_exception e of
        Some ex \<Rightarrow>
          Some (ex_ty ex #
            (case first_frame ex of
               Some frame \<Rightarrow> [fr_function frame, fr_filename frame]
             | None \<Rightarrow> []))
      | None \<Rightarrow> map_option (\<lambda>m. [Some m]) (ev_message e))"

definition derive_input :: "event \<Rightarrow> bytes" where
  "derive_input e =
     (case grouping_fields e of Some fs \<Rightarrow> fields_bytes fs | None \<Rightarrow> ev_event_id e)"

lemma fnv_write_Nil [simp]: "fnv_write h [] = h"
  by (simp add: fnv_write_def)

lemma fnv_write_append: "fnv_write h (xs @ ys) = fnv_write (fnv_write h xs) ys"
  by (simp add: fnv_write_def)

lemma fnv_write_opt_str_bytes: "fnv_write_opt_str h s = fnv_write h (opt_str_bytes s)"
  by (cases s) (simp_all add: fnv_write_opt_str_def opt_str_bytes_def fnv_write_def Let_def)

lemma derive_eq_hash_of_input:
  "derive e = hex16 (fnv_write FNV_OFFSET_BASIS (derive_input e))"
  by (auto simp: derive_def derive_input_def grouping_fields_def fields_bytes_def
        fnv_write_opt_str_bytes fnv_write_append Let_def split: option.splits)

text \<open>UTF-8 never produces the byte 255, so the terminator cannot occur inside a field.\<close>

definition utf8_safe :: "string \<Rightarrow> bool" where
  "utf8_safe s \<longleftrightarrow> CHR 0xFF \<notin> set s"

definition opt_utf8_safe :: "string option \<Rightarrow> bool" where
  "opt_utf8_safe s = (case s of Some s \<Rightarrow> utf8_safe s | None \<Rightarrow> True)"

lemma opt_str_bytes_append_inj:
  assumes "opt_utf8_safe a" and "opt_utf8_safe b"
    and eq: "opt_str_bytes a @ xs = opt_str_bytes b @ ys"
  shows "a = b \<and> xs = ys"
proof (cases a)
  case None
  with eq show ?thesis by (cases b) (auto simp: opt_str_bytes_def)
next
  case (Some s)
  note a = Some
  show ?thesis
  proof (cases b)
    case None
    with eq a show ?thesis by (auto simp: opt_str_bytes_def)
  next
    case (Some t)
    let ?p = "\<lambda>c. c \<noteq> CHR 0xFF"
    have s: "\<forall>c \<in> set s. ?p c" and t: "\<forall>c \<in> set t. ?p c"
      using assms(1,2) a Some by (auto simp: opt_utf8_safe_def utf8_safe_def)
    have st: "s @ CHR 0xFF # xs = t @ CHR 0xFF # ys"
      using eq a Some by (simp add: opt_str_bytes_def)
    have "takeWhile ?p (s @ CHR 0xFF # xs) = s" and "takeWhile ?p (t @ CHR 0xFF # ys) = t"
      using s t by (simp_all add: takeWhile_append2)
    with st have "s = t" by metis
    with st a Some show ?thesis by simp
  qed
qed

lemma opt_str_bytes_nonempty: "opt_str_bytes a \<noteq> []"
  by (cases a) (simp_all add: opt_str_bytes_def)

lemma fields_bytes_inj:
  "list_all opt_utf8_safe fs \<Longrightarrow> list_all opt_utf8_safe gs \<Longrightarrow>
   fields_bytes fs = fields_bytes gs \<Longrightarrow> fs = gs"
proof (induction fs arbitrary: gs)
  case Nil
  then show ?case
    by (cases gs) (auto simp: fields_bytes_def opt_str_bytes_nonempty)
next
  case (Cons f fs)
  show ?case
  proof (cases gs)
    case Nil
    with Cons.prems(3) show ?thesis by (simp add: fields_bytes_def opt_str_bytes_nonempty)
  next
    case (Cons g gs')
    with Cons.prems have "f = g \<and> fields_bytes fs = fields_bytes gs'"
      by (intro opt_str_bytes_append_inj) (auto simp: fields_bytes_def)
    with Cons.IH [of gs'] Cons.prems Cons show ?thesis by simp
  qed
qed

section \<open>The mixing step\<close>

text \<open>The prime is odd, hence invertible modulo \<open>2 ^ 64\<close>.\<close>

definition FNV_PRIME_INV :: u64 where
  "FNV_PRIME_INV = 0xce965057aff6957b"

lemma fnv_prime_inv: "FNV_PRIME * FNV_PRIME_INV = 1"
  by (simp add: FNV_PRIME_def FNV_PRIME_INV_def)

lemma fnv_mult_inj: "a * FNV_PRIME = b * FNV_PRIME \<Longrightarrow> a = b"
proof -
  assume "a * FNV_PRIME = b * FNV_PRIME"
  then have "a * FNV_PRIME * FNV_PRIME_INV = b * FNV_PRIME * FNV_PRIME_INV" by simp
  then show "a = b" by (simp add: mult.assoc fnv_prime_inv)
qed

lemma fnv_step_inj_state: "fnv_step h b = fnv_step h' b \<Longrightarrow> h = h'"
proof -
  let ?x = "of_nat (byte b) :: u64"
  assume "fnv_step h b = fnv_step h' b"
  then have "xor h ?x = xor h' ?x"
    unfolding fnv_step_def by (rule fnv_mult_inj)
  then have "xor (xor h ?x) ?x = xor (xor h' ?x) ?x" by simp
  then show "h = h'" by (simp add: xor.assoc)
qed

lemma of_nat_byte_inj: "(of_nat (byte b) :: u64) = of_nat (byte c) \<Longrightarrow> b = c"
proof -
  assume eq: "(of_nat (byte b) :: u64) = of_nat (byte c)"
  have lt: "byte x < 2 ^ 64" for x :: char
    by (rule less_trans [OF nat_of_char_less_256]) simp
  from eq have "unat (of_nat (byte b) :: u64) = unat (of_nat (byte c) :: u64)" by simp
  then have "byte b = byte c"
    using lt by (simp add: unat_of_nat)
  then show "b = c" by simp
qed

lemma fnv_step_inj_byte: "fnv_step h b = fnv_step h c \<Longrightarrow> b = c"
proof -
  let ?b = "of_nat (byte b) :: u64" and ?c = "of_nat (byte c) :: u64"
  assume "fnv_step h b = fnv_step h c"
  then have "xor h ?b = xor h ?c"
    unfolding fnv_step_def by (rule fnv_mult_inj)
  then have "xor h (xor h ?b) = xor h (xor h ?c)" by simp
  then have "?b = ?c" by (simp flip: xor.assoc)
  then show "b = c" by (rule of_nat_byte_inj)
qed

lemma fnv_write_inj_state: "fnv_write h xs = fnv_write h' xs \<Longrightarrow> h = h'"
  by (induction xs arbitrary: h h') (auto simp: fnv_write_def dest: fnv_step_inj_state)

lemma fnv_write_inj_byte:
  assumes "fnv_write h (xs @ b # ys) = fnv_write h (xs @ c # ys)"
  shows "b = c"
proof -
  from assms have "fnv_write (fnv_step (fnv_write h xs) b) ys
      = fnv_write (fnv_step (fnv_write h xs) c) ys"
    by (simp add: fnv_write_def)
  then show ?thesis
    by (rule fnv_step_inj_byte [OF fnv_write_inj_state])
qed

section \<open>Printing\<close>

lemma length_hex_fixed [simp]: "length (hex_fixed k n) = k"
  by (induction k n rule: hex_fixed.induct) auto

lemma hex_fixed_digits: "list_all is_hex_digit (hex_fixed k n)"
  by (induction k n rule: hex_fixed.induct) (auto intro: is_hex_digit_hex_digit)

lemma hex_fixed_inj:
  "m < 16 ^ k \<Longrightarrow> n < 16 ^ k \<Longrightarrow> hex_fixed k m = hex_fixed k n \<Longrightarrow> m = n"
proof (induction k arbitrary: m n)
  case (Suc k)
  from Suc.prems(3) have "hex_fixed k (m div 16) = hex_fixed k (n div 16)"
    and "hex_digit (m mod 16) = hex_digit (n mod 16)" by auto
  moreover have "m div 16 < 16 ^ k" and "n div 16 < 16 ^ k"
    using Suc.prems(1,2) by (simp_all add: less_mult_imp_div_less)
  ultimately have "m div 16 = n div 16" and "m mod 16 = n mod 16"
    using Suc.IH hex_digit_inj by auto
  then show ?case by (metis mult_div_mod_eq)
qed simp

lemma hex16_inj: "hex16 v = hex16 w \<Longrightarrow> v = w"
proof -
  assume "hex16 v = hex16 w"
  moreover have "unat x < 16 ^ 16" for x :: u64
    using unsigned_less [of x] by simp
  ultimately have "unat v = unat w"
    unfolding hex16_def by (blast intro: hex_fixed_inj)
  then show "v = w" by (rule unsigned_word_eqI)
qed

lemma derive_eq_iff:
  "derive a = derive b \<longleftrightarrow>
   fnv_write FNV_OFFSET_BASIS (derive_input a) = fnv_write FNV_OFFSET_BASIS (derive_input b)"
  by (auto simp: derive_eq_hash_of_input dest: hex16_inj)

section \<open>Properties\<close>



definition message_event :: "string \<Rightarrow> event" where
  "message_event m = \<lparr>ev_event_id = replicate 16 (CHR 0x07), ev_timestamp = 0, ev_platform = None,
     ev_level = None, ev_environment = None, ev_release = None, ev_server_name = None,
     ev_message = Some m, ev_exception = None, ev_breadcrumbs = None, ev_tags = None,
     ev_contexts = None, ev_extra = None, ev_user = None, ev_request = None\<rparr>"

lemma grouping_fields_message: "grouping_fields (message_event m) = Some [Some m]"
  by (simp add: grouping_fields_def primary_exception_def message_event_def)


text \<open>The hash separates neighbours. Events whose hashed byte streams differ in exactly one byte
  never share a fingerprint, because every step of the hash is a bijection in its state and in
  its byte.\<close>

theorem one_byte_apart_not_grouped:
  assumes "derive_input a = xs @ x # ys" and "derive_input b = xs @ y # ys" and "x \<noteq> y"
  shows "derive a \<noteq> derive b"
  using assms fnv_write_inj_byte [of FNV_OFFSET_BASIS xs x ys y] by (auto simp: derive_eq_iff)

theorem one_byte_apart_not_grouped_witness:
  "derive (message_event ''timeout 1'') \<noteq> derive (message_event ''timeout 2'')"
  by (rule one_byte_apart_not_grouped
        [of _ "CHR 0x01 # ''timeout ''" "CHR ''1''" "[CHR 0xFF]" _ "CHR ''2''"])
     (simp_all add: derive_input_def grouping_fields_message fields_bytes_def opt_str_bytes_def)

end
