(* ===== verification/Digest.thy ===== *)
theory Digest
  imports Webhook Fingerprint
begin

text \<open>
  The single-writer digest task, \<open>crates/errexd/src/digest.rs\<close>: what a handler prepares from an event
  (\<open>prepare\<close>), how the queue is cut into batches and each batch persisted, announced on the fan-out
  channel and, for new and regressed issues, offered to the webhook channel (\<open>process_batch\<close>, \<open>run\<close>).
\<close>

section \<open>Preparing an event\<close>

definition level_str :: "level \<Rightarrow> string" where
  "level_str l =
     (case l of
        Debug \<Rightarrow> ''debug'' | Info \<Rightarrow> ''info'' | Warning \<Rightarrow> ''warning'' | Error \<Rightarrow> ''error''
      | Fatal \<Rightarrow> ''fatal'')"

definition unwrap_or :: "'a option \<Rightarrow> 'a \<Rightarrow> 'a" where
  "unwrap_or x d = (case x of Some y \<Rightarrow> y | None \<Rightarrow> d)"

definition prepare :: "externs \<Rightarrow> time \<Rightarrow> string \<Rightarrow> event \<Rightarrow> ingest_event" where
  "prepare X now project e =
     (let primary = primary_exception e;
          frame = Option.bind primary first_frame;
          func = (\<lambda>f. unwrap_or (fr_function f) ''?'')
      in \<lparr>ig_project = project,
          ig_fingerprint = derive e,
          ig_title = event_title e,
          ig_level = map_option level_str (ev_level e),
          ig_culprit = map_option (\<lambda>f. func f @ '' in '' @ unwrap_or (fr_filename f) ''?'') frame,
          ig_exception_type = unwrap_or (Option.bind primary ex_ty) ''<no exception>'',
          ig_first_frame =
            unwrap_or (map_option (\<lambda>f. func f @ '':'' @ show_nat (unat (unwrap_or (fr_lineno f) 0))) frame)
              ''<no frames>'',
          ig_received_at = now,
          ig_event_id = uuid_simple (ev_event_id e),
          ig_payload = x_event_json X e\<rparr>)"

section \<open>The digest's world\<close>

text \<open>The server's world and the bounded channel to the webhook task.\<close>

record daemon = server +
  dm_triggers :: "trigger list"
  dm_webhook_capacity :: nat

text \<open>\<open>try_send\<close>: a full channel drops the trigger.\<close>

definition try_send_trigger :: "trigger \<Rightarrow> ('z daemon_ext server_ext, unit) op" where
  "try_send_trigger t w =
     (Ok (), if length (dm_triggers w) < dm_webhook_capacity w
             then w\<lparr>dm_triggers := dm_triggers w @ [t]\<rparr> else w)"

section \<open>A batch\<close>

definition BATCH_SIZE :: nat where
  "BATCH_SIZE = 16"

definition input_of :: "ingest_event \<Rightarrow> batch_upsert_input" where
  "input_of e =
     \<lparr>bi_project = ig_project e, bi_fp = ig_fingerprint e, bi_title = ig_title e,
      bi_culprit = ig_culprit e, bi_level = ig_level e, bi_now = ig_received_at e,
      bi_event_id = ig_event_id e, bi_payload = ig_payload e\<rparr>"

definition trigger_of :: "upsert_result \<Rightarrow> trigger option" where
  "trigger_of r =
     (if ur_created r then Some \<lparr>tr_issue = ur_issue r, tr_kind = NewIssue\<rparr>
      else if ur_regressed r then Some \<lparr>tr_issue = ur_issue r, tr_kind = Regression\<rparr>
      else None)"

definition message_of :: "upsert_result \<Rightarrow> server_message" where
  "message_of r = (if ur_created r then IssueCreated (ur_issue r) else IssueUpdated (ur_issue r))"

definition announce :: "upsert_result \<Rightarrow> ('z daemon_ext server_ext, unit) op" where
  "announce r =
     bnd (case trigger_of r of Some t \<Rightarrow> try_send_trigger t | None \<Rightarrow> ret ()) (\<lambda>_.
     broadcast (message_of r))"

definition process_batch ::
  "externs \<Rightarrow> ingest_event list \<Rightarrow> ('z daemon_ext server_ext, unit) op" where
  "process_batch X buf =
     (if buf = [] then ret ()
      else
        bnd (try_op (upsert_batch_with_events X (map input_of buf))) (\<lambda>res.
        case res of
          Inl e \<Rightarrow> ret ()
        | Inr results \<Rightarrow> bnd (for_each announce results) (\<lambda>_. ret ())))"

section \<open>The loop\<close>

text \<open>\<open>while buf.len() < BATCH_SIZE { try_recv }\<close>: what is queued moves into the buffer.\<close>

fun fill :: "'e list \<Rightarrow> 'e list \<Rightarrow> 'e list \<times> 'e list" where
  "fill buf [] = (buf, [])"
| "fill buf (e # q) = (if length buf < BATCH_SIZE then fill (buf @ [e]) q else (buf, e # q))"

lemma fill_eq: "fill buf q = (buf @ take (BATCH_SIZE - length buf) q, drop (BATCH_SIZE - length buf) q)"
proof (induction buf q rule: fill.induct)
  case (2 buf e q)
  then show ?case
  proof (cases "length buf < BATCH_SIZE")
    case True
    then have "BATCH_SIZE - length buf = Suc (BATCH_SIZE - Suc (length buf))" by simp
    with True 2 show ?thesis by simp
  qed simp
qed simp

text \<open>
  One turn of the loop on the queue as it is: \<open>None\<close> when the channel is closed and drained and the
  task ends, \<open>Some False\<close> when it has to wait, \<open>Some True\<close> when it processed a batch.
\<close>

definition digest_turn :: "externs \<Rightarrow> ('z daemon_ext server_ext, bool option) op" where
  "digest_turn X w =
     (case sv_queue w of
        [] \<Rightarrow> (Ok (if sv_queue_open w then Some False else None), w)
      | first # rest \<Rightarrow>
          (case fill [first] rest of
             (buf, q) \<Rightarrow> bnd (process_batch X buf) (\<lambda>_. ret (Some True)) (w\<lparr>sv_queue := q\<rparr>)))"

text \<open>
  \<open>run\<close> on a queue nobody adds to, until the channel is drained. A batch does not touch the queue, so
  every turn takes at least one event off it and the loop ends.
\<close>

function digest_run :: "externs \<Rightarrow> ingest_event list \<Rightarrow> ('z daemon_ext server_ext, unit) op" where
  "digest_run X [] = ret ()"
| "digest_run X (first # rest) =
     bnd (process_batch X (fst (fill [first] rest))) (\<lambda>_.
     digest_run X (snd (fill [first] rest)))"
  by pat_completeness auto
termination
  by (relation "measure (\<lambda>(X, q). length q)") (auto simp: fill_eq)

section \<open>Announcements\<close>

text \<open>The webhook channel after a series of offers: what does not fit is dropped.\<close>

definition offered :: "nat \<Rightarrow> trigger list \<Rightarrow> trigger list \<Rightarrow> trigger list" where
  "offered cap queued new = queued @ take (cap - length queued) new"

definition triggers_of :: "upsert_result list \<Rightarrow> trigger list" where
  "triggers_of rs = concat (map (\<lambda>r. opt_list (trigger_of r)) rs)"

lemma offered_none [simp]: "offered cap queued [] = queued"
  by (simp add: offered_def)

lemma offered_append: "offered cap (offered cap queued ts) us = offered cap queued (ts @ us)"
  by (cases "length ts \<le> cap - length queued") (auto simp: offered_def)

lemma announce_eq:
  "announce r w = (Ok (), w\<lparr>sv_fanout := sv_fanout w @ [message_of r],
     dm_triggers := offered (dm_webhook_capacity w) (dm_triggers w) (opt_list (trigger_of r))\<rparr>)"
  by (cases "trigger_of r")
     (auto simp: announce_def bnd_def broadcast_def ret_def try_send_trigger_def offered_def take_Cons')

lemma announce_all:
  "for_each announce rs w = (Ok (replicate (length rs) ()), w
     \<lparr>sv_fanout := sv_fanout w @ map message_of rs,
      dm_triggers := offered (dm_webhook_capacity w) (dm_triggers w) (triggers_of rs)\<rparr>)"
  by (induction rs arbitrary: w)
     (simp_all add: ret_def bnd_def announce_eq triggers_of_def offered_append)

lemma same_daemon:
  "world.more w' = world.more w \<Longrightarrow>
   dm_triggers w' = dm_triggers w \<and> dm_webhook_capacity w' = dm_webhook_capacity w"
  by (cases w; cases w') simp

text \<open>A batch is stored and announced, or it is lost and nothing is announced.\<close>

definition announced :: "upsert_result list \<Rightarrow> 'z daemon_scheme \<Rightarrow> 'z daemon_scheme \<Rightarrow> bool" where
  "announced rs w w' \<longleftrightarrow>
     sv_fanout w' = sv_fanout w @ map message_of rs \<and>
     dm_triggers w' = offered (dm_webhook_capacity w) (dm_triggers w) (triggers_of rs) \<and>
     dm_webhook_capacity w' = dm_webhook_capacity w"

lemma announced_none [simp]: "world.more w' = world.more w \<Longrightarrow> announced [] w w'"
  by (auto simp: announced_def triggers_of_def dest: same_server same_daemon)

lemma announced_append: "announced rs w w1 \<Longrightarrow> announced rs' w1 w2 \<Longrightarrow> announced (rs @ rs') w w2"
  by (simp add: announced_def triggers_of_def offered_append)

text \<open>What storing a batch means for the ledger of groups and the log of events.\<close>

definition recorded ::
  "externs \<Rightarrow> ingest_event list \<Rightarrow> upsert_result list \<Rightarrow> db \<Rightarrow> db \<Rightarrow> bool" where
  "recorded X es rs d d' \<longleftrightarrow>
     ledger_of d' = foldl (spec_upsert X) (ledger_of d) (map input_of es) \<and>
     log_of d' = foldl spec_log (log_of d) (map input_of es) \<and>
     map verdict_of rs = spec_verdicts X (ledger_of d) (map input_of es)"

lemma process_batch_cases:
  assumes "buf \<noteq> []"
  obtains (stored) rs w' where "process_batch X buf w = (Ok (), w')" "announced rs w w'"
      "recorded X buf rs (w_db w) (w_db w')" "w_now w' = w_now w" "quiet w \<Longrightarrow> quiet w'"
    | (lost) w' where "process_batch X buf w = (Ok (), w')" "announced [] w w'" "w_db w' = w_db w"
      "w_now w' = w_now w" "\<not> quiet w"
proof (cases rule: upsert_batch_cases [of X "map input_of buf" w])
  case (stored rs w1)
  then have "world.more w1 = world.more w"
    using framedD [OF framed_issue_ops(1)] by blast
  then have same: "sv_fanout w1 = sv_fanout w" "dm_triggers w1 = dm_triggers w"
    "dm_webhook_capacity w1 = dm_webhook_capacity w"
    by (auto dest: same_server same_daemon)
  have run: "process_batch X buf w = (Ok (), w1\<lparr>sv_fanout := sv_fanout w @ map message_of rs,
      dm_triggers := offered (dm_webhook_capacity w) (dm_triggers w) (triggers_of rs)\<rparr>)"
    using assms by (simp add: process_batch_def try_op_def stored(1) bnd_def announce_all ret_def same)
  have "log_of (w_db w1) = foldl spec_log (log_of (w_db w)) (map input_of buf)"
    using stored(3) log_of_scan [of X "w_now w" "map input_of buf" "w_db w"]
    by (auto dest: arg_cong [of _ _ snd])
  then have "recorded X buf rs (w_db w) (w_db w1)"
    using store_ledger.submit_Ok [OF stored(1)] by (simp add: recorded_def)
  moreover have "quiet w \<Longrightarrow> quiet w1"
    using upsert_batch_quiet [of w X "map input_of buf"] stored(1) by auto
  ultimately show thesis
    by (intro that(1) [OF run]) (simp_all add: announced_def stored(2) same quiet_def)
next
  case (failed w1)
  have "process_batch X buf w = (Ok (), w1)"
    using assms failed by (simp add: process_batch_def try_op_def bnd_def ret_def)
  then show thesis
    by (rule that(2)) (use framedD [OF framed_issue_ops(1) failed(1)] failed in simp_all)
qed

lemma spec_verdicts_append:
  "spec_verdicts X m (a @ b) = spec_verdicts X m a @ spec_verdicts X (foldl (spec_upsert X) m a) b"
  by (induction a arbitrary: m) auto

lemma recorded_none [simp]: "recorded X [] [] d d"
  by (simp add: recorded_def)

lemma recorded_append:
  "recorded X es rs d d1 \<Longrightarrow> recorded X es' rs' d1 d2 \<Longrightarrow> recorded X (es @ es') (rs @ rs') d d2"
  by (simp add: recorded_def spec_verdicts_append)

lemma digest_run_quiet:
  "quiet w \<Longrightarrow> \<exists>rs w'. digest_run X q w = (Ok (), w') \<and> announced rs w w' \<and>
     recorded X q rs (w_db w) (w_db w')"
proof (induction X q arbitrary: w rule: digest_run.induct)
  case (1 X)
  then show ?case by (intro exI [of _ "[]"]) (simp add: ret_def)
next
  case (2 X first rest)
  let ?buf = "fst (fill [first] rest)" and ?q = "snd (fill [first] rest)"
  have "?buf \<noteq> []" by (simp add: fill_eq)
  then show ?case
  proof (cases rule: process_batch_cases [of ?buf X w])
    case (stored rs w2)
    from "2.IH" [OF stored(5) [OF "2.prems"]] obtain rs' w' where
      run: "digest_run X ?q w2 = (Ok (), w')" and "announced rs' w2 w'"
      and "recorded X ?q rs' (w_db w2) (w_db w')" by blast
    then have "announced (rs @ rs') w w'" "recorded X (?buf @ ?q) (rs @ rs') (w_db w) (w_db w')"
      using stored announced_append recorded_append by blast+
    moreover have "?buf @ ?q = first # rest" by (simp add: fill_eq)
    moreover have "digest_run X (first # rest) w = (Ok (), w')" by (simp add: bnd_def stored(1) run)
    ultimately show ?thesis by auto
  qed (use "2.prems" in simp)
qed

section \<open>Properties\<close>

text \<open>C4: the digest task implements the ledger, whatever the batching. Without faults, draining any
  queue of events, in batches of at most sixteen, leaves the ledger of groups and the event log as
  if the events had been recorded one at a time, announces every event once and in order with the
  verdict the ledger gives it, and offers a webhook trigger for exactly the creations and
  regressions, as far as the channel has room.\<close>

theorem digest_refines_ledger:
  "\<exists>rs w'. digest_run X q (calm w) = (Ok (), w') \<and>
     ledger_of (w_db w') = foldl (spec_upsert X) (ledger_of (w_db w)) (map input_of q) \<and>
     log_of (w_db w') = foldl spec_log (log_of (w_db w)) (map input_of q) \<and>
     map verdict_of rs = spec_verdicts X (ledger_of (w_db w)) (map input_of q) \<and>
     sv_fanout w' = sv_fanout w @ map message_of rs \<and>
     dm_triggers w' = offered (dm_webhook_capacity w) (dm_triggers w) (triggers_of rs)"
proof -
  have "sv_fanout (calm w) = sv_fanout w" "dm_triggers (calm w) = dm_triggers w"
    "dm_webhook_capacity (calm w) = dm_webhook_capacity w"
    by (simp_all add: calm_def)
  with digest_run_quiet [OF calm_simps(1), of X q w] show ?thesis
    unfolding announced_def recorded_def calm_simps by metis
qed

text \<open>C23: a batch is stored and announced, or lost without a trace. Whatever statements fail, processing
  a batch ends normally; either every event of it is recorded and announced, or the database, the
  fan-out and the webhook channel are as before.\<close>

theorem batch_is_recorded_or_lost:
  "\<exists>w'. process_batch X buf w = (Ok (), w') \<and>
     ((w_db w' = w_db w \<and> sv_fanout w' = sv_fanout w \<and> dm_triggers w' = dm_triggers w) \<or>
      (\<exists>rs. recorded X buf rs (w_db w) (w_db w') \<and>
         sv_fanout w' = sv_fanout w @ map message_of rs \<and>
         dm_triggers w' = offered (dm_webhook_capacity w) (dm_triggers w) (triggers_of rs)))"
proof (cases "buf = []")
  case True
  then show ?thesis by (simp add: process_batch_def ret_def)
next
  case False
  then show ?thesis
    by (cases rule: process_batch_cases [of buf X w])
       (auto simp: announced_def triggers_of_def)
qed

end
