(* ===== verification/User_Agent.thy ===== *)
theory User_Agent
  imports Fingerprint
begin

text \<open>
  \<open>crates/errexd/src/user_agent.rs\<close>: the User-Agent parser that derives \<open>os\<close> and \<open>browser\<close> tags
  while an envelope is parsed. The order of the tests in \<open>detect_browser\<close> and \<open>detect_os\<close> is the
  source's. The lemmas show that the derived tags never replace one the SDK sent, that nothing
  else of the event changes, and that grouping does not depend on them.
\<close>

section \<open>Tokens\<close>

definition after_token :: "string \<Rightarrow> string \<Rightarrow> string option" where
  "after_token haystack needle = map_option snd (split_once needle haystack)"

fun token_until_space_or_paren :: "string \<Rightarrow> string" where
  "token_until_space_or_paren [] = []"
| "token_until_space_or_paren (c # s) =
     (if ws_head (c # s) = 0 \<and> c \<noteq> CHR '')'' \<and> c \<noteq> CHR '';''
      then c # token_until_space_or_paren s else [])"

definition token_until_semi_or_paren :: "string \<Rightarrow> string" where
  "token_until_semi_or_paren s = trim (takeWhile (\<lambda>c. c \<noteq> CHR '';'' \<and> c \<noteq> CHR '')'') s)"

definition underscores_to_dots :: "string \<Rightarrow> string" where
  "underscores_to_dots s = map (\<lambda>c. if c = CHR ''_'' then CHR ''.'' else c) s"

definition parse_windows_nt :: "string \<Rightarrow> string option" where
  "parse_windows_nt version =
     (let v = trim version
      in if v = ''10.0'' then Some ''10''
         else if v = ''6.3'' then Some ''8.1''
         else if v = ''6.2'' then Some ''8''
         else if v = ''6.1'' then Some ''7''
         else if v = ''6.0'' then Some ''Vista''
         else if v = ''5.2'' then Some ''XP''
         else if v = ''5.1'' then Some ''XP''
         else if v = ''5.0'' then Some ''2000''
         else if v = '''' then None
         else Some v)"

section \<open>Detection\<close>

definition detect_os :: "string \<Rightarrow> (string \<times> string option) option" where
  "detect_os ua =
     (case split_once ''Windows NT '' ua of
        Some (_, rest) \<Rightarrow>
          Some (''Windows'',
            Option.bind (first_opt (split_by (\<lambda>c. c = CHR '';'' \<or> c = CHR '')'') rest))
              parse_windows_nt)
      | None \<Rightarrow>
          if contains ''Android '' ua then
            Some (''Android'', map_option token_until_semi_or_paren (after_token ua ''Android ''))
          else if contains ''iPhone'' ua \<or> contains ''iPad'' ua \<or> contains ''iPod'' ua then
            Some (''iOS'', map_option (underscores_to_dots \<circ> token_until_space_or_paren)
              (after_token ua ''OS ''))
          else if contains ''Mac OS X'' ua then
            Some (''macOS'', map_option (underscores_to_dots \<circ> token_until_space_or_paren)
              (after_token ua ''Mac OS X ''))
          else if contains ''CrOS'' ua then Some (''Chrome OS'', None)
          else if contains ''Linux'' ua then Some (''Linux'', None)
          else None)"

definition detect_browser :: "string \<Rightarrow> (string \<times> string option) option" where
  "detect_browser ua =
     (case after_token ua ''Edg/'' of
        Some v \<Rightarrow> Some (''Edge'', Some (token_until_space_or_paren v))
      | None \<Rightarrow>
     (case after_token ua ''OPR/'' of
        Some v \<Rightarrow> Some (''Opera'', Some (token_until_space_or_paren v))
      | None \<Rightarrow>
     (case after_token ua ''Firefox/'' of
        Some v \<Rightarrow> Some (''Firefox'', Some (token_until_space_or_paren v))
      | None \<Rightarrow>
     (case after_token ua ''CriOS/'' of
        Some v \<Rightarrow> Some (''Chrome'', Some (token_until_space_or_paren v))
      | None \<Rightarrow>
     (case after_token ua ''FxiOS/'' of
        Some v \<Rightarrow> Some (''Firefox'', Some (token_until_space_or_paren v))
      | None \<Rightarrow>
     (case after_token ua ''Chrome/'' of
        Some v \<Rightarrow> Some (''Chrome'', Some (token_until_space_or_paren v))
      | None \<Rightarrow>
          if contains ''Safari/'' ua then
            Some (''Safari'', map_option token_until_space_or_paren (after_token ua ''Version/''))
          else None))))))"

definition name_version :: "string \<Rightarrow> string option \<Rightarrow> string" where
  "name_version name version =
     (case version of Some v \<Rightarrow> name @ '' '' @ v | None \<Rightarrow> name)"

definition parse_user_agent :: "string \<Rightarrow> (string \<times> string) list" where
  "parse_user_agent ua =
     (case detect_os ua of
        Some (name, version) \<Rightarrow> [(''os.name'', name), (''os'', name_version name version)]
      | None \<Rightarrow> [])
     @ (case detect_browser ua of
        Some (name, version) \<Rightarrow> [(''browser.name'', name), (''browser'', name_version name version)]
      | None \<Rightarrow> [])"

section \<open>The event's tags\<close>

fun find_user_agent_header :: "(string \<times> json) list \<Rightarrow> string option" where
  "find_user_agent_header [] = None"
| "find_user_agent_header ((name, value) # headers) =
     (if eq_ignore_ascii_case name ''user-agent'' then json_as_str value
      else find_user_agent_header headers)"

definition extract_user_agent :: "event \<Rightarrow> string option" where
  "extract_user_agent e =
     (case Option.bind (ev_request e) (json_get ''headers'') of
        Some (JObj headers) \<Rightarrow> find_user_agent_header headers
      | _ \<Rightarrow> None)"

definition ensure_tags_object :: "json option \<Rightarrow> (string \<times> json) list" where
  "ensure_tags_object tags = (case tags of Some (JObj kvs) \<Rightarrow> kvs | _ \<Rightarrow> [])"

text \<open>\<open>entry(k).or_insert(v)\<close> on a map kept in key order.\<close>

fun insert_sorted :: "string \<Rightarrow> json \<Rightarrow> (string \<times> json) list \<Rightarrow> (string \<times> json) list" where
  "insert_sorted k v [] = [(k, v)]"
| "insert_sorted k v ((k', v') # kvs) =
     (if k < k' then (k, v) # (k', v') # kvs else (k', v') # insert_sorted k v kvs)"

definition or_insert :: "(string \<times> json) list \<Rightarrow> string \<times> string \<Rightarrow> (string \<times> json) list" where
  "or_insert kvs kv =
     (case kv of (k, v) \<Rightarrow>
        if map_of kvs k \<noteq> None then kvs else insert_sorted k (JStr v) kvs)"

definition augment_tags_from_user_agent :: "event \<Rightarrow> event" where
  "augment_tags_from_user_agent e =
     (case extract_user_agent e of
        None \<Rightarrow> e
      | Some ua \<Rightarrow>
          let derived = parse_user_agent ua
          in if derived = [] then e
             else e\<lparr>ev_tags := Some (JObj (foldl or_insert (ensure_tags_object (ev_tags e)) derived))\<rparr>)"

lemma map_of_insert_sorted:
  "map_of kvs k = None \<Longrightarrow> map_of (insert_sorted k v kvs) = (map_of kvs)(k \<mapsto> v)"
  by (induction kvs) (auto simp: fun_eq_iff split: if_splits)

lemma map_of_or_insert:
  "map_of (or_insert kvs (k, v)) = (if map_of kvs k = None then (map_of kvs)(k \<mapsto> JStr v) else map_of kvs)"
  by (auto simp: or_insert_def map_of_insert_sorted)

lemma or_insert_keeps: "map_of kvs k = Some v \<Longrightarrow> map_of (or_insert kvs kv) k = Some v"
  by (cases kv) (auto simp: map_of_or_insert)

lemma foldl_or_insert_keeps:
  "map_of kvs k = Some v \<Longrightarrow> map_of (foldl or_insert kvs derived) k = Some v"
  by (induction derived arbitrary: kvs) (auto intro: or_insert_keeps)

lemma foldl_or_insert_new:
  "map_of kvs k = None \<Longrightarrow>
   map_of (foldl or_insert kvs derived) k = map_option JStr (map_of derived k)"
proof (induction derived arbitrary: kvs)
  case (Cons d derived)
  obtain k' v' where d: "d = (k', v')" by force
  show ?case
  proof (cases "k' = k")
    case True
    then have "map_of (or_insert kvs d) k = Some (JStr v')"
      using Cons.prems d by (simp add: map_of_or_insert)
    then show ?thesis using d True by (simp add: foldl_or_insert_keeps)
  next
    case False
    then have "map_of (or_insert kvs d) k = None"
      using Cons.prems d by (simp add: map_of_or_insert)
    with Cons.IH show ?thesis using d False by simp
  qed
qed simp

lemma augment_frame: "\<exists>tags. augment_tags_from_user_agent e = e\<lparr>ev_tags := tags\<rparr>"
proof (cases "augment_tags_from_user_agent e = e")
  case True
  then show ?thesis by (metis event.update_convs(11) event.surjective)
next
  case False
  then show ?thesis
    by (auto simp: augment_tags_from_user_agent_def Let_def split: option.splits if_splits)
qed

lemma derive_ignores_tags: "derive (e\<lparr>ev_tags := tags\<rparr>) = derive e"
  by (simp add: derive_eq_hash_of_input derive_input_def grouping_fields_def primary_exception_def
        split: option.split)

section \<open>Properties\<close>

text \<open>Tags derived from the User-Agent header only add. A tag the SDK sent keeps its value, every
  other field of the event is unchanged, and so is its fingerprint.\<close>

theorem user_agent_tags_only_add:
  assumes "ev_tags e = Some (JObj kvs)" and "map_of kvs k = Some v"
  shows "(\<exists>kvs'. augment_tags_from_user_agent e = e\<lparr>ev_tags := Some (JObj kvs')\<rparr> \<and>
      map_of kvs' k = Some v) \<and>
    derive (augment_tags_from_user_agent e) = derive e"
proof
  show "\<exists>kvs'. augment_tags_from_user_agent e = e\<lparr>ev_tags := Some (JObj kvs')\<rparr> \<and>
      map_of kvs' k = Some v"
  proof (cases "augment_tags_from_user_agent e = e")
    case True
    have "e = e\<lparr>ev_tags := Some (JObj kvs)\<rparr>" using assms(1) by (cases e) simp
    with True assms(2) show ?thesis by metis
  next
    case False
    then show ?thesis
      using assms foldl_or_insert_keeps [OF assms(2)]
      by (auto simp: augment_tags_from_user_agent_def ensure_tags_object_def Let_def
          split: option.splits if_splits)
  qed
  show "derive (augment_tags_from_user_agent e) = derive e"
    using augment_frame [of e] by (auto simp: derive_ignores_tags)
qed

theorem user_agent_tags_only_add_witness:
  fixes e
  defines "e \<equiv> message_event ''m''\<lparr>ev_tags := Some (JObj [(''os.name'', JStr ''mine'')])\<rparr>"
  shows "(\<exists>kvs'. augment_tags_from_user_agent e = e\<lparr>ev_tags := Some (JObj kvs')\<rparr> \<and>
      map_of kvs' ''os.name'' = Some (JStr ''mine'')) \<and>
    derive (augment_tags_from_user_agent e) = derive e"
  unfolding e_def
  by (rule user_agent_tags_only_add [where kvs = "[(''os.name'', JStr ''mine'')]"])
     (simp_all add: message_event_def)

end
