(* ===== verification/Envelope.thy ===== *)
theory Envelope
  imports Demo_Externs User_Agent
begin

text \<open>
  The body of an ingest request, \<open>crates/errexd/src/ingest.rs\<close>: gzip detection with its bound on
  the decompressed size (\<open>maybe_gunzip\<close>), the line reader (\<open>read_line\<close>) and the Sentry envelope
  parser (\<open>parse_envelope\<close>).

  Offsets are \<open>usize\<close> values. A slice has fewer than \<open>2 ^ 63\<close> bytes, so sums of offsets inside it do
  not overflow; the one sum that can is the cursor plus an item's announced length, which wraps in
  a release build and is written with \<open>usize_add\<close>. Range indexing that Rust refuses is \<open>Panic\<close>.
  The parser is one loop: \<open>parse_item\<close> is its body, \<open>parse_items\<close> the loop, and its termination
  proof is that every iteration moves the cursor forward.
\<close>

section \<open>Decompression\<close>

definition MAX_DECOMPRESSED :: nat where
  "MAX_DECOMPRESSED = 8 * 1024 * 1024"

text \<open>
  \<open>read_to_end\<close> on \<open>decoder.take(n)\<close>: at most \<open>n\<close> bytes are pulled, and the decoder's error is
  seen only when fewer than \<open>n\<close> bytes came before it.
\<close>

definition read_to_end_limited :: "externs \<Rightarrow> nat \<Rightarrow> bytes \<Rightarrow> bytes option" where
  "read_to_end_limited X n body =
     (case x_gzip X body of (out, failed) \<Rightarrow>
        if n \<le> length out then Some (take n out)
        else if failed then None else Some out)"

definition is_gzip :: "bytes \<Rightarrow> bool" where
  "is_gzip body \<longleftrightarrow> 2 \<le> length body \<and> body ! 0 = CHR 0x1F \<and> body ! 1 = CHR 0x8B"

definition maybe_gunzip :: "externs \<Rightarrow> bytes \<Rightarrow> bytes option" where
  "maybe_gunzip X body =
     (if is_gzip body then
        (case read_to_end_limited X (MAX_DECOMPRESSED + 1) body of
           None \<Rightarrow> None
         | Some out \<Rightarrow> if length out > MAX_DECOMPRESSED then None else Some out)
      else Some body)"

lemma maybe_gunzip_bound:
  "maybe_gunzip X body = Some raw \<Longrightarrow>
   length raw \<le> MAX_DECOMPRESSED \<or> (raw = body \<and> \<not> is_gzip body)"
  by (auto simp: maybe_gunzip_def split: if_splits option.splits)

lemma maybe_gunzip_gzip:
  assumes "is_gzip body" and "x_gzip X body = (out, failed)"
  shows "maybe_gunzip X body =
    (if length out \<le> MAX_DECOMPRESSED \<and> \<not> failed then Some out else None)"
  using assms by (auto simp: maybe_gunzip_def read_to_end_limited_def)

section \<open>Lines\<close>

fun position :: "('a \<Rightarrow> bool) \<Rightarrow> 'a list \<Rightarrow> nat option" where
  "position P [] = None"
| "position P (x # xs) = (if P x then Some 0 else map_option Suc (position P xs))"

abbreviation newline :: char where
  "newline \<equiv> CHR 0x0A"

abbreviation is_newline :: "char \<Rightarrow> bool" where
  "is_newline c \<equiv> c = newline"

definition read_line :: "bytes \<Rightarrow> nat \<Rightarrow> (nat \<times> nat) option" where
  "read_line buf start =
     (if start \<ge> length buf then None
      else case position is_newline (drop start buf) of
             Some rel \<Rightarrow> Some (start + rel + 1, start + rel + 1)
           | None \<Rightarrow> Some (length buf, length buf))"

lemma position_less: "position P xs = Some i \<Longrightarrow> i < length xs \<and> P (xs ! i)"
  by (induction xs arbitrary: i) (auto split: if_splits)

lemma position_none: "position P xs = None \<longleftrightarrow> (\<forall>x \<in> set xs. \<not> P x)"
  by (induction xs) auto

lemma position_append:
  "(\<forall>x \<in> set xs. \<not> P x) \<Longrightarrow> P y \<Longrightarrow> position P (xs @ y # ys) = Some (length xs)"
  by (induction xs) auto

lemma read_line_bounds:
  assumes "read_line buf start = Some (e, n)"
  shows "n = e \<and> start < e \<and> e \<le> length buf"
  using assms by (auto simp: read_line_def dest: position_less split: if_splits option.splits)

lemma read_line_line:
  assumes "newline \<notin> set l"
  shows "read_line (pre @ l @ newline # post) (length pre) =
    Some (length pre + length l + 1, length pre + length l + 1)"
proof -
  have "position is_newline (l @ newline # post) = Some (length l)"
    by (rule position_append) (use assms in auto)
  then show ?thesis by (simp add: read_line_def)
qed

section \<open>Envelopes\<close>

definition usize_add :: "nat \<Rightarrow> u64 \<Rightarrow> nat" where
  "usize_add a n = (a + unat n) mod 2 ^ 64"

definition item_type :: "json \<Rightarrow> string" where
  "item_type header =
     (case Option.bind (json_get ''type'' header) json_as_str of Some t \<Rightarrow> t | None \<Rightarrow> '''')"

definition item_length :: "json \<Rightarrow> u64 option" where
  "item_length header = Option.bind (json_get ''length'' header) json_as_u64"

definition payload_end :: "bytes \<Rightarrow> nat \<Rightarrow> json \<Rightarrow> (proto_error, nat) outcome" where
  "payload_end raw cursor header =
     (case item_length header of
        Some len \<Rightarrow>
          (let e = usize_add cursor len
           in if e > length raw then Err (InvalidEnvelope ''item length exceeds envelope size'')
              else Ok e)
      | None \<Rightarrow>
          obind (slice raw cursor (length raw)) (\<lambda>rest.
            Ok (case position is_newline rest of
                  Some p \<Rightarrow> cursor + p
                | None \<Rightarrow> length raw)))"

text \<open>
  One iteration of the item loop at \<open>cursor\<close>: the next cursor, with the event the item carried.
  \<open>None\<close> is the loop's \<open>break\<close>.
\<close>

definition parse_item ::
  "externs \<Rightarrow> bytes \<Rightarrow> nat \<Rightarrow> (proto_error, (nat \<times> event option) option) outcome" where
  "parse_item X raw cursor =
     (case read_line raw cursor of
        None \<Rightarrow> Ok None
      | Some (item_header_end, next_cursor) \<Rightarrow>
          obind (slice raw cursor (item_header_end - 1)) (\<lambda>header_bytes.
            if header_bytes = [] then Ok (Some (next_cursor, None))
            else
              obind (ok_or ProtoJson (x_json X header_bytes)) (\<lambda>header.
              let cursor = next_cursor
              in obind (payload_end raw cursor header) (\<lambda>e.
                 obind (slice raw cursor e) (\<lambda>payload.
                 obind (if item_type header = ''event''
                        then obind (ok_or ProtoJson (x_event X payload))
                               (\<lambda>event. Ok (Some (augment_tags_from_user_agent event)))
                        else Ok None) (\<lambda>event.
                 Ok (Some
                   (if e < length raw \<and> raw ! e = newline then e + 1 else e, event))))))))"

lemma parse_item_progress:
  assumes "parse_item X raw cursor = Ok (Some (cursor', ev))"
  shows "cursor < cursor' \<and> cursor' \<le> length raw"
proof -
  from assms obtain h n where rl: "read_line raw cursor = Some (h, n)"
    by (auto simp: parse_item_def split: option.splits)
  then have n: "cursor < n" "n \<le> length raw"
    using read_line_bounds by auto
  from assms rl show ?thesis
    using n by (auto simp: parse_item_def obind_Ok_iff slice_Ok_iff Let_def split: if_splits)
qed

function parse_items ::
  "externs \<Rightarrow> bytes \<Rightarrow> nat \<Rightarrow> event list \<Rightarrow> (proto_error, event list) outcome" where
  "parse_items X raw cursor evs =
     (if cursor < length raw then
        (case parse_item X raw cursor of
           Err e \<Rightarrow> Err e
         | Panic \<Rightarrow> Panic
         | Ok None \<Rightarrow> Ok evs
         | Ok (Some (cursor', ev)) \<Rightarrow>
             parse_items X raw cursor' (case ev of Some e \<Rightarrow> evs @ [e] | None \<Rightarrow> evs))
      else Ok evs)"
  by pat_completeness auto
termination
  by (relation "measure (\<lambda>(X, raw, cursor, evs). length raw - cursor)")
     (auto dest: parse_item_progress)

declare parse_items.simps [simp del]

definition parse_envelope :: "externs \<Rightarrow> bytes \<Rightarrow> (proto_error, event list) outcome" where
  "parse_envelope X raw =
     (let cursor = 0
      in obind (ok_or (InvalidEnvelope ''missing envelope header'') (read_line raw cursor))
           (\<lambda>(header, after_header).
         obind (slice raw cursor (after_header - 1)) (\<lambda>header_bytes.
         obind (ok_or ProtoJson (x_json X header_bytes)) (\<lambda>_.
         parse_items X raw after_header []))))"

section \<open>When the parser panics\<close>

text \<open>
  The only panic is the payload slice of an item whose announced length makes the end offset wrap
  around to before the payload's start.
\<close>

lemma payload_end_bounds:
  assumes "payload_end raw cursor header = Ok e" and "cursor \<le> length raw"
  shows "e \<le> length raw"
  using assms
  by (auto simp: payload_end_def Let_def obind_Ok_iff slice_Ok_iff dest: position_less
        split: option.splits if_splits)

lemma payload_end_not_Panic: "cursor \<le> length raw \<Longrightarrow> payload_end raw cursor header \<noteq> Panic"
  by (auto simp: payload_end_def Let_def obind_Panic_iff slice_Panic_iff split: option.splits)

definition length_wraps :: "nat \<Rightarrow> u64 \<Rightarrow> bool" where
  "length_wraps cursor n \<longleftrightarrow> 2 ^ 64 \<le> cursor + unat n"

lemma usize_add_no_wrap: "\<not> length_wraps cursor n \<Longrightarrow> usize_add cursor n = cursor + unat n"
  by (simp add: usize_add_def length_wraps_def)

lemma usize_add_wraps:
  assumes "length_wraps cursor n" and "cursor < 2 ^ 64"
  shows "usize_add cursor n < cursor"
proof -
  have "unat n < 2 ^ 64" using unsigned_less [of n] by simp
  then have "usize_add cursor n = cursor + unat n - 2 ^ 64"
    using assms unfolding usize_add_def length_wraps_def by (simp add: mod_if)
  then show ?thesis using \<open>unat n < 2 ^ 64\<close> assms(1) unfolding length_wraps_def by linarith
qed

lemma payload_end_start:
  assumes "payload_end raw cursor header = Ok e" and "cursor \<le> length raw"
    and "\<And>n. item_length header = Some n \<Longrightarrow> \<not> length_wraps cursor n"
  shows "cursor \<le> e"
proof (cases "item_length header")
  case (Some n)
  then have "usize_add cursor n = cursor + unat n"
    using assms(3) by (simp add: usize_add_no_wrap)
  with assms(1) Some show ?thesis
    by (simp add: payload_end_def Let_def split: if_splits)
next
  case None
  with assms show ?thesis
    by (auto simp: payload_end_def obind_Ok_iff split: option.splits)
qed

lemma parse_item_panic_iff:
  assumes "length raw < 2 ^ 64"
  shows "parse_item X raw cursor = Panic \<longleftrightarrow>
    (\<exists>h n header len. read_line raw cursor = Some (h, n) \<and> cursor < h - 1 \<and>
       x_json X (take (h - 1 - cursor) (drop cursor raw)) = Some header \<and>
       item_length header = Some len \<and> length_wraps n len \<and>
       usize_add n len \<le> length raw)"
    (is "?L \<longleftrightarrow> ?R")
proof
  assume L: ?L
  then obtain h n where rl: "read_line raw cursor = Some (h, n)"
    by (auto simp: parse_item_def split: option.splits)
  note b = read_line_bounds [OF rl]
  from L rl b obtain header e where
    hb: "take (h - 1 - cursor) (drop cursor raw) \<noteq> []"
    and hd: "x_json X (take (h - 1 - cursor) (drop cursor raw)) = Some header"
    and pe: "payload_end raw n header = Ok e" and bad: "\<not> n \<le> e"
    using payload_end_bounds [of raw n] payload_end_not_Panic [of n raw]
    by (auto simp: parse_item_def obind_Panic_iff slice_Panic_iff slice_Ok_iff Let_def
          split: if_splits)
  from bad pe b obtain len where "item_length header = Some len" "length_wraps n len"
    using payload_end_start [OF pe] by auto
  moreover have "usize_add n len \<le> length raw"
    using pe \<open>item_length header = Some len\<close> by (simp add: payload_end_def Let_def split: if_splits)
  ultimately show ?R using rl hb hd by auto
next
  assume ?R
  then obtain h n header len where rl: "read_line raw cursor = Some (h, n)"
    and pos: "cursor < h - 1"
    and hd: "x_json X (take (h - 1 - cursor) (drop cursor raw)) = Some header"
    and len: "item_length header = Some len" "length_wraps n len" "usize_add n len \<le> length raw"
    by blast
  note b = read_line_bounds [OF rl]
  have "usize_add n len < n" using len(2) b assms by (intro usize_add_wraps) auto
  then have "slice raw n (usize_add n len) = (Panic :: (proto_error, bytes) outcome)"
    by (simp add: slice_def)
  moreover have "payload_end raw n header = Ok (usize_add n len)"
    using len by (simp add: payload_end_def Let_def)
  ultimately show ?L
    using rl b pos hd by (simp add: parse_item_def slice_def Let_def)
qed

text \<open>Announced lengths that no slice can have are the only source of a panic.\<close>

definition lengths_below :: "nat \<Rightarrow> externs \<Rightarrow> bool" where
  "lengths_below b X \<longleftrightarrow>
     (\<forall>bs h n. x_json X bs = Some h \<longrightarrow> item_length h = Some n \<longrightarrow> unat n < b)"

lemma parse_item_no_panic:
  assumes "length raw < 2 ^ 63" and "lengths_below (2 ^ 63) X"
  shows "parse_item X raw cursor \<noteq> Panic"
proof
  assume "parse_item X raw cursor = Panic"
  then obtain h n header len where rl: "read_line raw cursor = Some (h, n)"
    and hd: "x_json X (take (h - 1 - cursor) (drop cursor raw)) = Some header"
    and len: "item_length header = Some len" "length_wraps n len"
    using parse_item_panic_iff [of raw X cursor] assms(1) by auto
  from hd len(1) assms(2) have "unat len < 2 ^ 63"
    unfolding lengths_below_def by blast
  moreover have "n < 2 ^ 63" using read_line_bounds [OF rl] assms(1) by linarith
  ultimately show False using len(2) by (simp add: length_wraps_def)
qed

lemma parse_items_no_panic:
  assumes "length raw < 2 ^ 63" and "lengths_below (2 ^ 63) X"
  shows "parse_items X raw cursor evs \<noteq> Panic"
  using assms
proof (induction X raw cursor evs rule: parse_items.induct)
  case (1 X raw cursor evs)
  then show ?case
    using parse_item_no_panic [of raw X cursor]
    by (auto simp: parse_items.simps [of X raw cursor evs] split: outcome.splits option.splits)
qed

section \<open>Round trip\<close>

text \<open>
  An SDK sends a header line, then for every item its header line and its payload, each closed
  by a newline. \<open>item_ok\<close> is what the format asks of an item: its header is one line of JSON; its
  payload has the announced length, or is one line when no length is announced; the payload of an
  event item is an event.
\<close>

type_synonym item = "bytes \<times> bytes"

definition render_item :: "item \<Rightarrow> bytes" where
  "render_item it = (case it of (h, p) \<Rightarrow> h @ newline # p @ [newline])"

definition render_envelope :: "bytes \<Rightarrow> item list \<Rightarrow> bytes" where
  "render_envelope hdr its = hdr @ newline # concat (map render_item its)"

definition item_ok :: "externs \<Rightarrow> item \<Rightarrow> bool" where
  "item_ok X it =
     (case it of (h, p) \<Rightarrow>
        h \<noteq> [] \<and> newline \<notin> set h \<and>
        (case x_json X h of
           None \<Rightarrow> False
         | Some hj \<Rightarrow>
             (case item_length hj of Some n \<Rightarrow> unat n = length p | None \<Rightarrow> newline \<notin> set p) \<and>
             (item_type hj = ''event'' \<longrightarrow> x_event X p \<noteq> None)))"

definition item_event :: "externs \<Rightarrow> item \<Rightarrow> event option" where
  "item_event X it =
     (case it of (h, p) \<Rightarrow>
        Option.bind (x_json X h) (\<lambda>hj.
          if item_type hj = ''event'' then map_option augment_tags_from_user_agent (x_event X p)
          else None))"

lemma parse_item_render:
  assumes ok: "item_ok X it" and len: "length (pre @ render_item it @ post) < 2 ^ 63"
  shows "parse_item X (pre @ render_item it @ post) (length pre) =
    Ok (Some (length pre + length (render_item it), item_event X it))"
proof -
  obtain h p where it: "it = (h, p)" by force
  let ?raw = "pre @ h @ newline # p @ newline # post"
  let ?n = "length pre + length h + 1"
  obtain hj where h: "h \<noteq> []" "newline \<notin> set h" and hj: "x_json X h = Some hj"
    and len': "case item_length hj of Some n \<Rightarrow> unat n = length p | None \<Rightarrow> newline \<notin> set p"
    and ev: "item_type hj = ''event'' \<Longrightarrow> x_event X p \<noteq> None"
    using ok by (auto simp: it item_ok_def split: option.splits)
  have raw: "pre @ render_item it @ post = ?raw" by (simp add: it render_item_def)
  have rl: "read_line ?raw (length pre) = Some (?n, ?n)"
    by (rule read_line_line [OF h(2)])
  have hb: "slice ?raw (length pre) (?n - 1) = (Ok h :: (proto_error, bytes) outcome)"
    by (simp add: slice_def)
  have pe: "payload_end ?raw ?n hj = Ok (?n + length p)"
  proof (cases "item_length hj")
    case (Some n)
    then have "\<not> length_wraps ?n n"
      using len' len by (simp add: length_wraps_def it render_item_def)
    then show ?thesis
      using Some len' by (simp add: payload_end_def usize_add_no_wrap)
  next
    case None
    then have "position is_newline (p @ newline # post) = Some (length p)"
      by (intro position_append) (use len' in auto)
    then show ?thesis using None by (simp add: payload_end_def slice_def)
  qed
  have pl: "slice ?raw ?n (?n + length p) = (Ok p :: (proto_error, bytes) outcome)"
    by (simp add: slice_def)
  have nl: "?raw ! (?n + length p) = newline" "?n + length p < length ?raw"
    by (simp_all add: nth_append)
  show ?thesis
    unfolding raw using rl hb pe pl nl h hj ev
    by (auto simp: parse_item_def item_event_def it render_item_def)
qed

lemma parse_items_render:
  assumes "\<forall>it \<in> set its. item_ok X it"
    and "length (pre @ concat (map render_item its)) < 2 ^ 63"
  shows "parse_items X (pre @ concat (map render_item its)) (length pre) acc =
    Ok (acc @ List.map_filter (item_event X) its)"
  using assms
proof (induction its arbitrary: pre acc)
  case Nil
  then show ?case by (simp add: parse_items.simps map_filter_simps)
next
  case (Cons it its)
  let ?post = "concat (map render_item its)"
  have step: "parse_item X (pre @ render_item it @ ?post) (length pre) =
      Ok (Some (length pre + length (render_item it), item_event X it))"
    by (rule parse_item_render) (use Cons.prems in auto)
  have "render_item it \<noteq> []" by (cases it) (simp add: render_item_def)
  moreover have "parse_items X ((pre @ render_item it) @ ?post)
      (length (pre @ render_item it)) acc' = Ok (acc' @ List.map_filter (item_event X) its)" for acc'
    by (rule Cons.IH) (use Cons.prems in auto)
  ultimately show ?case
    using step by (auto simp: parse_items.simps [of X _ "length pre"] map_filter_simps split: option.splits)
qed

lemma parse_envelope_render_aux:
  assumes "newline \<notin> set hdr" and "x_json X hdr \<noteq> None"
    and "\<forall>it \<in> set its. item_ok X it" and "length (render_envelope hdr its) < 2 ^ 63"
  shows "parse_envelope X (render_envelope hdr its) = Ok (List.map_filter (item_event X) its)"
proof -
  let ?rest = "concat (map render_item its)"
  have rl: "read_line (hdr @ newline # ?rest) 0 = Some (length hdr + 1, length hdr + 1)"
    using read_line_line [OF assms(1), of "[]" ?rest] by simp
  have "parse_items X ((hdr @ [newline]) @ ?rest) (length (hdr @ [newline])) [] =
      Ok ([] @ List.map_filter (item_event X) its)"
    by (rule parse_items_render) (use assms in \<open>auto simp: render_envelope_def\<close>)
  with rl assms(2) show ?thesis
    by (auto simp: parse_envelope_def render_envelope_def slice_def)
qed

text \<open>A last line that no newline closes loses its last byte before it is parsed.\<close>

lemma parse_envelope_unterminated_header:
  assumes "raw \<noteq> []" and "newline \<notin> set raw"
  shows "parse_envelope X raw =
    (case x_json X (butlast raw) of None \<Rightarrow> Err ProtoJson | Some _ \<Rightarrow> Ok [])"
proof -
  have "position is_newline raw = None" using assms(2) by (simp add: position_none) blast
  with assms(1) have "read_line raw 0 = Some (length raw, length raw)"
    by (simp add: read_line_def)
  then show ?thesis
    by (simp add: parse_envelope_def slice_def butlast_conv_take parse_items.simps ok_or_def
          split: option.splits)
qed

lemma parse_envelope_huge_length:
  assumes "newline \<notin> set hdr" and "x_json X hdr \<noteq> None"
    and "h \<noteq> []" and "newline \<notin> set h" and "x_json X h = Some hj"
    and "item_length hj = Some len" and "2 ^ 64 \<le> length hdr + length h + 2 + unat len"
    and "length hdr + length h + 2 + length payload < 2 ^ 63"
  shows "parse_envelope X (hdr @ newline # h @ newline # payload) = Panic"
proof -
  let ?raw = "hdr @ newline # h @ newline # payload" and ?n = "length hdr + length h + 2"
  have r1: "read_line ?raw 0 = Some (length hdr + 1, length hdr + 1)"
    using read_line_line [OF assms(1), of "[]"] by simp
  have r2: "read_line ?raw (length hdr + 1) = Some (?n, ?n)"
    using read_line_line [OF assms(4), of "hdr @ [newline]" payload] by simp
  have "length_wraps ?n len" "usize_add ?n len < ?n"
    using assms(7,8) usize_add_wraps [of ?n len] by (simp_all add: length_wraps_def)
  moreover have "take (?n - 1 - (length hdr + 1)) (drop (length hdr + 1) ?raw) = h" by simp
  ultimately have "parse_item X ?raw (length hdr + 1) = Panic"
    using assms r2 by (subst parse_item_panic_iff) auto
  then have "parse_items X ?raw (length hdr + 1) [] = Panic"
    by (subst parse_items.simps) simp
  with r1 assms(2) show ?thesis
    by (auto simp: parse_envelope_def slice_def)
qed

lemma demo_huge_length:
  "parse_envelope demo_externs (''{}'' @ newline # ''max'' @ newline # ''x'') = Panic"
  by (rule parse_envelope_huge_length [where len = 18446744073709551615
        and hj = "JObj [(''length'', JNum (PosInt 18446744073709551615))]"])
     (simp_all add: demo_externs_def demo_json_def item_length_def json_get_def json_as_u64_def)

section \<open>Properties\<close>

text \<open>C7: round trip. An envelope written the way the protocol prescribes (header line, then for
  every item its header line and a payload of the announced length, or of one line when no length
  is announced) is read back as exactly its event items, in order, with their derived tags; items
  of other types are skipped.\<close>

theorem envelope_round_trip:
  assumes "newline \<notin> set hdr" and "x_json X hdr \<noteq> None"
    and "list_all (item_ok X) its" and "length (render_envelope hdr its) < 2 ^ 63"
  shows "parse_envelope X (render_envelope hdr its) = Ok (List.map_filter (item_event X) its)"
  using assms by (intro parse_envelope_render_aux) (simp_all add: list_all_iff)

theorem envelope_round_trip_witness:
  "parse_envelope demo_externs
     (render_envelope ''{}'' [(''event'', ''{}''), (''[]'', ''skipped''), (''event2'', ''{}'')]) =
   Ok [augment_tags_from_user_agent demo_event, augment_tags_from_user_agent demo_event]"
  using envelope_round_trip [of "''{}''" demo_externs
      "[(''event'', ''{}''), (''[]'', ''skipped''), (''event2'', ''{}'')]"]
  by (simp add: demo_externs_def demo_json_def item_ok_def item_event_def item_type_def
      item_length_def json_get_def json_as_u64_def json_as_str_def render_envelope_def
      render_item_def map_filter_simps)

text \<open>C25: one item header can end the daemon. When the announced length carries the payload's end
  past \<open>2 ^ 64\<close>, the sum wraps to an offset before the payload, the bounds check passes and the
  slice panics, whatever the payload is.\<close>

theorem huge_item_length_panics:
  assumes "newline \<notin> set hdr" and "x_json X hdr \<noteq> None"
    and "h \<noteq> []" and "newline \<notin> set h" and "x_json X h = Some hj"
    and "item_length hj = Some len" and "2 ^ 64 \<le> length hdr + length h + 2 + unat len"
    and "length hdr + length h + 2 + length payload < 2 ^ 63"
  shows "parse_envelope X (hdr @ newline # h @ newline # payload) = Panic"
  by (rule parse_envelope_huge_length [OF assms])

theorem huge_item_length_panics_witness:
  "parse_envelope demo_externs (''{}'' @ newline # ''max'' @ newline # ''x'') = Panic"
  by (rule huge_item_length_panics [where len = 18446744073709551615
        and hj = "JObj [(''length'', JNum (PosInt 18446744073709551615))]"])
     (simp_all add: demo_externs_def demo_json_def item_length_def json_get_def json_as_u64_def)

text \<open>C32: nothing else makes the parser panic. Whatever the bytes are, a panic means that a slice of
  the body decodes as an item header whose announced length is within the body's size of
  \<open>2 ^ 64\<close>.\<close>

theorem parser_panics_only_on_huge_length:
  assumes "length raw < 2 ^ 63" and "parse_envelope X raw = Panic"
  shows "\<exists>a n header len. x_json X (take n (drop a raw)) = Some header \<and>
    item_length header = Some len \<and> 2 ^ 64 \<le> length raw + unat len"
proof -
  have item: ?thesis if "parse_item X raw cursor = Panic" for cursor
    using that assms(1) parse_item_panic_iff [of raw X cursor]
    by (fastforce simp: length_wraps_def dest: read_line_bounds)
  have "parse_items X raw cursor evs = Panic \<Longrightarrow> ?thesis" for cursor evs
    using assms(1) item
  proof (induction X raw cursor evs rule: parse_items.induct)
    case (1 X raw cursor evs)
    then show ?case
      by (auto simp: parse_items.simps [of X raw cursor evs]
          split: if_splits outcome.splits option.splits)
  qed
  with assms(2) show ?thesis
    by (auto simp: parse_envelope_def obind_Panic_iff slice_Panic_iff dest: read_line_bounds)
qed

theorem parser_panics_only_on_huge_length_witness:
  "\<exists>a n header len. x_json demo_externs (take n (drop a
      (''{}'' @ newline # ''max'' @ newline # ''x''))) = Some header \<and>
    item_length header = Some len \<and>
    2 ^ 64 \<le> length (''{}'' @ newline # ''max'' @ newline # ''x'') + unat len"
  by (rule parser_panics_only_on_huge_length [OF _ demo_huge_length]) simp

text \<open>C22: the decompression bound. A gzip body is accepted exactly when it decodes without error to
  at most eight mebibytes, and then it is decoded as a whole.\<close>

theorem gzip_accepted_iff_bounded:
  assumes "is_gzip body"
  shows "maybe_gunzip X body =
    (if length (fst (x_gzip X body)) \<le> MAX_DECOMPRESSED \<and> snd (x_gzip X body) = False
     then Some (fst (x_gzip X body)) else None)"
  using maybe_gunzip_gzip [OF assms, of X "fst (x_gzip X body)" "snd (x_gzip X body)"] by simp

theorem gzip_accepted_iff_bounded_witness:
  "maybe_gunzip demo_externs [CHR 0x1F, CHR 0x8B, CHR ''a''] = Some ''a''"
  using gzip_accepted_iff_bounded [of "[CHR 0x1F, CHR 0x8B, CHR ''a'']" demo_externs]
  by (simp add: is_gzip_def demo_externs_def MAX_DECOMPRESSED_def)

text \<open>A header line that no newline closes is read without its last byte.\<close>

theorem unterminated_header_loses_a_byte:
  assumes "raw \<noteq> []" and "newline \<notin> set raw"
  shows "parse_envelope X raw =
    (case x_json X (butlast raw) of None \<Rightarrow> Err ProtoJson | Some _ \<Rightarrow> Ok [])"
  by (rule parse_envelope_unterminated_header [OF assms])

theorem unterminated_header_loses_a_byte_witness:
  "parse_envelope demo_externs ''{}'' = Err ProtoJson"
  using unterminated_header_loses_a_byte [of "''{}''" demo_externs]
  by (simp add: demo_externs_def demo_json_def)

end
