(* ===== verification/Ingest.thy ===== *)
theory Ingest
  imports Digest Envelope
begin

text \<open>
  The ingest endpoint of \<open>crates/errexd/src/ingest.rs\<close>: which token a request carries
  (\<open>extract_sentry_key\<close>) and what becomes of its envelope (\<open>ingest_envelope\<close>).

  The queue is a bounded channel on which \<open>send\<close> waits for room; a request that waits lets the digest
  task run, so here the queue just grows.
\<close>

section \<open>The token of a request\<close>

definition key_in_part :: "string \<Rightarrow> string option" where
  "key_in_part part =
     map_option (trim_matches (CHR 0x22))
       (first_opt (List.map_filter (strip_prefix ''sentry_key='') (split_whitespace (trim part))))"

definition extract_sentry_key :: "headers \<Rightarrow> string \<Rightarrow> string option" where
  "extract_sentry_key hs uri_query =
     (let from_header =
            (case header_str ''x-sentry-auth'' hs of
               None \<Rightarrow> None
             | Some auth \<Rightarrow> first_opt (List.map_filter key_in_part (split_by (\<lambda>c. c = CHR '','') auth)))
      in case from_header of
           Some key \<Rightarrow> Some key
         | None \<Rightarrow>
             first_opt (List.map_filter (strip_prefix ''sentry_key='')
               (split_by (\<lambda>c. c = CHR ''&'') uri_query)))"

section \<open>The handler\<close>

fun send_events :: "externs \<Rightarrow> string \<Rightarrow> event list \<Rightarrow> ('z server_ext, bool) op" where
  "send_events X project [] = ret True"
| "send_events X project (e # es) =
     bnd utc_now (\<lambda>now.
     bnd (send_event (prepare X now project e)) (\<lambda>sent.
     if \<not> sent then ret False
     else bnd (update_counters inc_accepted) (\<lambda>_. send_events X project es)))"

definition ingest_accept ::
  "externs \<Rightarrow> (rat \<Rightarrow> rat) \<Rightarrow> string \<Rightarrow> bytes \<Rightarrow> ('z server_ext, response) op" where
  "ingest_accept X rnd project body =
     bnd (limiter_check rnd project) (\<lambda>admitted.
     if \<not> admitted then
       bnd (update_counters inc_rejected_rate_limit) (\<lambda>_. ret (plain 429 ''rate limit exceeded''))
     else case maybe_gunzip X body of
       None \<Rightarrow> ret (plain 400 ''invalid gzip'')
     | Some raw \<Rightarrow>
       (case parse_envelope X raw of
          Err e \<Rightarrow> ret (plain 400 ''invalid envelope'')
        | Panic \<Rightarrow> panic
        | Ok es \<Rightarrow>
            if es = [] then bnd (touch_project_used X project) (\<lambda>_. ret (reply 200 PNone))
            else
              bnd (send_events X project es) (\<lambda>sent.
              if \<not> sent then ret (plain 503 ''shutting down'')
              else bnd (touch_project_used X project) (\<lambda>_. ret (reply 200 PNone)))))"

definition ingest_envelope ::
  "externs \<Rightarrow> (rat \<Rightarrow> rat) \<Rightarrow> app_config \<Rightarrow> string \<Rightarrow> headers \<Rightarrow> string \<Rightarrow> bytes \<Rightarrow>
     ('z server_ext, response) op" where
  "ingest_envelope X rnd cfg project hs uri_query body =
     (if cf_require_auth cfg then
        (case extract_sentry_key hs uri_query of
           None \<Rightarrow> ret (plain 401 ''missing sentry_key'')
         | Some key \<Rightarrow>
           bnd (try_op (project_by_token X key)) (\<lambda>found.
           case found of
             Inl e \<Rightarrow> ret internal_error
           | Inr p \<Rightarrow>
               if map_option pj_name p = Some project then ingest_accept X rnd project body
               else ret (plain 401 ''invalid sentry_key for project'')))
      else ingest_accept X rnd project body)"

section \<open>What it does\<close>

text \<open>A request is authorised for a project when its token is the token of that project.\<close>

definition authorised :: "app_config \<Rightarrow> headers \<Rightarrow> string \<Rightarrow> string \<Rightarrow> db \<Rightarrow> bool" where
  "authorised cfg hs uri_query project d \<longleftrightarrow>
     (if cf_require_auth cfg
      then \<exists>key p. extract_sentry_key hs uri_query = Some key \<and>
             find (\<lambda>p. pr_token p = key) (projects d) = Some p \<and> pr_name p = project
      else True)"

lemma wp_limiter_check:
  "Q (Ok (fst (rate_check rnd p (sv_instant w) (sv_limiter w))))
     (w\<lparr>sv_limiter := snd (rate_check rnd p (sv_instant w) (sv_limiter w))\<rparr>) \<Longrightarrow>
   wp (limiter_check rnd p) Q w"
  by (simp add: wp_def limiter_check_def case_prod_beta)

lemma wp_update_counters:
  "Q (Ok ()) (w\<lparr>sv_counters := f (sv_counters w)\<rparr>) \<Longrightarrow> wp (update_counters f) Q w"
  by (simp add: wp_def update_counters_def)

lemma send_events_eq:
  "send_events X project es w =
     (if es = [] then (Ok True, w)
      else if sv_queue_open w then
        (Ok True, w\<lparr>sv_queue := sv_queue w @ map (prepare X (w_now w) project) es,
           sv_counters := (sv_counters w)
             \<lparr>mt_events_accepted := mt_events_accepted (sv_counters w) + of_nat (length es)\<rparr>\<rparr>)
      else (Ok False, w))"
  by (induction es arbitrary: w)
     (auto simp: ret_def bnd_def utc_now_def send_event_def update_counters_def inc_accepted_def
        algebra_simps)

lemma wp_send_events:
  assumes "es = [] \<or> sv_queue_open w \<Longrightarrow> Q (Ok True)
      (w\<lparr>sv_queue := sv_queue w @ map (prepare X (w_now w) project) es, sv_counters := (sv_counters w)
         \<lparr>mt_events_accepted := mt_events_accepted (sv_counters w) + of_nat (length es)\<rparr>\<rparr>)"
    and "Q (Ok False) w"
  shows "wp (send_events X project es) Q w"
  using assms by (auto simp: wp_def send_events_eq)

text \<open>What may happen to the tables: the project was used now.\<close>

definition only_used :: "string \<Rightarrow> db \<Rightarrow> db \<Rightarrow> bool" where
  "only_used project d d' \<longleftrightarrow> d' = d \<or>
     (\<exists>v. d' = d\<lparr>projects := update_where (\<lambda>p. pr_name p = project)
        (\<lambda>p. p\<lparr>pr_last_used_at := v\<rparr>) (projects d)\<rparr>)"

lemma only_usedI:
  "only_used project d d"
  "only_used project d (d\<lparr>projects := update_where (\<lambda>p. pr_name p = project)
     (\<lambda>p. p\<lparr>pr_last_used_at := v\<rparr>) (projects d)\<rparr>)"
  unfolding only_used_def by blast+

lemma wp_touch_project_used:
  assumes "\<And>w'. world.more w' = world.more w \<Longrightarrow> w_now w' = w_now w \<Longrightarrow>
      only_used project (w_db w) (w_db w') \<Longrightarrow> Q (Ok ()) w'"
  shows "wp (touch_project_used X project) Q w"
  unfolding touch_project_used_def
  by (intro wp_intros) (auto intro!: assms only_usedI wp_intros simp: update_project_def)

definition admitted :: "(rat \<Rightarrow> rat) \<Rightarrow> string \<Rightarrow> 'z server_scheme \<Rightarrow> bool" where
  "admitted rnd project w = fst (rate_check rnd project (sv_instant w) (sv_limiter w))"

definition accepted ::
  "externs \<Rightarrow> string \<Rightarrow> event list \<Rightarrow> 'z server_scheme \<Rightarrow> 'z server_scheme \<Rightarrow> bool" where
  "accepted X project es w w' \<longleftrightarrow>
     sv_queue w' = sv_queue w @ map (prepare X (w_now w) project) es \<and>
     mt_events_accepted (sv_counters w') = mt_events_accepted (sv_counters w) + of_nat (length es) \<and>
     only_used project (w_db w) (w_db w')"

lemma wp_ingest_accept:
  "wp (ingest_accept X rnd project body)
     (\<lambda>r w'. case r of
        Ok resp \<Rightarrow>
          if re_status resp = 200 then
            admitted rnd project w \<and>
            (\<exists>raw es. maybe_gunzip X body = Some raw \<and> parse_envelope X raw = Ok es \<and>
               accepted X project es w w')
          else w_db w' = w_db w \<and> sv_queue w' = sv_queue w
      | Err e \<Rightarrow> False
      | Panic \<Rightarrow> \<exists>raw. maybe_gunzip X body = Some raw \<and> parse_envelope X raw = Panic) w"
  unfolding ingest_accept_def
  by (auto intro!: wp_intros wp_limiter_check wp_update_counters wp_send_events wp_touch_project_used
      simp: admitted_def accepted_def only_usedI split: outcome.split dest!: same_server)

lemma pj_name_of_row: "pj_name (project_of_row X t r) = pr_name r"
  by (simp add: project_of_row_def)

lemma wp_ingest_envelope:
  assumes ok: "\<And>w1. world.more w1 = world.more w \<Longrightarrow> w_db w1 = w_db w \<Longrightarrow> w_now w1 = w_now w \<Longrightarrow>
      authorised cfg hs uri_query project (w_db w) \<Longrightarrow> wp (ingest_accept X rnd project body) Q w1"
    and refused: "\<And>w' resp. re_status resp \<noteq> 200 \<Longrightarrow> w_db w' = w_db w \<Longrightarrow>
      world.more w' = world.more w \<Longrightarrow> Q (Ok resp) w'"
  shows "wp (ingest_envelope X rnd cfg project hs uri_query body) Q w"
proof -
  have ok': "p = project \<Longrightarrow> world.more w1 = world.more w \<Longrightarrow> w_db w1 = w_db w \<Longrightarrow> w_now w1 = w_now w \<Longrightarrow>
      authorised cfg hs uri_query project (w_db w) \<Longrightarrow> wp (ingest_accept X rnd p body) Q w1" for p w1
    by (simp add: ok)
  show ?thesis
    unfolding ingest_envelope_def project_by_token_def
    by (auto intro!: wp_intros ok' refused simp: authorised_def pj_name_of_row)
qed

lemma wp_ingest_result:
  "wp (ingest_envelope X rnd cfg project hs uri_query body)
    (\<lambda>r w'. case r of
       Ok resp \<Rightarrow>
         if re_status resp = 200 then
           authorised cfg hs uri_query project (w_db w) \<and> admitted rnd project w \<and>
           (\<exists>raw es. maybe_gunzip X body = Some raw \<and> parse_envelope X raw = Ok es \<and>
              accepted X project es w w')
         else w_db w' = w_db w \<and> sv_queue w' = sv_queue w
     | Err e \<Rightarrow> False
     | Panic \<Rightarrow> \<exists>raw. maybe_gunzip X body = Some raw \<and> parse_envelope X raw = Panic) w"
proof (rule wp_ingest_envelope, rule wp_mono [OF wp_ingest_accept])
  fix w' :: "'a server_scheme" and resp
  assume "re_status resp \<noteq> 200" "w_db w' = w_db w" "world.more w' = world.more w"
  then show "case Ok resp of
     Ok resp \<Rightarrow>
       if re_status resp = 200 then
         authorised cfg hs uri_query project (w_db w) \<and> admitted rnd project w \<and>
         (\<exists>raw es. maybe_gunzip X body = Some raw \<and> parse_envelope X raw = Ok es \<and>
            accepted X project es w w')
       else w_db w' = w_db w \<and> sv_queue w' = sv_queue w
   | Err e \<Rightarrow> False
   | Panic \<Rightarrow> \<exists>raw. maybe_gunzip X body = Some raw \<and> parse_envelope X raw = Panic"
    by (auto dest: same_server)
qed (auto simp: accepted_def admitted_def dest!: same_server split: outcome.splits if_splits)

section \<open>Properties\<close>

text \<open>C8: the ingest endpoint takes in nothing it should not, and all it should. A 200 means that the
  request carried the project's token (when tokens are required), that the project was within its
  rate, that the body inflated and parsed, and then exactly its events, in order, were appended to
  the digest queue and counted, and nothing in the database changed but the project's last use.
  Any other answer leaves queue and database as they were. The handler reports no internal error,
  and panics only if the envelope parser does.\<close>

theorem ingest_accepts_exactly_the_envelope:
  "case ingest_envelope X rnd cfg project hs uri_query body w of
     (Ok resp, w') \<Rightarrow>
       if re_status resp = 200 then
         authorised cfg hs uri_query project (w_db w) \<and> admitted rnd project w \<and>
         (\<exists>raw es. maybe_gunzip X body = Some raw \<and> parse_envelope X raw = Ok es \<and>
            accepted X project es w w')
       else w_db w' = w_db w \<and> sv_queue w' = sv_queue w
   | (Err e, w') \<Rightarrow> False
   | (Panic, w') \<Rightarrow> \<exists>raw. maybe_gunzip X body = Some raw \<and> parse_envelope X raw = Panic"
  using wp_ingest_result [of X rnd cfg project hs uri_query body w]
  by (simp add: wp_def split: prod.splits outcome.splits)

end
