(* ===== verification/Ws.thy ===== *)
theory Ws
  imports Auth "HOL-Library.Sublist"
begin

text \<open>
  The WebSocket endpoint, \<open>crates/errexd/src/ws.rs\<close>: the gate before the upgrade (\<open>handle\<close>,
  \<open>origin_allowed\<close>) and the session of a connected client (\<open>run\<close>). The loop of a session is run on
  the outcomes of its \<open>select!\<close> in order; what the broadcast channel delivers, and whether a write
  succeeds, is tokio's and the network's, and enters as such outcomes.
\<close>

section \<open>The gate\<close>

definition normalize_origin :: "string \<Rightarrow> string option" where
  "normalize_origin url =
     map_option (\<lambda>(scheme, rest).
       scheme @ ''://'' @ (case split_once ''/'' rest of Some (host, _) \<Rightarrow> host | None \<Rightarrow> rest))
       (split_once ''://'' (trim_end_matches (CHR ''/'') url))"

definition origin_allowed :: "string \<Rightarrow> string \<Rightarrow> bool \<Rightarrow> bool" where
  "origin_allowed origin public_url dev_mode =
     (case normalize_origin public_url of
        None \<Rightarrow> False
      | Some public_origin \<Rightarrow>
          if origin = public_origin then True
          else if dev_mode \<and> origin = ''http://localhost:5173'' then True
          else False)"

lemma origin_allowed_iff:
  "origin_allowed origin public_url dev_mode \<longleftrightarrow>
     (\<exists>own. normalize_origin public_url = Some own \<and>
        (origin = own \<or> (dev_mode \<and> origin = ''http://localhost:5173'')))"
  by (auto simp: origin_allowed_def split: option.split)

text \<open>A response with status 101 hands the connection over to \<open>ws_session\<close>.\<close>

definition ws_handle :: "externs \<Rightarrow> app_config \<Rightarrow> headers \<Rightarrow> ('z, response) op" where
  "ws_handle X cfg hs =
     guarded (require_auth X hs)
       (case header_str ''origin'' hs of
          None \<Rightarrow> ret (reply 101 PNone)
        | Some origin \<Rightarrow>
            if \<not> origin_allowed origin (cf_public_url cfg) (cf_dev_mode cfg)
            then ret (plain 403 ''origin not allowed'')
            else ret (reply 101 PNone))"

section \<open>A session\<close>

datatype ws_incoming = WsText string | WsClose | WsEnd | WsFrame | WsFailure

datatype ws_event =
    FanoutMessage server_message
  | FanoutLagged u64
  | FanoutClosed
  | WsIncoming ws_incoming

text \<open>Whether the next write succeeds, given what was written before.\<close>

type_synonym ws_writer = "server_message list \<Rightarrow> server_message \<Rightarrow> bool"

fun ws_loop ::
  "ws_writer \<Rightarrow> server_message list \<Rightarrow> ws_event list \<Rightarrow> ('z server_ext, server_message list) op" where
  "ws_loop send sent [] = ret sent"
| "ws_loop send sent (ev # evs) =
     (case ev of
        FanoutMessage m \<Rightarrow>
          if send sent m then ws_loop send (sent @ [m]) evs else ret sent
      | FanoutLagged skipped \<Rightarrow>
          bnd (update_counters (add_ws_lagged skipped)) (\<lambda>_. ws_loop send sent evs)
      | FanoutClosed \<Rightarrow> ret sent
      | WsIncoming msg \<Rightarrow>
          (case msg of
             WsText t \<Rightarrow> ws_loop send sent evs
           | WsClose \<Rightarrow> ret sent
           | WsEnd \<Rightarrow> ret sent
           | WsFrame \<Rightarrow> ws_loop send sent evs
           | WsFailure \<Rightarrow> ret sent))"

definition ws_session ::
  "externs \<Rightarrow> string \<Rightarrow> ws_writer \<Rightarrow> ws_event list \<Rightarrow> ('z server_ext, server_message list) op" where
  "ws_session X server_version send evs =
     bnd (load_issues X) (\<lambda>is.
     if \<not> send [] (Hello server_version) then ret []
     else if \<not> send [Hello server_version] (Snapshot is) then ret [Hello server_version]
     else ws_loop send [Hello server_version, Snapshot is] evs)"

section \<open>What a client sees\<close>

text \<open>The reference: the outcomes up to the one that ends the session.\<close>

fun ends_session :: "ws_event \<Rightarrow> bool" where
  "ends_session FanoutClosed = True"
| "ends_session (WsIncoming m) = (m \<in> {WsClose, WsEnd, WsFailure})"
| "ends_session _ = False"

definition heard :: "ws_event list \<Rightarrow> ws_event list" where
  "heard evs = takeWhile (\<lambda>ev. \<not> ends_session ev) evs"

definition messages :: "ws_event list \<Rightarrow> server_message list" where
  "messages evs = List.map_filter (\<lambda>ev. case ev of FanoutMessage m \<Rightarrow> Some m | _ \<Rightarrow> None) evs"

definition lag :: "ws_event list \<Rightarrow> u64" where
  "lag evs = sum_list (List.map_filter (\<lambda>ev. case ev of FanoutLagged n \<Rightarrow> Some n | _ \<Rightarrow> None) evs)"

lemmas heard_simps = heard_def messages_def lag_def List.map_filter_simps

text \<open>A session writes a prefix of what it hears, all of it if no write fails.\<close>

lemma ws_loop_sends:
  "\<exists>ms c. ws_loop send sent evs w = (Ok (sent @ ms), w\<lparr>sv_counters := c\<rparr>) \<and> prefix ms (messages (heard evs))"
proof (induction evs arbitrary: sent w)
  case Nil
  show ?case by (intro exI [of _ "[]"] exI [of _ "sv_counters w"]) (simp add: ret_def)
next
  case (Cons ev evs)
  have stop: "\<exists>c. ret sent w = (Ok sent, w\<lparr>sv_counters := c\<rparr>)"
    by (rule exI [of _ "sv_counters w"]) (simp add: ret_def)
  then have stop': "\<exists>ms c. ret sent w = (Ok (sent @ ms), w\<lparr>sv_counters := c\<rparr>) \<and> prefix ms xs" for xs
    by (intro exI [of _ "[]"]) simp
  show ?case
  proof (cases ev)
    case (FanoutMessage m)
    from Cons.IH [of "sent @ [m]" w] obtain ms c where
      "ws_loop send (sent @ [m]) evs w = (Ok (sent @ m # ms), w\<lparr>sv_counters := c\<rparr>)"
      "prefix ms (messages (heard evs))" by auto
    then show ?thesis
      using stop' FanoutMessage by (auto simp: heard_simps intro!: exI [of _ "m # ms"])
  next
    case (FanoutLagged n)
    let ?w = "w\<lparr>sv_counters := add_ws_lagged n (sv_counters w)\<rparr>"
    from Cons.IH [of sent ?w] obtain ms c where
      "ws_loop send sent evs ?w = (Ok (sent @ ms), ?w\<lparr>sv_counters := c\<rparr>)"
      "prefix ms (messages (heard evs))" by auto
    then show ?thesis
      using FanoutLagged by (auto simp: bnd_def update_counters_def heard_simps)
  qed (use Cons.IH stop in \<open>auto simp: heard_simps split: ws_incoming.split\<close>)
qed

lemma ws_loop_all:
  assumes "\<And>before m. send before m"
  shows "ws_loop send sent evs w =
    (Ok (sent @ messages (heard evs)), w\<lparr>sv_counters := add_ws_lagged (lag (heard evs)) (sv_counters w)\<rparr>)"
proof (induction evs arbitrary: sent w)
  case Nil
  then show ?case by (simp add: ret_def heard_simps add_ws_lagged_def)
next
  case (Cons ev evs)
  then show ?case
    using assms
    by (cases ev)
       (auto simp: ret_def bnd_def update_counters_def heard_simps add_ws_lagged_def algebra_simps
          split: ws_incoming.split)
qed

text \<open>What a session has to say at best: the greeting, the stored issues, and what it hears.\<close>

definition ws_script :: "externs \<Rightarrow> string \<Rightarrow> ws_event list \<Rightarrow> db \<Rightarrow> time \<Rightarrow> server_message list" where
  "ws_script X version evs d t =
     [Hello version, Snapshot (map (issue_of_row X t) (order_desc ir_last_seen (issues d)))]
     @ messages (heard evs)"

section \<open>Properties\<close>

lemma wp_ws_handle:
  "wp (ws_handle X cfg hs)
     (\<lambda>r w'. kept w w' \<and> (\<exists>resp. r = Ok resp \<and>
        (if re_status resp = 101
         then caller (w_db w) hs \<noteq> None \<and> (case header_str ''origin'' hs of
                None \<Rightarrow> True | Some o' \<Rightarrow> origin_allowed o' (cf_public_url cfg) (cf_dev_mode cfg))
         else refusal resp))) w"
  unfolding ws_handle_def
  by (rule user_gate.wp_guarded) (auto intro!: wp_case_option wp_if wp_ret simp: refusal_def)

text \<open>Only a signed-in client of the daemon's own origin is upgraded. The endpoint answers 101 only
  when the cookie belongs to an account and the Origin header, if there is one, is the scheme and
  authority of the configured public URL (or, in dev mode, the Vite server's); everything else is a
  refusal without a cookie, and in no case does the database change but for the session's last use.\<close>

theorem websocket_gate:
  "case ws_handle X cfg hs w of
     (Ok resp, w') \<Rightarrow> kept w w' \<and>
       (if re_status resp = 101
        then caller (w_db w) hs \<noteq> None \<and>
          (case header_str ''origin'' hs of
             None \<Rightarrow> True
           | Some origin \<Rightarrow> \<exists>own. normalize_origin (cf_public_url cfg) = Some own \<and>
               (origin = own \<or> (cf_dev_mode cfg \<and> origin = ''http://localhost:5173'')))
        else refusal resp)
   | _ \<Rightarrow> False"
  using wp_ws_handle [of X cfg hs w]
  by (cases "ws_handle X cfg hs w"; cases "fst (ws_handle X cfg hs w)")
     (auto simp: wp_def origin_allowed_iff split: option.splits)

text \<open>C25: a connected client misses nothing it can be told. A session sends the greeting, then all
  issues as they are stored, then the fan-out messages it hears, in order and without repetition, up
  to the first write that fails; it changes nothing but the lag counter. When no write fails it
  sends exactly what it hears until it is closed, and counts every message reported as skipped.\<close>

theorem ws_session_sends_snapshot_then_updates:
  "(\<exists>sent c. ws_session X version send evs (calm w) = (Ok sent, (calm w)\<lparr>sv_counters := c\<rparr>) \<and>
      prefix sent (ws_script X version evs (w_db w) (w_now w))) \<and>
   ws_session X version (\<lambda>before m. True) evs (calm w) =
     (Ok (ws_script X version evs (w_db w) (w_now w)),
      (calm w)\<lparr>sv_counters := add_ws_lagged (lag (heard evs)) (sv_counters (calm w))\<rparr>)"
proof -
  let ?is = "map (issue_of_row X (w_now w)) (order_desc ir_last_seen (issues (w_db w)))"
  have load: "load_issues X (calm w) = (Ok ?is, calm w)"
    by (simp add: load_issues_def bnd_def query_quiet op_simps)
  from ws_loop_sends [of send "[Hello version, Snapshot ?is]" evs "calm w"] obtain ms c where
    "ws_loop send [Hello version, Snapshot ?is] evs (calm w) =
       (Ok (Hello version # Snapshot ?is # ms), (calm w)\<lparr>sv_counters := c\<rparr>)"
    and "prefix ms (messages (heard evs))" by auto
  moreover have "\<exists>c. calm w = (calm w)\<lparr>sv_counters := c\<rparr>"
    by (rule exI [of _ "sv_counters (calm w)"]) simp
  ultimately show ?thesis
    unfolding ws_script_def ws_session_def bnd_def load
    by (auto simp: ret_def ws_loop_all)
qed

end
