(* ===== verification/Spa.thy ===== *)
theory Spa
  imports Http
begin

text \<open>
  The single-page application's files, \<open>crates/errexd/src/spa.rs\<close>. The files rust-embed puts into the
  binary are the argument \<open>assets\<close>, a map from paths to contents.
\<close>

definition mime_table :: "(string \<times> string) list" where
  "mime_table =
     [(''html'', ''text/html; charset=utf-8''), (''js'', ''application/javascript''),
      (''css'', ''text/css; charset=utf-8''), (''json'', ''application/json''),
      (''svg'', ''image/svg+xml''), (''woff2'', ''font/woff2''), (''woff'', ''font/woff''),
      (''ttf'', ''font/ttf''), (''ico'', ''image/x-icon''), (''png'', ''image/png''),
      (''jpg'', ''image/jpeg''), (''jpeg'', ''image/jpeg''), (''webp'', ''image/webp''),
      (''avif'', ''image/avif''), (''gif'', ''image/gif''), (''wasm'', ''application/wasm''),
      (''map'', ''application/json''), (''txt'', ''text/plain; charset=utf-8'')]"

definition mime_for_path :: "string \<Rightarrow> string" where
  "mime_for_path path =
     (case Option.bind (rsplit_once (CHR ''.'') path) (\<lambda>(_, ext). map_of mime_table ext) of
        Some mime \<Rightarrow> mime
      | None \<Rightarrow> ''application/octet-stream'')"

definition file_response :: "string \<Rightarrow> bytes \<Rightarrow> response" where
  "file_response path body = reply 200 (PAsset (mime_for_path path) body)"

definition spa_handler :: "(string \<Rightarrow> bytes option) \<Rightarrow> string \<Rightarrow> response" where
  "spa_handler assets raw_path =
     (if starts_with ''/api/'' raw_path
      then reply 404 (PAsset ''application/json'' (''{'' @ [CHR 0x22] @ ''error'' @ [CHR 0x22] @ '':''
             @ [CHR 0x22] @ ''endpoint not found'' @ [CHR 0x22] @ ''}''))
      else
        let path = trim_start_matches (CHR ''/'') raw_path;
            path = (if path = [] then ''index.html'' else path) in
        case assets path of
          Some body \<Rightarrow> file_response path body
        | None \<Rightarrow>
            (case assets ''index.html'' of
               Some body \<Rightarrow> file_response ''index.html'' body
             | None \<Rightarrow> plain 404 (''errexd: web/build/ is empty '' @ [CHR 0xE2, CHR 0x80, CHR 0x94]
                 @ '' run `bun run build` in web/ or rebuild the container.'')))"

text \<open>
  A path below \<open>/api/\<close> never gets a file, whatever is embedded; every other path gets an embedded
  file as soon as there is an index.
\<close>

lemma spa_api_is_404: "starts_with ''/api/'' path \<Longrightarrow> re_status (spa_handler assets path) = 404"
  by (simp add: spa_handler_def)

lemma spa_serves_files:
  assumes "assets ''index.html'' = Some index" and "\<not> starts_with ''/api/'' path"
  shows "\<exists>name body. assets name = Some body \<and> spa_handler assets path = file_response name body"
  using assms by (auto simp: spa_handler_def Let_def split: option.split)

lemma spa_status: "re_status (spa_handler assets path) \<in> {200, 404}"
  by (simp add: spa_handler_def file_response_def Let_def split: option.split)

end
