(* ===== verification/Config.thy ===== *)
theory Config
  imports Demo_Externs
begin

text \<open>
  The configuration of \<open>crates/errexd/src/config.rs\<close>: the flags with their defaults, and what the
  daemon and its health probe derive from them. Reading flags and environment is clap's; the value of
  \<open>PORT\<close> is an argument. Socket addresses follow the grammar of the standard library: an IPv4
  literal, or an IPv6 literal in brackets, then a colon and the port.
\<close>

section \<open>The flags\<close>

record config =
  co_data_dir :: string
  co_http_host :: string
  co_http_port :: "u16 option"
  co_mcp_host :: string
  co_mcp_port :: u16
  co_log_level :: string
  co_dev_mode :: bool
  co_require_auth :: bool
  co_retention_days :: u32
  co_rate_limit_per_min :: u32
  co_rate_limit_burst :: u32
  co_public_url :: string
  co_admin_token :: "string option"
  co_trust_proxy_headers :: bool

definition default_config :: config where
  "default_config =
     \<lparr>co_data_dir = ''./data'', co_http_host = ''127.0.0.1'', co_http_port = None,
      co_mcp_host = ''127.0.0.1'', co_mcp_port = 9092, co_log_level = ''info'', co_dev_mode = False,
      co_require_auth = True, co_retention_days = 30, co_rate_limit_per_min = 6000,
      co_rate_limit_burst = 200, co_public_url = ''http://localhost:9090'',
      co_admin_token = Some '''', co_trust_proxy_headers = False\<rparr>"

section \<open>Numbers and addresses in text\<close>

text \<open>\<open>parse::<u16>\<close>: digits with an optional plus sign, in range.\<close>

definition parse_u16 :: "string \<Rightarrow> u16 option" where
  "parse_u16 s =
     (let ds = (case strip_prefix ''+'' s of Some r \<Rightarrow> r | None \<Rightarrow> s) in
      if ds \<noteq> [] \<and> list_all is_digit ds \<and> digits_value ds < 65536
      then Some (of_nat (digits_value ds)) else None)"

definition port_number :: "string \<Rightarrow> u16 option" where
  "port_number s = (if starts_with ''+'' s then None else parse_u16 s)"

text \<open>An IPv6 literal in a socket address may carry a scope id.\<close>

definition without_scope :: "string \<Rightarrow> string option" where
  "without_scope s =
     (case split_once ''%'' s of
        None \<Rightarrow> Some s
      | Some (addr, scope) \<Rightarrow>
          if scope \<noteq> [] \<and> list_all is_digit scope \<and> digits_value scope < 4294967296 then Some addr
          else None)"

definition parse_socket_addr :: "externs \<Rightarrow> string \<Rightarrow> (ip_addr \<times> u16) option" where
  "parse_socket_addr X s =
     (case strip_prefix ''['' s of
        Some rest \<Rightarrow>
          (case split_once '']:'' rest of
             None \<Rightarrow> None
           | Some (inner, port) \<Rightarrow>
               (case (Option.bind (without_scope inner) (x_ip X), port_number port) of
                  (Some (V6 a b c d e f g h), Some p) \<Rightarrow> Some (V6 a b c d e f g h, p)
                | _ \<Rightarrow> None))
      | None \<Rightarrow>
          (case split_once '':'' s of
             None \<Rightarrow> None
           | Some (host, port) \<Rightarrow>
               (case (x_ip X host, port_number port) of
                  (Some (V4 a b c d), Some p) \<Rightarrow> Some (V4 a b c d, p)
                | _ \<Rightarrow> None)))"

fun is_v4 :: "ip_addr \<Rightarrow> bool" where
  "is_v4 (V4 a b c d) = True"
| "is_v4 _ = False"

fun ip_is_loopback :: "ip_addr \<Rightarrow> bool" where
  "ip_is_loopback (V4 a b c d) \<longleftrightarrow> a = 127"
| "ip_is_loopback (V6 a b c d e f g h) \<longleftrightarrow> [a, b, c, d, e, f, g, h] = [0, 0, 0, 0, 0, 0, 0, 1]"

section \<open>What is derived from the flags\<close>

definition resolved_http_port :: "string option \<Rightarrow> config \<Rightarrow> u16" where
  "resolved_http_port env_port c =
     (case co_http_port c of
        Some p \<Rightarrow> p
      | None \<Rightarrow>
          (case Option.bind env_port parse_u16 of
             Some p \<Rightarrow> p
           | None \<Rightarrow> 9090))"

definition show_port :: "u16 \<Rightarrow> string" where
  "show_port p = show_nat (unat p)"

definition http_addr :: "externs \<Rightarrow> string option \<Rightarrow> config \<Rightarrow> ('e, ip_addr \<times> u16) outcome" where
  "http_addr X env_port c =
     (case parse_socket_addr X (co_http_host c @ '':'' @ show_port (resolved_http_port env_port c)) of
        Some a \<Rightarrow> Ok a
      | None \<Rightarrow> Panic)"

definition mcp_addr :: "externs \<Rightarrow> config \<Rightarrow> ('e, ip_addr \<times> u16) outcome" where
  "mcp_addr X c =
     (case parse_socket_addr X (co_mcp_host c @ '':'' @ show_port (co_mcp_port c)) of
        Some a \<Rightarrow> Ok a
      | None \<Rightarrow> Panic)"

definition bind_is_loopback :: "externs \<Rightarrow> config \<Rightarrow> bool" where
  "bind_is_loopback X c =
     (case x_ip X (co_http_host c) of
        Some ip \<Rightarrow> ip_is_loopback ip
      | None \<Rightarrow> co_http_host c = ''localhost'')"

text \<open>The standard library's text form of an IPv6 address is the argument \<open>show_v6\<close>.\<close>

definition healthcheck_host :: "externs \<Rightarrow> (ip_addr \<Rightarrow> string) \<Rightarrow> config \<Rightarrow> string" where
  "healthcheck_host X show_v6 c =
     (let host = co_http_host c in
      if host = ''0.0.0.0'' then ''127.0.0.1''
      else if host = ''::'' then ''[::1]''
      else case x_ip X host of
        Some (V6 a b c' d e f g h) \<Rightarrow> ''['' @ show_v6 (V6 a b c' d e f g h) @ '']''
      | _ \<Rightarrow> host)"

definition healthcheck_url ::
  "externs \<Rightarrow> (ip_addr \<Rightarrow> string) \<Rightarrow> string option \<Rightarrow> config \<Rightarrow> string" where
  "healthcheck_url X show_v6 env_port c =
     ''http://'' @ healthcheck_host X show_v6 c @ '':'' @ show_port (resolved_http_port env_port c)
       @ ''/health''"

definition public_url_is_default :: "config \<Rightarrow> bool" where
  "public_url_is_default c \<longleftrightarrow> co_public_url c = ''http://localhost:9090''"

section \<open>Ports in text\<close>

lemma unat_u16: "unat (p :: u16) < 65536"
  using unsigned_less [of p, where 'a = nat] by simp

lemma show_port_char: "\<not> is_digit c \<Longrightarrow> c \<notin> set (show_port p)"
  by (simp add: show_port_def not_in_digits)

lemma no_plus: "\<not> starts_with ''+'' (show_port p)"
  using show_port_char [of "CHR ''+''" p] by (auto simp: starts_with_iff is_digit_def)

lemma parse_show_port: "parse_u16 (show_port p) = Some p"
  using no_plus [of p]
  by (simp add: parse_u16_def strip_prefix_def)
     (simp add: show_port_def show_nat_digits unat_u16)

lemma port_show_port: "port_number (show_port p) = Some p"
  by (simp add: port_number_def no_plus parse_show_port)

section \<open>Properties\<close>

lemma split_host:
  "split_once '':'' (host @ CHR '':'' # port) =
     (case split_once '':'' host of
        None \<Rightarrow> Some (host, port)
      | Some (h, r) \<Rightarrow> Some (h, r @ CHR '':'' # port))"
  by (induction host) (auto simp: starts_with_def split: option.splits)

lemma port_with_colon: "CHR '':'' \<in> set s \<Longrightarrow> port_number s = None"
  by (auto simp: port_number_def parse_u16_def strip_prefix_def list_all_iff is_digit_def Let_def)

lemma unsplit_colon: "split_once '':'' s = None \<longleftrightarrow> CHR '':'' \<notin> set s"
  by (induction s) (auto simp: starts_with_def)

text \<open>Only an address literal lets the daemon start. For a bind host without brackets, the listen
  address is the host and the resolved port when the host is an IPv4 literal; for an unbracketed
  IPv6 address or a host name, which the flag, the loopback check and the health probe all accept, the
  daemon panics as it forms the address.\<close>

theorem listen_address:
  assumes "\<not> starts_with ''['' (co_http_host c)"
    and "\<And>v. x_ip X (co_http_host c) = Some v \<Longrightarrow> is_v4 v \<Longrightarrow> CHR '':'' \<notin> set (co_http_host c)"
  shows "http_addr X env_port c =
     (case x_ip X (co_http_host c) of
        Some (V4 a b c' d) \<Rightarrow> Ok (V4 a b c' d, resolved_http_port env_port c)
      | _ \<Rightarrow> Panic)"
proof -
  let ?h = "co_http_host c" and ?p = "resolved_http_port env_port c"
  have "\<not> starts_with ''['' (?h @ '':'' @ show_port ?p)"
    using assms(1) by (cases ?h) (auto simp: starts_with_def)
  then have "http_addr X env_port c =
     (case split_once '':'' (?h @ '':'' @ show_port ?p) of
        None \<Rightarrow> Panic
      | Some (host, port) \<Rightarrow>
          (case (x_ip X host, port_number port) of
             (Some (V4 a b c' d), Some p) \<Rightarrow> Ok (V4 a b c' d, p)
           | _ \<Rightarrow> Panic))"
    by (simp add: http_addr_def parse_socket_addr_def strip_prefix_def split: option.split ip_addr.split prod.split)
  then show ?thesis
    using assms(2) unsplit_colon [of ?h]
    by (cases "split_once '':'' ?h")
       (auto simp: split_host port_show_port port_with_colon split: option.split ip_addr.split)
qed

theorem listen_address_witness:
  "http_addr demo_externs None (default_config\<lparr>co_http_host := ''localhost''\<rparr>) = (Panic :: (unit, _) outcome)
   \<and> bind_is_loopback demo_externs (default_config\<lparr>co_http_host := ''localhost''\<rparr>)"
proof
  let ?c = "default_config\<lparr>co_http_host := ''localhost''\<rparr>"
  have "x_ip demo_externs ''localhost'' = None" by (simp add: demo_externs_def demo_ip_def)
  then show "http_addr demo_externs None ?c = (Panic :: (unit, _) outcome)"
    using listen_address [of ?c demo_externs None] by (simp add: starts_with_def)
  show "bind_is_loopback demo_externs ?c"
    by (simp add: bind_is_loopback_def demo_externs_def demo_ip_def)
qed

end
