(* ===== verification/Cli.thy ===== *)
theory Cli
  imports Api Config
begin

text \<open>
  The command line of \<open>crates/errexd/src/main.rs\<close>: what the daemon makes of its configuration at boot, the
  health probe (\<open>run_healthcheck\<close>) and the project commands (\<open>run_project_cmd\<close>), which work on the
  database directly. A project command returns the lines it prints; random bytes are arguments.
\<close>

section \<open>Booting\<close>

definition INGEST_CHANNEL_CAPACITY :: nat where
  "INGEST_CHANNEL_CAPACITY = 256"

definition FANOUT_CHANNEL_CAPACITY :: nat where
  "FANOUT_CHANNEL_CAPACITY = 64"

definition WEBHOOK_CHANNEL_CAPACITY :: nat where
  "WEBHOOK_CHANNEL_CAPACITY = 64"

text \<open>The configuration part of \<open>AppState\<close>: an empty token is no token.\<close>

definition app_config_of :: "config \<Rightarrow> app_config" where
  "app_config_of c =
     \<lparr>cf_require_auth = co_require_auth c,
      cf_setup_token = (case co_admin_token c of Some t \<Rightarrow> if t \<noteq> [] then Some t else None | None \<Rightarrow> None),
      cf_public_url = co_public_url c, cf_dev_mode = co_dev_mode c,
      cf_trust_proxy_headers = co_trust_proxy_headers c\<rparr>"

definition boot_limiter :: "(rat \<Rightarrow> rat) \<Rightarrow> config \<Rightarrow> rate_limiter" where
  "boot_limiter rnd c = new_limiter rnd (co_rate_limit_per_min c) (co_rate_limit_burst c)"

definition warns_about_public_url :: "externs \<Rightarrow> config \<Rightarrow> bool" where
  "warns_about_public_url X c \<longleftrightarrow> public_url_is_default c \<and> \<not> bind_is_loopback X c"

datatype log_filter = TraceLevel | DebugLevel | InfoLevel | WarnLevel | ErrorLevel

definition init_tracing :: "string \<Rightarrow> log_filter" where
  "init_tracing level =
     (let l = to_ascii_lowercase level in
      if l = ''trace'' then TraceLevel
      else if l = ''debug'' then DebugLevel
      else if l = ''warn'' then WarnLevel
      else if l = ''error'' then ErrorLevel
      else InfoLevel)"

section \<open>The health probe\<close>

text \<open>\<open>from_utf8\<close> accepts well-formed UTF-8: the length of the character a string starts with, or zero.\<close>

definition between :: "nat \<Rightarrow> nat \<Rightarrow> char \<Rightarrow> bool" where
  "between lo hi c \<longleftrightarrow> lo \<le> byte c \<and> byte c \<le> hi"

definition utf8_second :: "char \<Rightarrow> char \<Rightarrow> nat" where
  "utf8_second a b =
     (if between 0xC2 0xDF a \<and> is_cont b then 2
      else if byte a = 0xE0 \<and> between 0xA0 0xBF b \<or> between 0xE1 0xEC a \<and> is_cont b
              \<or> byte a = 0xED \<and> between 0x80 0x9F b \<or> between 0xEE 0xEF a \<and> is_cont b then 3
      else if byte a = 0xF0 \<and> between 0x90 0xBF b \<or> between 0xF1 0xF3 a \<and> is_cont b
              \<or> byte a = 0xF4 \<and> between 0x80 0x8F b then 4
      else 0)"

definition utf8_length :: "bytes \<Rightarrow> nat" where
  "utf8_length s =
     (case s of
        [] \<Rightarrow> 0
      | a # r \<Rightarrow>
          if between 0 0x7F a then 1
          else case r of
            [] \<Rightarrow> 0
          | b # r' \<Rightarrow>
              (let n = utf8_second a b in
               if n \<noteq> 0 \<and> n \<le> length s \<and> list_all is_cont (take (n - 2) r') then n else 0))"

function from_utf8 :: "bytes \<Rightarrow> string option" where
  "from_utf8 s =
     (if s = [] then Some []
      else if utf8_length s = 0 then None
      else map_option ((@) (take (utf8_length s) s)) (from_utf8 (drop (utf8_length s) s)))"
  by pat_completeness auto
termination
  by (relation "measure length") auto

declare from_utf8.simps [simp del]

text \<open>The connect target and the request, or nothing when the URL is refused.\<close>

definition CRLF :: string where
  "CRLF = [CHR 0x0D, CHR 0x0A]"

definition probe_target :: "string \<Rightarrow> (string \<times> string) option" where
  "probe_target url =
     map_option (\<lambda>stripped.
       case split_once ''/'' stripped of
         Some (authority, path) \<Rightarrow> (authority, ''/'' @ path)
       | None \<Rightarrow> (stripped, ''/''))
       (strip_prefix ''http://'' url)"

definition probe_request :: "string \<Rightarrow> string \<Rightarrow> bytes" where
  "probe_request host_port path =
     ''GET '' @ path @ '' HTTP/1.1'' @ CRLF @ ''Host: '' @ host_port @ CRLF
       @ ''Connection: close'' @ CRLF @ CRLF"

definition probe_accepts :: "bytes \<Rightarrow> bool" where
  "probe_accepts buf =
     (let head = (case from_utf8 (take 64 buf) of Some h \<Rightarrow> h | None \<Rightarrow> '''') in
      starts_with ''HTTP/1.1 200'' head \<or> starts_with ''HTTP/1.0 200'' head)"

text \<open>
  \<open>healthcheck\<close>: the exchange with the server is the argument, \<open>None\<close> when connecting, writing or
  reading fails. The result is whether the command exits with 0.
\<close>

definition run_healthcheck :: "(string \<Rightarrow> bytes \<Rightarrow> bytes option) \<Rightarrow> string \<Rightarrow> bool" where
  "run_healthcheck exchange url =
     (case probe_target url of
        None \<Rightarrow> False
      | Some (host_port, path) \<Rightarrow>
          (case exchange host_port (probe_request host_port path) of
             None \<Rightarrow> False
           | Some buf \<Rightarrow> probe_accepts buf))"

definition healthcheck_cmd ::
  "externs \<Rightarrow> (ip_addr \<Rightarrow> string) \<Rightarrow> string option \<Rightarrow> (string \<Rightarrow> bytes \<Rightarrow> bytes option) \<Rightarrow> config \<Rightarrow>
     string option \<Rightarrow> bool \<Rightarrow> bool" where
  "healthcheck_cmd X show_v6 env_port exchange c url require_public_bind =
     (if require_public_bind \<and> bind_is_loopback X c then False
      else run_healthcheck exchange
             (case url of Some u \<Rightarrow> u | None \<Rightarrow> healthcheck_url X show_v6 env_port c))"

section \<open>Project commands\<close>

datatype project_cmd =
    Add string string
  | List
  | Rotate string
  | SetWebhookCmd string string
  | UnsetWebhookCmd string

definition pad_to :: "nat \<Rightarrow> string \<Rightarrow> string" where
  "pad_to n s = s @ replicate (n - chars_count s) CHR '' ''"

definition project_line :: "externs \<Rightarrow> project \<Rightarrow> string" where
  "project_line X p =
     pad_to 24 (pj_name p) @ '' token='' @ pj_token p @ ''  last_used=''
       @ (case pj_last_used_at p of Some t \<Rightarrow> x_rfc3339 X t | None \<Rightarrow> ''never'')"

text \<open>The arrow of the rotation message, in UTF-8.\<close>

definition ARROW :: string where
  "ARROW = [CHR 0xE2, CHR 0x86, CHR 0x92]"

definition run_project_cmd :: "externs \<Rightarrow> bytes \<Rightarrow> project_cmd \<Rightarrow> ('z, string list) op" where
  "run_project_cmd X uuid cmd =
     (case cmd of
        Add name public_url \<Rightarrow>
          bnd (create_project X uuid name) (\<lambda>p.
          ret [''project:    '' @ pj_name p, ''token:      '' @ pj_token p,
               ''dsn:        '' @ dsn_for public_url (pj_name p) (pj_token p),
               ''ingest_url: '' @ ingest_url_for public_url (pj_name p) (pj_token p)])
      | List \<Rightarrow>
          bnd (list_admin_projects X) (\<lambda>ps.
          ret ((if ps = [] then [''(no projects)''] else []) @ map (project_line X) ps))
      | Rotate name \<Rightarrow>
          bnd (rotate_token X uuid name) (\<lambda>p.
          ret [''rotated: '' @ pj_name p @ '' '' @ ARROW @ '' token='' @ pj_token p])
      | SetWebhookCmd name url \<Rightarrow>
          bnd (set_project_webhook name (Some url)) (\<lambda>_.
          ret [''webhook set for '' @ name @ '': '' @ url])
      | UnsetWebhookCmd name \<Rightarrow>
          bnd (set_project_webhook name None) (\<lambda>_.
          ret [''webhook cleared for '' @ name]))"

section \<open>Properties\<close>

text \<open>C0: the probe dials the daemon's own port. Whatever the host, as long as it has no slash, the URL
  derived from the configuration makes the probe connect to the dialable form of the host at the
  resolved port and ask for \<open>/health\<close>; and with the public-bind requirement, a command on a
  loopback bind fails whatever the daemon answers.\<close>

theorem healthcheck_follows_the_bind:
  assumes "CHR ''/'' \<notin> set (healthcheck_host X show_v6 c)"
  shows "healthcheck_cmd X show_v6 env_port exchange c None public_bind \<longleftrightarrow>
     \<not> (public_bind \<and> bind_is_loopback X c) \<and>
     (let dial = healthcheck_host X show_v6 c @ '':'' @ show_port (resolved_http_port env_port c) in
      case exchange dial (probe_request dial ''/health'') of Some buf \<Rightarrow> probe_accepts buf | None \<Rightarrow> False)"
proof -
  let ?a = "healthcheck_host X show_v6 c @ '':'' @ show_port (resolved_http_port env_port c)"
  have "CHR ''/'' \<notin> set ?a"
    using assms show_port_char [of "CHR ''/''"] by (simp add: is_digit_def)
  then have "split_once ''/'' (?a @ ''/health'') = Some (?a, ''health'')"
    using split_once_char [of "CHR ''/''" ?a "''health''"] by simp
  moreover have "strip_prefix ''http://'' (healthcheck_url X show_v6 env_port c) = Some (?a @ ''/health'')"
    by (simp add: strip_prefix_Some healthcheck_url_def)
  ultimately have "probe_target (healthcheck_url X show_v6 env_port c) = Some (?a, ''/health'')"
    by (simp add: probe_target_def)
  then show ?thesis
    by (simp add: healthcheck_cmd_def run_healthcheck_def Let_def)
qed

theorem healthcheck_follows_the_bind_witness:
  "healthcheck_cmd demo_externs (\<lambda>_. '''') (Some ''8080'')
     (\<lambda>dial request. if dial = ''127.0.0.1:8080'' then Some ''HTTP/1.1 200 OK'' else None)
     (default_config\<lparr>co_http_host := ''0.0.0.0''\<rparr>) None True"
proof -
  let ?c = "default_config\<lparr>co_http_host := ''0.0.0.0''\<rparr>"
  have host: "healthcheck_host demo_externs (\<lambda>_. '''') ?c = ''127.0.0.1''"
    by (simp add: healthcheck_host_def Let_def)
  have "parse_u16 ''8080'' = Some 8080"
    by (simp add: parse_u16_def strip_prefix_def starts_with_def is_digit_def digits_value_def)
  then have port: "show_port (resolved_http_port (Some ''8080'') ?c) = ''8080''"
    by (simp add: resolved_http_port_def default_config_def show_port_def show_nat.simps digit_char_def
        char_of_def bit_0)
  have "from_utf8 ''HTTP/1.1 200 OK'' = Some ''HTTP/1.1 200 OK''"
    by (simp add: from_utf8.simps utf8_length_def between_def)
  then have accepts: "probe_accepts ''HTTP/1.1 200 OK''"
    by (simp add: probe_accepts_def starts_with_def)
  have "\<not> bind_is_loopback demo_externs ?c"
    by (simp add: bind_is_loopback_def demo_externs_def demo_ip_def)
  then show ?thesis
    using healthcheck_follows_the_bind [of demo_externs "\<lambda>_. ''''" ?c "Some ''8080''"] host port accepts
    by (simp add: Let_def)
qed

text \<open>C39: the command line stores webhook addresses the gate refuses. For an existing project, without
  faults, \<open>project set-webhook\<close> stores any URL, and the delivery task will post to it; for a URL the
  gate refuses, the HTTP endpoint answers 400 to an administrator and stores nothing.\<close>

theorem cli_webhook_skips_the_gate:
  assumes "select_project name (w_db w) = Some p" and "validate_url X url = Inl why"
    and "admin_caller (w_db w) hs"
  shows "(\<exists>out w'. run_project_cmd X uuid (SetWebhookCmd name url) (calm w) = (Ok out, w') \<and>
        webhook_of name (w_db w') = Some url) \<and>
    (\<exists>w'. admin_set_webhook X cfg hs name (Some (Some url)) (calm w) = (Ok (plain 400 why), w') \<and>
        projects (w_db w') = projects (w_db w))"
proof
  have name: "pr_name p = name" and found: "\<exists>r \<in> set (projects (w_db w)). pr_name r = name"
    using assms(1) by (auto simp: select_project_def dest: find_SomeD)
  then show "\<exists>out w'. run_project_cmd X uuid (SetWebhookCmd name url) (calm w) = (Ok out, w') \<and>
      webhook_of name (w_db w') = Some url"
    using assms(1)
    by (auto simp: run_project_cmd_def set_project_webhook_def bnd_def exec_quiet update_project_def ret_def
        webhook_of_def select_project_def find_update_key count_where_def filter_empty_conv)
  obtain d where "slid (w_db w) d" and
    "admin_set_webhook X cfg hs name (Some (Some url)) (calm w) =
       ret (plain 400 why) ((calm w)\<lparr>w_db := d\<rparr>)"
    using guarded_admin_quiet [of "calm w" hs X] assms(2,3) unfolding admin_set_webhook_def by auto
  then show "\<exists>w'. admin_set_webhook X cfg hs name (Some (Some url)) (calm w) = (Ok (plain 400 why), w') \<and>
      projects (w_db w') = projects (w_db w)"
    by (auto simp: ret_def dest: slid_same)
qed

theorem cli_webhook_skips_the_gate_witness:
  "(\<exists>out w'. run_project_cmd demo_externs [] (SetWebhookCmd ''web'' ''ftp://x/'') (calm demo_db_world) =
        (Ok out, w') \<and> webhook_of ''web'' (w_db w') = Some ''ftp://x/'') \<and>
   (\<exists>w'. admin_set_webhook demo_externs demo_config [(''cookie'', ''errex_session=s-ann'')] ''web''
        (Some (Some ''ftp://x/'')) (calm demo_db_world) =
        (Ok (plain 400 ''scheme must be http or https''), w') \<and>
        projects (w_db w') = projects demo_db)"
proof -
  have "select_project ''web'' (w_db demo_db_world) = Some (demo_project ''web'' ''tok-web'')"
    by (simp add: select_project_def demo_db_world_def demo_db_def demo_project_def)
  moreover have "validate_url demo_externs ''ftp://x/'' = Inl ''scheme must be http or https''"
    by (simp add: validate_url_def demo_externs_def demo_url_def starts_with_def)
  ultimately show ?thesis
    using cli_webhook_skips_the_gate [of "''web''" demo_db_world _ demo_externs] demo_admin
    by (auto simp: demo_db_world_def)
qed

end
