(* ===== verification/Router.thy ===== *)
theory Router
  imports Api_Users Ingest Ws Spa Cli
begin

text \<open>
  The HTTP interface as a whole: \<open>build_router\<close> of \<open>crates/errexd/src/ingest.rs\<close> dispatches a request to
  its handler, and \<open>serve\<close> runs it to a response. A request is what axum's matching and extraction
  leave of it, with the random bytes drawn while it is handled. The invariants of the daemon's
  tables are proved here for every request.
\<close>

section \<open>Requests\<close>

datatype request =
    Health
  | Metrics nat "u64 option"
  | SetupStatus
  | Setup client "setup_body option"
  | Login client "login_body option"
  | Logout headers
  | Me headers
  | ListProjects headers
  | ListIssues headers "string option"
  | LatestEvent headers int
  | PutStatus headers int "issue_status option"
  | GetRetention headers
  | PutRetention headers "retention_settings option"
  | GetStorage headers
  | ListAdminProjects headers
  | CreateProject headers bytes "string option"
  | RenameProject headers string "string option"
  | DeleteProject headers string
  | SetWebhook headers string "string option option"
  | RotateToken headers bytes string
  | Activity headers string
  | DestroyPreview headers string
  | ListUsers headers
  | CreateUser headers string "create_user_body option"
  | GetUser headers string
  | PatchUser headers string string "patch_user_body option"
  | DeleteUser headers string
  | ListUserSessions headers string
  | RevokeUserSessions headers string
  | Envelope headers string string bytes
  | Ws headers
  | Page string

text \<open>What is fixed while the daemon runs.\<close>

record api_env =
  en_externs :: externs
  en_config :: app_config
  en_round :: "rat \<Rightarrow> rat"
  en_page_bytes :: "db \<Rightarrow> int"
  en_julian_age :: "time \<Rightarrow> string \<Rightarrow> int option"
  en_assets :: "string \<Rightarrow> bytes option"

definition MAX_ENVELOPE_BODY :: nat where
  "MAX_ENVELOPE_BODY = 1024 * 1024"

text \<open>
  \<open>metrics\<close>: a channel's depth is its capacity less its free places; the number of subscribers and the
  resident memory are read from tokio and \<open>/proc\<close>, and part of the request.
\<close>

definition channel_depth :: "nat \<Rightarrow> nat \<Rightarrow> nat \<times> nat" where
  "channel_depth cap queued = (cap, cap - (cap - queued))"

definition metrics :: "nat \<Rightarrow> u64 option \<Rightarrow> ('z daemon_ext server_ext, response) op" where
  "metrics subscribers rss w =
     (Ok (reply 200 (PMetrics
        \<lparr>mv_events_accepted = mt_events_accepted (sv_counters w),
         mv_events_rejected_rate_limit = mt_events_rejected_rate_limit (sv_counters w),
         mv_ws_lagged_total = mt_ws_lagged_total (sv_counters w),
         mv_ingest_channel = channel_depth INGEST_CHANNEL_CAPACITY (length (sv_queue w)),
         mv_webhook_channel = channel_depth (dm_webhook_capacity w) (length (dm_triggers w)),
         mv_subscribers = subscribers, mv_rss_kb = rss\<rparr>)), w)"

definition dispatch :: "api_env \<Rightarrow> request \<Rightarrow> ('z daemon_ext server_ext, response) op" where
  "dispatch E req =
     (let X = en_externs E; cfg = en_config E in
      case req of
        Health \<Rightarrow> ret (reply 200 PHealth)
      | Metrics subscribers rss \<Rightarrow> metrics subscribers rss
      | SetupStatus \<Rightarrow> handle_setup_status cfg
      | Setup cl body \<Rightarrow> handle_setup X cfg cl body
      | Login cl body \<Rightarrow> handle_login X cfg cl body
      | Logout hs \<Rightarrow> handle_logout cfg hs
      | Me hs \<Rightarrow> handle_me X hs
      | ListProjects hs \<Rightarrow> list_projects X hs
      | ListIssues hs project \<Rightarrow> list_issues X hs project
      | LatestEvent hs i \<Rightarrow> get_latest_event X hs i
      | PutStatus hs i body \<Rightarrow> put_status X hs i body
      | GetRetention hs \<Rightarrow> admin_get_retention X hs
      | PutRetention hs body \<Rightarrow> admin_put_retention X hs body
      | GetStorage hs \<Rightarrow> admin_get_storage X (en_page_bytes E) (en_julian_age E) hs
      | ListAdminProjects hs \<Rightarrow> admin_list_projects X cfg hs
      | CreateProject hs uuid body \<Rightarrow> admin_create_project X cfg hs uuid body
      | RenameProject hs name body \<Rightarrow> admin_rename_project X cfg hs name body
      | DeleteProject hs name \<Rightarrow> admin_delete_project X hs name
      | SetWebhook hs name body \<Rightarrow> admin_set_webhook X cfg hs name body
      | RotateToken hs uuid name \<Rightarrow> admin_rotate_token X cfg hs uuid name
      | Activity hs name \<Rightarrow> admin_project_activity X hs name
      | DestroyPreview hs name \<Rightarrow> admin_destroy_preview X hs name
      | ListUsers hs \<Rightarrow> admin_list_users X hs
      | CreateUser hs salt body \<Rightarrow> admin_create_user X hs salt body
      | GetUser hs u \<Rightarrow> admin_get_user X hs u
      | PatchUser hs salt u body \<Rightarrow> admin_patch_user X hs salt u body
      | DeleteUser hs u \<Rightarrow> admin_delete_user X hs u
      | ListUserSessions hs u \<Rightarrow> admin_list_user_sessions X hs u
      | RevokeUserSessions hs u \<Rightarrow> admin_revoke_user_sessions X hs u
      | Envelope hs project uri_query body \<Rightarrow>
          if length body > MAX_ENVELOPE_BODY then ret (plain 413 ''length limit exceeded'')
          else ingest_envelope X (en_round E) cfg project hs uri_query body
      | Ws hs \<Rightarrow> ws_handle X cfg hs
      | Page path \<Rightarrow> ret (spa_handler (en_assets E) path))"

definition serve :: "api_env \<Rightarrow> request \<Rightarrow> ('z daemon_ext server_ext, response) op" where
  "serve E req = respond (dispatch E req)"

text \<open>Which requests are for administrators, and for any signed-in user, with their headers.\<close>

fun admin_request :: "request \<Rightarrow> headers option" where
  "admin_request (PutStatus hs i body) = Some hs"
| "admin_request (GetRetention hs) = Some hs"
| "admin_request (PutRetention hs body) = Some hs"
| "admin_request (GetStorage hs) = Some hs"
| "admin_request (ListAdminProjects hs) = Some hs"
| "admin_request (CreateProject hs uuid body) = Some hs"
| "admin_request (RenameProject hs name body) = Some hs"
| "admin_request (DeleteProject hs name) = Some hs"
| "admin_request (SetWebhook hs name url) = Some hs"
| "admin_request (RotateToken hs uuid name) = Some hs"
| "admin_request (Activity hs name) = Some hs"
| "admin_request (DestroyPreview hs name) = Some hs"
| "admin_request (ListUsers hs) = Some hs"
| "admin_request (CreateUser hs salt body) = Some hs"
| "admin_request (GetUser hs u) = Some hs"
| "admin_request (PatchUser hs salt u body) = Some hs"
| "admin_request (DeleteUser hs u) = Some hs"
| "admin_request (ListUserSessions hs u) = Some hs"
| "admin_request (RevokeUserSessions hs u) = Some hs"
| "admin_request _ = None"

fun user_request :: "request \<Rightarrow> headers option" where
  "user_request (Me hs) = Some hs"
| "user_request (ListProjects hs) = Some hs"
| "user_request (ListIssues hs project) = Some hs"
| "user_request (LatestEvent hs i) = Some hs"
| "user_request (Ws hs) = Some hs"
| "user_request _ = None"

section \<open>Access control\<close>

lemma wp_respond:
  "wp m (\<lambda>r w'. case r of Ok x \<Rightarrow> Q (Ok x) w' | Err e \<Rightarrow> Q (Ok internal_error) w' | Panic \<Rightarrow> Q Panic w') w
   \<Longrightarrow> wp (respond m) Q w"
  unfolding respond_def
  by (rule wp_bnd, rule wp_try_op, rule wp_mono, assumption) (auto intro!: wp_ret split: outcome.splits)

lemmas read_handlers = list_projects_def list_issues_def get_latest_event_def ws_handle_def

lemmas admin_handlers = put_status_def admin_get_retention_def admin_put_retention_def
  admin_get_storage_def admin_list_projects_def admin_create_project_def admin_rename_project_def
  admin_delete_project_def admin_set_webhook_def admin_rotate_token_def admin_project_activity_def
  admin_destroy_preview_def admin_list_users_def admin_create_user_def admin_get_user_def
  admin_patch_user_def admin_delete_user_def admin_list_user_sessions_def
  admin_revoke_user_sessions_def

text \<open>Every such request is answered behind the gate.\<close>

lemma dispatch_admin:
  fixes E :: api_env
  assumes "admin_request req = Some hs"
  defines "d \<equiv> dispatch E req :: ('z daemon_ext server_ext, response) op"
  shows "(\<exists>m. d = guarded (check_admin (en_externs E) hs) m) \<or>
    (\<exists>m. d = guarded (require_admin (en_externs E) hs) m)"
  unfolding d_def using assms(1)
  apply (cases req; simp add: dispatch_def Let_def)
  apply (unfold admin_handlers)
  by ((rule disjI1, rule exI, rule refl) | (rule disjI2, rule exI, rule refl))+

lemma stranger_dispatch:
  fixes w :: "'z daemon_scheme"
  assumes "admin_request req = Some hs" and "\<not> admin_caller (w_db w) hs"
  shows "wp (dispatch E req) (\<lambda>r w'. kept w w' \<and> (\<exists>resp. r = Ok resp \<and> refusal resp)) w"
  using dispatch_admin [OF assms(1), of E, where 'z = 'z]
proof (elim disjE exE)
  fix m
  assume "(dispatch E req :: ('z daemon_ext server_ext, response) op) = guarded (check_admin (en_externs E) hs) m"
  then show ?thesis using check_gate.stranger_refused [OF assms(2)] by simp
next
  fix m
  assume "(dispatch E req :: ('z daemon_ext server_ext, response) op) = guarded (require_admin (en_externs E) hs) m"
  then show ?thesis using admin_gate.stranger_refused [OF assms(2)] by simp
qed

lemma signed_out_me:
  assumes "caller (w_db w) hs = None"
  shows "wp (handle_me X hs) (\<lambda>r w'. kept w w' \<and> (\<exists>resp. r = Ok resp \<and> refusal resp)) w"
  unfolding handle_me_def
  by (rule wp_bnd, rule wp_require_auth) (auto intro!: wp_ret simp: assms refusal_def)

lemma dispatch_user:
  fixes E :: api_env
  assumes "user_request req = Some hs"
  defines "d \<equiv> dispatch E req :: ('z daemon_ext server_ext, response) op"
  shows "d = handle_me (en_externs E) hs \<or> (\<exists>m. d = guarded (require_auth (en_externs E) hs) m)"
  unfolding d_def using assms(1)
  apply (cases req; simp add: dispatch_def Let_def)
  apply (unfold read_handlers)
  by (rule disjI2, rule exI, rule refl)+

lemma signed_out_dispatch:
  fixes w :: "'z daemon_scheme"
  assumes "user_request req = Some hs" and "caller (w_db w) hs = None"
  shows "wp (dispatch E req) (\<lambda>r w'. kept w w' \<and> (\<exists>resp. r = Ok resp \<and> refusal resp)) w"
  using dispatch_user [OF assms(1), of E, where 'z = 'z]
proof (elim disjE exE)
  assume "(dispatch E req :: ('z daemon_ext server_ext, response) op) = handle_me (en_externs E) hs"
  then show ?thesis using signed_out_me [OF assms(2)] by simp
next
  fix m
  assume "(dispatch E req :: ('z daemon_ext server_ext, response) op) =
    guarded (require_auth (en_externs E) hs) m"
  then show ?thesis using user_gate.stranger_refused [of w hs] assms(2) by simp
qed

section \<open>Invariants of the tables\<close>

text \<open>Predicates that the sliding expiry of sessions keeps, and with them every gate.\<close>

definition slid_closed :: "(db \<Rightarrow> bool) \<Rightarrow> bool" where
  "slid_closed J \<longleftrightarrow> (\<forall>d d'. slid d d' \<longrightarrow> J d \<longrightarrow> J d')"

lemma slid_closed_intros [pres_intros]:
  "slid_closed schema_ok"
  "slid_closed (\<lambda>d. list_all P (projects d))"
  "slid_closed (\<lambda>d. list_ex Q (users d))"
  "slid_closed (\<lambda>d. users d = [] \<or> list_ex Q (users d))"
  unfolding slid_closed_def by (auto dest: slid_same slid_schema_ok)

lemma preserves_gates [pres_intros]:
  assumes "slid_closed J"
  shows "preserves J (require_auth X hs)"
    and "preserves J h \<Longrightarrow> preserves J (guarded (check_admin X hs) h)"
    and "preserves J h \<Longrightarrow> preserves J (guarded (require_admin X hs) h)"
    and "preserves J h \<Longrightarrow> preserves J (guarded (require_auth X hs) h)"
proof -
  have J: "\<And>d d'. slid d d' \<Longrightarrow> J d \<Longrightarrow> J d'" using assms by (simp add: slid_closed_def)
  show "preserves J (require_auth X hs)"
    by (rule preserves_wp, rule wp_require_auth) (auto simp: kept_def intro: J)
  show "preserves J h \<Longrightarrow> preserves J (guarded (check_admin X hs) h)"
    by (rule check_gate.preserves_guarded [OF J])
  show "preserves J h \<Longrightarrow> preserves J (guarded (require_admin X hs) h)"
    by (rule admin_gate.preserves_guarded [OF J])
  show "preserves J h \<Longrightarrow> preserves J (guarded (require_auth X hs) h)"
    by (rule user_gate.preserves_guarded [OF J])
qed

lemma readonly_send_events [atomic_intros]: "readonly (send_events X project es)"
  by (auto simp: readonly_def send_events_eq)

lemma readonly_metrics [atomic_intros]: "readonly (metrics n rss)"
  by (simp add: readonly_def metrics_def)

lemma preserves_server_ops [pres_intros]:
  "preserves J (metrics n rss)"
  "preserves J (limiter_check rnd p)" "preserves J (update_counters f)" "preserves J (broadcast m)"
  "preserves J (send_events X project es)"
  using preserves_readonly readonly_metrics readonly_server_ops readonly_send_events by blast+

lemma preserves_ingest:
  assumes "preserves J (touch_project_used X project :: ('z server_ext, unit) op)"
  shows "preserves J (ingest_envelope X rnd cfg project hs uri_query body :: ('z server_ext, response) op)"
  unfolding ingest_envelope_def ingest_accept_def project_by_token_def
  by (intro preserves_bnd preserves_server_ops preserves_basic preserves_try_op preserves_best_effort
      preserves_if preserves_case_option preserves_case_sum preserves_case_outcome assms)

lemmas auth_handlers = handle_setup_status_def handle_setup_def handle_login_def handle_logout_def
  handle_me_def

lemmas all_handlers = auth_handlers read_handlers admin_handlers patch_checks_def patch_apply_def Let_def

lemma ingest_keeps_schema: "preserves schema_ok (ingest_envelope X rnd cfg project hs uri_query body)"
  by (rule preserves_ingest) (rule schema_intros)

lemma preserves_case_error [pres_intros]:
  "(\<And>x. preserves J (f1 x)) \<Longrightarrow> preserves J f2 \<Longrightarrow> (\<And>x. preserves J (f3 x)) \<Longrightarrow> preserves J f4 \<Longrightarrow>
   preserves J f5 \<Longrightarrow> (\<And>x. preserves J (f6 x)) \<Longrightarrow> (\<And>x. preserves J (f7 x)) \<Longrightarrow>
   preserves J (case_daemon_error f1 f2 f3 f4 f5 f6 f7 e)"
  by (cases e) simp_all

lemma dispatch_keeps_schema: "preserves schema_ok (dispatch E req)"
  by ((cases req; simp only: dispatch_def Let_def request.case), unfold all_handlers)
     (intro pres_intros schema_intros ingest_keeps_schema)+

lemma serve_keeps_schema: "preserves schema_ok (serve E req)"
  unfolding serve_def by (rule preserves_respond [OF dispatch_keeps_schema])

text \<open>There is an active administrator once there are users.\<close>

abbreviation admin_left :: "db \<Rightarrow> bool" where
  "admin_left d \<equiv> users d = [] \<or> list_ex active_admin (users d)"

lemma admin_left_update_user:
  assumes "\<And>u. active_admin u \<Longrightarrow> active_admin (f u)"
  shows "preserves admin_left (exec (update_user name f))"
proof (rule preserves_exec)
  fix d
  assume "admin_left d"
  then show "admin_left (snd (update_user name f d))"
    using list_ex_update_where [of "\<lambda>u. us_username u = name" active_admin f "users d"] assms
    by (auto simp: update_user_def)
qed

lemma admin_left_login [pres_intros]:
  "preserves admin_left (touch_user_login X user ip)"
  unfolding touch_user_login_def Let_def
  by (intro pres_intros admin_left_update_user) (simp add: active_admin_def)

lemma admin_left_first [pres_intros]:
  "preserves admin_left (create_user X user hash Admin)"
  unfolding create_user_def Let_def
  by (intro pres_intros preserves_stmt)
     (auto simp: insert_user_Inr active_admin_def role_as_str_def)

lemma admin_left_others:
  assumes "\<And>hs salt b. req \<noteq> CreateUser hs salt b" and "\<And>hs salt u b. req \<noteq> PatchUser hs salt u b"
    and "\<And>hs u. req \<noteq> DeleteUser hs u"
  shows "preserves admin_left (dispatch E req :: ('z daemon_ext server_ext, response) op)"
  using assms
  by ((cases req; simp only: dispatch_def Let_def request.case), unfold all_handlers)
     (intro pres_intros preserves_ingest user_or_none.keeps_project_ops | simp)+

lemma create_keeps_admin:
  "preserves admin_remains (admin_create_user X hs salt body :: ('z daemon_ext server_ext, response) op)"
proof (rule preserves_wp)
  fix w :: "'z daemon_scheme"
  assume J: "admin_remains (w_db w)"
  show "wp (admin_create_user X hs salt body) (\<lambda>_ w'. admin_remains (w_db w')) w"
  proof (cases "users (w_db w) = []")
    case True
    then have "\<not> admin_caller (w_db w) hs"
      by (auto simp: admin_caller_def caller_def select_session_with_user_def select_user_def
          split: option.splits bind_splits)
    then show ?thesis
      unfolding admin_create_user_def
      by (intro wp_mono [OF check_gate.stranger_refused])
         (use J in \<open>auto simp: kept_def intro: slid_admin_remains\<close>)
  next
    case False
    have "preserves (\<lambda>d. list_ex active_admin (users d)) (admin_create_user X hs salt body)"
      unfolding admin_create_user_def create_user_def Let_def
      by (intro pres_intros preserves_stmt) (auto simp: insert_user_Inr)
    moreover have "preserves schema_ok (admin_create_user X hs salt body)"
      unfolding admin_create_user_def Let_def by (intro pres_intros schema_intros)
    ultimately show ?thesis
      using J False admin_remains_via [of _ active_admin w] by (simp add: admin_remains_def)
  qed
qed

lemma dispatch_keeps_admin:
  fixes E :: api_env and req :: request
  defines "m \<equiv> dispatch E req :: ('z daemon_ext server_ext, response) op"
  shows "preserves admin_remains m"
proof -
  consider hs salt b where "req = CreateUser hs salt b" | hs salt u b where "req = PatchUser hs salt u b"
    | hs u where "req = DeleteUser hs u"
    | "preserves admin_left m"
    using admin_left_others [of req E, where 'z = 'z] unfolding m_def by blast
  then show ?thesis
  proof cases
    case 4
    then show ?thesis
      unfolding admin_remains_def m_def
      by (rule preserves_conj [OF dispatch_keeps_schema])
  qed (simp_all add: m_def dispatch_def create_keeps_admin patch_keeps_admin delete_keeps_admin)
qed

lemma serve_keeps_admin: "preserves admin_remains (serve E req)"
  unfolding serve_def by (rule preserves_respond [OF dispatch_keeps_admin])

text \<open>Every stored webhook address has passed the gate.\<close>

definition hook_ok :: "externs \<Rightarrow> project_row \<Rightarrow> bool" where
  "hook_ok X p \<longleftrightarrow> (case pr_webhook_url p of Some u \<Rightarrow> validate_url X u = Inr () | None \<Rightarrow> True)"

abbreviation hooks_ok :: "externs \<Rightarrow> db \<Rightarrow> bool" where
  "hooks_ok X d \<equiv> list_all (hook_ok X) (projects d)"

lemma hooks_update_project:
  assumes "\<And>p. hook_ok X p \<Longrightarrow> hook_ok X (f p)"
  shows "preserves (hooks_ok X) (exec (update_project name f))"
  by (rule preserves_exec) (auto simp: update_project_def update_where_def list_all_iff assms)

lemma hooks_columns [pres_intros]:
  "preserves (hooks_ok X) (exec (update_project name (\<lambda>p. p\<lparr>pr_token := token\<rparr>)))"
  "preserves (hooks_ok X) (exec (update_project name (\<lambda>p. p\<lparr>pr_last_used_at := u\<rparr>)))"
  "preserves (hooks_ok X) (exec (update_project name
     (\<lambda>p. p\<lparr>pr_last_webhook_status := st, pr_last_webhook_at := t\<rparr>)))"
  by (rule hooks_update_project, simp add: hook_ok_def)+

lemma hooks_rows [pres_intros]:
  "preserves (hooks_ok X) (exec (delete_project_row name))"
  "preserves (hooks_ok X) (stmt (rename_project_row old new))"
  by (auto intro!: preserves_exec preserves_stmt
      simp: hook_ok_def delete_project_row_def delete_where_def rename_project_row_def update_where_def
        list_all_iff split: if_splits)

lemma hooks_webhook_column:
  assumes "url = None \<or> (\<exists>u. url = Some u \<and> validate_url X u = Inr ())"
  shows "preserves (hooks_ok X) (set_project_webhook name url)"
  unfolding set_project_webhook_def
  by (intro pres_intros hooks_update_project) (use assms in \<open>auto simp: hook_ok_def\<close>)

lemma hooks_operations [pres_intros]:
  "preserves (hooks_ok X) (create_project X' uuid name)"
  "preserves (hooks_ok X) (rotate_token X' uuid name)" "preserves (hooks_ok X) (touch_project_used X' name)"
  "preserves (hooks_ok X) (record_webhook_attempt X' name code)"
  "preserves (hooks_ok X) (delete_project X' name)" "preserves (hooks_ok X) (rename_project X' name new)"
  unfolding create_project_def rotate_token_def touch_project_used_def
    record_webhook_attempt_def delete_project_def rename_project_def rename_rows_def Let_def
  by (intro pres_intros preserves_stmt [of _ "insert_project _"];
      auto simp: insert_project_def hook_ok_def split: if_splits)+

lemma dispatch_keeps_hooks: "preserves (hooks_ok (en_externs E)) (dispatch E req)"
  by ((cases req; simp only: dispatch_def Let_def request.case), unfold all_handlers)
     (intro pres_intros preserves_ingest hooks_webhook_column | auto split: option.splits)+

lemma serve_keeps_hooks: "preserves (hooks_ok (en_externs E)) (serve E req)"
  unfolding serve_def by (rule preserves_respond [OF dispatch_keeps_hooks])

section \<open>Properties\<close>

lemma serve_refused:
  assumes "wp (dispatch E req) (\<lambda>r w'. kept w w' \<and> (\<exists>resp. r = Ok resp \<and> refusal resp)) w"
  shows "\<exists>resp w'. serve E req w = (Ok resp, w') \<and> refusal resp \<and> kept w w'"
proof -
  have "wp (serve E req) (\<lambda>r w'. kept w w' \<and> (\<exists>resp. r = Ok resp \<and> refusal resp)) w"
    unfolding serve_def by (rule wp_respond, rule wp_mono [OF assms]) auto
  then show ?thesis by (auto simp: wp_def split: prod.splits)
qed

text \<open>A daemon that has just started, over the demonstration installation.\<close>

definition demo_env :: api_env where
  "demo_env = \<lparr>en_externs = demo_externs, en_config = demo_config, en_round = (\<lambda>x. x),
     en_page_bytes = (\<lambda>_. 4096), en_julian_age = (\<lambda>_ _. None), en_assets = (\<lambda>_. None)\<rparr>"

definition start_daemon :: "config \<Rightarrow> world \<Rightarrow> daemon" where
  "start_daemon c w =
     \<lparr>w_db = w_db w, w_faults = w_faults w, w_now = w_now w, sv_queue = [], sv_queue_open = True,
      sv_fanout = [], sv_limiter = boot_limiter (\<lambda>x. x) c,
      sv_counters = \<lparr>mt_events_accepted = 0, mt_events_rejected_rate_limit = 0, mt_ws_lagged_total = 0\<rparr>,
      sv_instant = 0, dm_triggers = [], dm_webhook_capacity = WEBHOOK_CHANNEL_CAPACITY\<rparr>"

lemma start_daemon_db [simp]: "w_db (start_daemon c w) = w_db w"
  by (simp add: start_daemon_def)

text \<open>C5: only administrators administer. Whatever such a request asks for, when its cookie is not an
  administrator's the answer is 401, 403 or, when the session could not be looked up, 500, without a
  cookie; queue, fan-out, counters, limiter and webhook channel are untouched, and the database is as
  it was but for the time a session was last seen.\<close>

theorem only_admins_administer:
  assumes "admin_request req = Some hs" and "\<not> admin_caller (w_db w) hs"
  shows "\<exists>resp w'. serve E req w = (Ok resp, w') \<and> refusal resp \<and> kept w w'"
  by (rule serve_refused [OF stranger_dispatch [OF assms]])

theorem only_admins_administer_witness:
  "\<exists>resp w'. serve demo_env (DeleteProject [(''cookie'', ''errex_session=s-bob'')] ''web'')
      (start_daemon default_config demo_db_world) = (Ok resp, w') \<and>
     refusal resp \<and> kept (start_daemon default_config demo_db_world) w'"
  by (rule only_admins_administer [OF admin_request.simps(8)])
     (simp add: admin_caller_def demo_callers demo_db_world_def demo_user_def)

text \<open>C26: nobody reads without an account. Listing projects or issues, fetching an event, asking for one's
  account and opening the WebSocket are refused to a request whose cookie is no account's, with 401
  or, when the session could not be looked up, 500, and change nothing.\<close>

theorem strangers_read_nothing:
  assumes "user_request req = Some hs" and "caller (w_db w) hs = None"
  shows "\<exists>resp w'. serve E req w = (Ok resp, w') \<and> refusal resp \<and> kept w w'"
  by (rule serve_refused [OF signed_out_dispatch [OF assms]])

theorem strangers_read_nothing_witness:
  "\<exists>resp w'. serve demo_env (ListIssues [] (Some ''web'')) (start_daemon default_config demo_db_world) =
       (Ok resp, w') \<and>
     refusal resp \<and> kept (start_daemon default_config demo_db_world) w'"
  by (rule strangers_read_nothing [OF user_request.simps(3)])
     (simp add: demo_callers demo_db_world_def)

end
