(* ===== verification/Retention.thy ===== *)
theory Retention
  imports Api
begin

text \<open>
  The retention task, \<open>crates/errexd/src/retention.rs\<close>: one tick reads the settings and runs the five
  purges, each of which may fail without stopping the others. The subtraction that computes the
  cutoff for the age of events is chrono's, and panics when the result is no date it can represent.
\<close>

section \<open>The tick\<close>

definition effective_days :: "retention_settings \<Rightarrow> u32 \<Rightarrow> int" where
  "effective_days s boot_days =
     (if rs_event_retention_days s > 0 then rs_event_retention_days s else uint boot_days)"

definition age_purge :: "externs \<Rightarrow> int \<Rightarrow> ('z, unit) op" where
  "age_purge X days =
     bnd utc_now (\<lambda>now.
     case x_minus X now days of
       None \<Rightarrow> panic
     | Some event_cutoff \<Rightarrow> best_effort (purge_events_older_than X event_cutoff))"

definition run_one_tick :: "externs \<Rightarrow> u32 \<Rightarrow> ('z, unit) op" where
  "run_one_tick X boot_days =
     bnd (try_op get_retention_settings) (\<lambda>res.
     case res of
       Inl e \<Rightarrow> ret ()
     | Inr settings \<Rightarrow>
       let days = effective_days settings boot_days in
       bnd (if days > 0 then age_purge X days else ret ()) (\<lambda>_.
       bnd (if rs_events_per_issue_max settings > 0
            then best_effort (purge_excess_events_per_issue (rs_events_per_issue_max settings))
            else ret ()) (\<lambda>_.
       bnd (if rs_issues_per_project_max settings > 0
            then best_effort (purge_excess_issues_per_project (rs_issues_per_project_max settings))
            else ret ()) (\<lambda>_.
       bnd utc_now (\<lambda>now.
       bnd (best_effort (prune_auth_attempts_older_than X (now - dur_hours 24))) (\<lambda>_.
       bnd utc_now (\<lambda>now.
       best_effort (purge_sessions_idle_since X (now - dur_days 30)))))))))"

text \<open>
  The task. Between two ticks of the hourly timer the rest of the daemon runs, here any operation on the
  same world; no failing statement ends the loop, only a panic does.
\<close>

fun retention_run :: "externs \<Rightarrow> u32 \<Rightarrow> ('z, unit) op list \<Rightarrow> ('z, unit) op" where
  "retention_run X boot_days [] = ret ()"
| "retention_run X boot_days (meanwhile # rest) =
     bnd meanwhile (\<lambda>_. bnd (run_one_tick X boot_days) (\<lambda>_. retention_run X boot_days rest))"

definition never_fails :: "('z, 'a) op \<Rightarrow> bool" where
  "never_fails m \<longleftrightarrow> (\<forall>w e. fst (m w) \<noteq> Err e)"

lemma never_fails_intros:
  "never_fails (ret x)" "never_fails utc_now" "never_fails panic" "never_fails (try_op m)"
  "never_fails (best_effort m)"
  "never_fails m \<Longrightarrow> (\<And>x. never_fails (f x)) \<Longrightarrow> never_fails (bnd m f)"
proof -
  show "never_fails (bnd m f)" if "never_fails m" "\<And>x. never_fails (f x)"
    unfolding never_fails_def
  proof (intro allI)
    fix w e
    from that show "fst (bnd m f w) \<noteq> Err e"
      unfolding never_fails_def bnd_def by (cases "m w"; cases "fst (m w)") (auto dest: spec [of _ w])
  qed
qed (auto simp: never_fails_def ret_def utc_now_def panic_def best_effort_def try_op_def bnd_def
      split: prod.splits outcome.splits)

lemma never_fails_tick: "never_fails (run_one_tick X boot_days)"
  unfolding run_one_tick_def age_purge_def Let_def
  by (auto intro!: never_fails_intros split: sum.split option.split)

lemma retention_outlives_failures:
  "list_all never_fails meanwhiles \<Longrightarrow> never_fails (retention_run X boot_days meanwhiles)"
  by (induction meanwhiles) (auto intro!: never_fails_intros never_fails_tick)

section \<open>What a tick achieves\<close>

definition within_bound :: "int \<Rightarrow> nat \<Rightarrow> bool" where
  "within_bound n k \<longleftrightarrow> (if n > 0 then int k \<le> n else True)"

lemma count_where_deleted: "count_where P (delete_where Q rs) \<le> count_where P rs"
  by (induction rs) (auto simp: count_where_def delete_where_def)

lemma purged_events_bounded:
  assumes "schema_ok d" and "0 < n"
  shows "within_bound n (count_where (\<lambda>e. er_issue_id e = i)
    (events (snd (delete_events (excess_event n) d))))"
proof -
  have ids: "distinct (events d)" "distinct (map er_id (events d))"
    using assms(1) by (auto simp: schema_ok_def events_ok_def distinct_map)
  have "excess_event n d = (\<lambda>e. nat n < row_number er_issue_id event_before (events d) e)"
    using assms(2) by (auto simp: excess_event_def fun_eq_iff)
  then show ?thesis
    using assms(2) kept_rows [OF ids(1) inj_on_with_key [OF ids(2)] event_before_key,
        of er_issue_id i "nat n"]
    by (simp add: within_bound_def delete_events_def)
qed

lemma purged_issues_bounded:
  assumes "schema_ok d" and "0 < n"
  shows "within_bound n (count_where (\<lambda>r. ir_project r = p)
    (issues (snd (delete_issues (excess_issue n d) d))))"
proof -
  have ids: "distinct (issues d)" "distinct (map ir_id (issues d))"
    using assms(1) by (auto simp: schema_ok_def issues_ok_def distinct_map)
  have "excess_issue n d = (\<lambda>r. nat n < row_number ir_project issue_before (issues d) r)"
    using assms(2) by (auto simp: excess_issue_def fun_eq_iff)
  then show ?thesis
    using assms(2) kept_rows [OF ids(1) inj_on_with_key [OF ids(2)] issue_before_key,
        of ir_project p "nat n"]
    by (simp add: within_bound_def delete_issues_def)
qed

lemma age_purge_schema:
  "schema_ok d \<Longrightarrow> schema_ok (snd (delete_events P d))"
  by (simp add: delete_events_def schema_ok_delete_events)

text \<open>The bounds a tick leaves behind, given the settings it read and the time.\<close>

definition tidy :: "externs \<Rightarrow> retention_settings \<Rightarrow> time \<Rightarrow> db \<Rightarrow> bool" where
  "tidy X s now d \<longleftrightarrow>
     (\<forall>i. within_bound (rs_events_per_issue_max s) (count_where (\<lambda>e. er_issue_id e = i) (events d))) \<and>
     (\<forall>p. within_bound (rs_issues_per_project_max s) (count_where (\<lambda>r. ir_project r = p) (issues d))) \<and>
     list_all (\<lambda>a. x_rfc3339 X (now - dur_hours 24) \<le> at_ts a) (attempts d) \<and>
     list_all (\<lambda>s. x_rfc3339 X (now - dur_days 30) \<le> se_last_seen_at s) (sessions d)"

definition trim_events :: "retention_settings \<Rightarrow> db \<Rightarrow> db" where
  "trim_events s d =
     (if rs_events_per_issue_max s > 0
      then snd (delete_events (excess_event (rs_events_per_issue_max s)) d) else d)"

definition trim_issues :: "retention_settings \<Rightarrow> db \<Rightarrow> db" where
  "trim_issues s d =
     (if rs_issues_per_project_max s > 0
      then snd (delete_issues (excess_issue (rs_issues_per_project_max s) d) d) else d)"

definition drop_stale :: "externs \<Rightarrow> time \<Rightarrow> db \<Rightarrow> db" where
  "drop_stale X now d =
     d\<lparr>attempts := delete_where (\<lambda>a. at_ts a < x_rfc3339 X (now - dur_hours 24)) (attempts d),
       sessions := delete_where (\<lambda>s. se_last_seen_at s < x_rfc3339 X (now - dur_days 30)) (sessions d)\<rparr>"

definition settings_of :: "db \<Rightarrow> retention_settings" where
  "settings_of d = (case retention d of Some s \<Rightarrow> s | None \<Rightarrow> unlimited)"

lemma tidy_after_trimming:
  assumes "schema_ok d"
  shows "tidy X s now (drop_stale X now (trim_issues s (trim_events s d)))"
proof -
  let ?d1 = "trim_events s d" and ?d2 = "trim_issues s (trim_events s d)"
  have 1: "within_bound (rs_events_per_issue_max s) (count_where (\<lambda>e. er_issue_id e = i) (events ?d1))" for i
    using purged_events_bounded [OF assms] by (auto simp: trim_events_def within_bound_def)
  have ok: "schema_ok ?d1"
    using assms by (simp add: trim_events_def age_purge_schema)
  have 2: "within_bound (rs_issues_per_project_max s) (count_where (\<lambda>r. ir_project r = p) (issues ?d2))" for p
    using purged_issues_bounded [OF ok] by (auto simp: trim_issues_def within_bound_def)
  have "count_where (\<lambda>e. er_issue_id e = i) (events ?d2) \<le> count_where (\<lambda>e. er_issue_id e = i) (events ?d1)"
    for i by (simp add: trim_issues_def delete_issues_def count_where_deleted)
  with 1 have 3: "within_bound (rs_events_per_issue_max s)
      (count_where (\<lambda>e. er_issue_id e = i) (events ?d2))" for i
    unfolding within_bound_def by (meson of_nat_mono order_trans)
  from 2 3 show ?thesis
    by (simp add: tidy_def drop_stale_def list_all_iff not_less)
qed

text \<open>The purge by age; \<open>None\<close> is the panic of the date arithmetic.\<close>

definition aged :: "externs \<Rightarrow> u32 \<Rightarrow> time \<Rightarrow> db \<Rightarrow> db option" where
  "aged X boot_days now d =
     (let days = effective_days (settings_of d) boot_days in
      if days > 0
      then map_option (\<lambda>cutoff. snd (delete_events (\<lambda>d e. er_received_at e < x_rfc3339 X cutoff) d))
             (x_minus X now days)
      else Some d)"

lemma run_one_tick_quiet:
  assumes "quiet w"
  shows "run_one_tick X boot_days w =
    (case aged X boot_days (w_now w) (w_db w) of
       None \<Rightarrow> (Panic, w)
     | Some d \<Rightarrow> (Ok (), w\<lparr>w_db := drop_stale X (w_now w)
         (trim_issues (settings_of (w_db w)) (trim_events (settings_of (w_db w)) d))\<rparr>))"
  using assms
  by (simp add: run_one_tick_def age_purge_def get_retention_settings_def Let_def op_simps
      best_effort_def try_op_def bnd_def query_quiet exec_quiet purge_events_older_than_def
      purge_excess_events_per_issue_def purge_excess_issues_per_project_def
      prune_auth_attempts_older_than_def purge_sessions_idle_since_def aged_def settings_of_def
      trim_events_def trim_issues_def drop_stale_def delete_attempts_before_def delete_sessions_def
      split: option.split)

section \<open>Properties\<close>

lemma schema_after_tick:
  "schema_ok d \<Longrightarrow> schema_ok (drop_stale X now (trim_issues s (trim_events s d)))"
proof -
  have stale: "schema_ok d \<Longrightarrow> schema_ok (drop_stale X now d)" for d
    by (auto simp: drop_stale_def schema_defs distinct_delete_where)
  show "schema_ok d \<Longrightarrow> schema_ok (drop_stale X now (trim_issues s (trim_events s d)))"
    by (rule stale) (simp add: trim_events_def trim_issues_def age_purge_schema schema_ok_delete_issues)
qed



text \<open>C37: a retention setting can kill the daemon. The settings endpoint accepts any number of days from
  an administrator; with a hundred million or more, the next tick panics in its date arithmetic,
  and so does every later one as long as the setting stands.\<close>

theorem huge_retention_setting_panics:
  assumes "chrono_bounded X" and "in_text_range (w_now w)" and "w_faults w = []"
    and "admin_caller (w_db w) hs"
    and "rs_events_per_issue_max s \<ge> 0" and "rs_issues_per_project_max s \<ge> 0"
    and "rs_event_retention_days s \<ge> 100000000"
  shows "\<exists>w'. admin_put_retention X hs (Some s) w = (Ok (reply 200 (PRetention s)), w') \<and>
    fst (run_one_tick X boot_days w') = Panic"
proof -
  have quiet: "quiet w" using assms(3) by (simp add: quiet_def)
  obtain d where run: "admin_put_retention X hs (Some s) w =
      (if rs_events_per_issue_max s < 0 \<or> rs_issues_per_project_max s < 0 \<or> rs_event_retention_days s < 0
       then ret (plain 400 ''values must be >= 0'')
       else bnd (set_retention_settings s) (\<lambda>_. ret (reply 200 (PRetention s)))) (w\<lparr>w_db := d\<rparr>)"
    unfolding admin_put_retention_def by (rule guarded_admin_quiet [OF quiet assms(4)]) auto
  let ?w = "w\<lparr>w_db := d\<lparr>retention := Some s\<rparr>\<rparr>"
  have "admin_put_retention X hs (Some s) w = (Ok (reply 200 (PRetention s)), ?w)"
    unfolding run using assms quiet by (simp add: set_retention_settings_def op_simps)
  moreover have "x_minus X (w_now w) (rs_event_retention_days s) = None"
    using assms(1,2,7) by (simp add: chrono_bounded_def)
  then have "aged X boot_days (w_now ?w) (w_db ?w) = None"
    using assms(7) by (simp add: aged_def settings_of_def effective_days_def)
  then have "fst (run_one_tick X boot_days ?w) = Panic"
    using quiet by (simp add: run_one_tick_quiet)
  ultimately show ?thesis by blast
qed

theorem huge_retention_setting_panics_witness:
  "\<exists>w'. admin_put_retention demo_externs [(''cookie'', ''errex_session=s-ann'')]
       (Some \<lparr>rs_events_per_issue_max = 0, rs_issues_per_project_max = 0,
          rs_event_retention_days = 9223372036854775807\<rparr>) demo_db_world =
     (Ok (reply 200 (PRetention \<lparr>rs_events_per_issue_max = 0, rs_issues_per_project_max = 0,
          rs_event_retention_days = 9223372036854775807\<rparr>)), w') \<and>
     fst (run_one_tick demo_externs 30 w') = Panic"
  by (rule huge_retention_setting_panics [OF demo_chrono_bounded])
     (use demo_admin in \<open>simp_all add: in_text_range_def demo_db_world_def demo_world_def\<close>)

end
