(* ===== verification/System.thy ===== *)
theory System
  imports Router Retention
begin

text \<open>
  The daemon as a whole: the tasks that \<open>main\<close> of \<open>crates/errexd/src/main.rs\<close> spawns, as a labelled step
  relation on the shared state. A step is one request served, one turn of the digest loop, one
  trigger delivered, one retention tick, one project command run beside the daemon, or the world
  moving on: clocks, and which database statements fail. Each is atomic, as the tasks run on one thread
  and the state lives in the database; what requests that overlap inside their handlers can do is shown
  in \<open>Races\<close>.
\<close>

section \<open>Steps\<close>

record sys =
  sy_env :: api_env
  sy_retention_days :: u32
  sy_post :: http_client

abbreviation sy_externs :: "sys \<Rightarrow> externs" where
  "sy_externs S \<equiv> en_externs (sy_env S)"

datatype action =
    Serve request
  | DigestTurn
  | Deliver "delivery list"
  | RetentionTick
  | Command bytes project_cmd
  | Elapse time time "bool list"

inductive step :: "sys \<Rightarrow> daemon \<Rightarrow> action \<Rightarrow> daemon \<Rightarrow> bool" for S where
  serve: "step S w (Serve req) (snd (serve (sy_env S) req w))"
| digest: "step S w DigestTurn (snd (digest_turn (sy_externs S) w))"
| deliver: "dm_triggers w = t # ts \<Longrightarrow>
    step S w (Deliver sent) (snd (deliver (sy_externs S) (sy_post S) (cf_public_url (en_config (sy_env S))) sent t
      (w\<lparr>dm_triggers := ts\<rparr>)))"
| retention: "step S w RetentionTick (snd (run_one_tick (sy_externs S) (sy_retention_days S) w))"
| cmd: "step S w (Command uuid c) (snd (run_project_cmd (sy_externs S) uuid c w))"
| elapse: "step S w (Elapse now instant faults)
    (w\<lparr>w_now := now, sv_instant := instant, w_faults := faults\<rparr>)"

inductive run :: "sys \<Rightarrow> daemon \<Rightarrow> action list \<Rightarrow> daemon \<Rightarrow> bool" for S where
  start: "run S w [] w"
| more: "run S w as w1 \<Longrightarrow> step S w1 a w2 \<Longrightarrow> run S w (as @ [a]) w2"

inductive_cases step_deliverE: "step S w (Deliver sent) w'"

section \<open>Invariants\<close>

text \<open>What an invariant of the database has to provide, and what follows for runs.\<close>

locale run_invariant =
  fixes J :: "sys \<Rightarrow> db \<Rightarrow> bool" and fine :: "action \<Rightarrow> bool"
  assumes kept_by_step: "step S w a w' \<Longrightarrow> fine a \<Longrightarrow> J S (w_db w) \<Longrightarrow> J S (w_db w')"
begin

lemma run_keeps: "run S w as w' \<Longrightarrow> list_all fine as \<Longrightarrow> J S (w_db w) \<Longrightarrow> J S (w_db w')"
  by (induction rule: run.induct) (auto intro: kept_by_step)

end

type_synonym 'a task = "(unit daemon_ext server_ext, 'a) op"

text \<open>The digest keeps what storing a batch keeps.\<close>

lemma preserves_digest_turn:
  assumes "\<And>batch. preserves J (upsert_batch_with_events X batch :: upsert_result list task)"
  shows "preserves J (digest_turn X :: bool option task)"
proof (rule preserves_wp)
  fix w :: daemon
  assume J: "J (w_db w)"
  have 1: "preserves J (announce r :: unit task)" for r
    unfolding announce_def try_send_trigger_def
    by (auto simp: preserves_def bnd_def broadcast_def ret_def split: option.split)
  have 2: "preserves J (bnd (process_batch X buf) (\<lambda>_. ret (Some True)) :: bool option task)" for buf
    unfolding process_batch_def by (intro pres_intros assms 1)
  show "wp (digest_turn X) (\<lambda>_ w'. J (w_db w')) w"
    using J preservesD [OF 2, where w = "w\<lparr>sv_queue := q\<rparr>" for q]
    by (auto simp: wp_def digest_turn_def fill_eq case_prod_beta split: list.split)
qed

lemma preserves_tick:
  assumes "\<And>t. preserves J (purge_events_older_than X t :: nat task)"
    and "\<And>n. preserves J (purge_excess_events_per_issue n :: nat task)"
    and "\<And>n. preserves J (purge_excess_issues_per_project n :: nat task)"
    and "\<And>t. preserves J (prune_auth_attempts_older_than X t :: nat task)"
    and "\<And>t. preserves J (purge_sessions_idle_since X t :: nat task)"
  shows "preserves J (run_one_tick X days :: unit task)"
  unfolding run_one_tick_def age_purge_def get_retention_settings_def Let_def
  by (intro pres_intros assms)

lemma preserves_command:
  assumes "\<And>name. preserves J (create_project X uuid name :: project task)"
    and "\<And>name. preserves J (rotate_token X uuid name :: project task)"
    and "\<And>name url. c = SetWebhookCmd name url \<Longrightarrow>
      preserves J (set_project_webhook name (Some url) :: unit task)"
    and "\<And>name. preserves J (set_project_webhook name None :: unit task)"
  shows "preserves J (run_project_cmd X uuid c :: string list task)"
  unfolding run_project_cmd_def list_admin_projects_def
  by (cases c; simp only: project_cmd.case) (intro pres_intros assms; simp?)+

lemma preserves_deliver:
  assumes "\<And>name code. preserves J (record_webhook_attempt X name code :: unit task)"
  shows "preserves J (deliver X post url sent t :: delivery option task)"
  unfolding deliver_def project_by_name_def Let_def by (intro pres_intros assms)

text \<open>The parts together: what every operation keeps, every step keeps.\<close>

lemma step_keeps:
  assumes "step S w a w'" and "J (w_db w)"
    and "\<And>req. preserves J (serve (sy_env S) req :: response task)"
    and "preserves J (run_one_tick (sy_externs S) (sy_retention_days S) :: unit task)"
    and "preserves J (digest_turn (sy_externs S) :: bool option task)"
    and "\<And>url sent t. preserves J (deliver (sy_externs S) (sy_post S) url sent t :: delivery option task)"
    and "\<And>uuid c. a = Command uuid c \<Longrightarrow> preserves J (run_project_cmd (sy_externs S) uuid c :: string list task)"
  shows "J (w_db w')"
  using assms(1)
proof cases
  case (deliver t ts sent)
  then show ?thesis
    using preservesD [OF assms(6), where w = "w\<lparr>dm_triggers := ts\<rparr>"] assms(2) by simp
qed (use assms(2-5,7) in \<open>auto intro: preservesD\<close>)

section \<open>The three invariants\<close>

lemma system_keeps_schema: "step S w a w' \<Longrightarrow> schema_ok (w_db w) \<Longrightarrow> schema_ok (w_db w')"
  by (rule step_keeps)
     (assumption | intro serve_keeps_schema preserves_tick preserves_digest_turn preserves_deliver
        preserves_command schema_intros)+

interpretation schema_run: run_invariant "\<lambda>S. schema_ok" "\<lambda>a. True"
  by unfold_locales (rule system_keeps_schema)

lemma admin_left_task:
  "preserves admin_left (run_one_tick X days :: unit task)"
  "preserves admin_left (digest_turn X :: bool option task)"
  "preserves admin_left (deliver X post url sent t :: delivery option task)"
  "preserves admin_left (run_project_cmd X uuid c :: string list task)"
  by (intro preserves_tick preserves_digest_turn preserves_deliver preserves_command pres_intros)+

lemma system_keeps_admin:
  assumes "step S w a w'" and "admin_remains (w_db w)"
  shows "admin_remains (w_db w')"
proof -
  have keep: "preserves schema_ok m \<Longrightarrow> preserves admin_left m \<Longrightarrow> preserves admin_remains m" for m :: "'a task"
    using preserves_conj unfolding admin_remains_def by blast
  show ?thesis
    by (rule step_keeps [OF assms serve_keeps_admin]; rule keep [OF _ admin_left_task(1)]
          keep [OF _ admin_left_task(2)] keep [OF _ admin_left_task(3)] keep [OF _ admin_left_task(4)])
       (intro preserves_tick preserves_digest_turn preserves_deliver preserves_command schema_intros)+
qed

interpretation admin_run: run_invariant "\<lambda>S. admin_remains" "\<lambda>a. True"
  by unfold_locales (rule system_keeps_admin)

text \<open>The command line may store a webhook address unchecked; everything else goes through the gate.\<close>

definition sets_webhook :: "action \<Rightarrow> bool" where
  "sets_webhook a = (case a of Command uuid (SetWebhookCmd name url) \<Rightarrow> True | _ \<Rightarrow> False)"

lemma system_keeps_hooks:
  assumes "step S w a w'" and "\<not> sets_webhook a" and "hooks_ok (sy_externs S) (w_db w)"
  shows "hooks_ok (sy_externs S) (w_db w')"
proof (rule step_keeps [OF assms(1,3) serve_keeps_hooks])
  fix uuid c
  assume "a = Command uuid c"
  then have "c \<noteq> SetWebhookCmd name url" for name url
    using assms(2) by (auto simp: sets_webhook_def)
  then show "preserves (hooks_ok (sy_externs S)) (run_project_cmd (sy_externs S) uuid c :: string list task)"
    by (intro preserves_command pres_intros hooks_webhook_column) auto
qed (intro preserves_tick preserves_digest_turn preserves_deliver pres_intros)+

interpretation hooks_run: run_invariant "\<lambda>S. hooks_ok (sy_externs S)" "\<lambda>a. \<not> sets_webhook a"
  by unfold_locales (rule system_keeps_hooks)

section \<open>Properties\<close>

definition demo_sys :: sys where
  "demo_sys = \<lparr>sy_env = demo_env, sy_retention_days = 30, sy_post = (\<lambda>_ _ _. Some 200)\<rparr>"

lemma empty_db_start: "schema_ok empty_db" "admin_remains empty_db" "hooks_ok X empty_db"
  by (simp_all add: admin_remains_def schema_defs empty_db_def)



section \<open>From envelope to ledger\<close>

lemma process_batch_queue:
  assumes "process_batch X buf w = (r, w')"
  shows "sv_queue w' = sv_queue w" and "sv_queue_open w' = sv_queue_open w"
proof -
  have "sv_queue w' = sv_queue w \<and> sv_queue_open w' = sv_queue_open w"
  proof (cases "buf = []")
    case False
    obtain res w1 where up: "upsert_batch_with_events X (map input_of buf) w = (res, w1)" by force
    then have "sv_queue w1 = sv_queue w" "sv_queue_open w1 = sv_queue_open w"
      using framedD [OF framed_issue_ops(1) up] by (auto dest: same_server)
    with up False assms show ?thesis
      by (cases res) (auto simp: process_batch_def bnd_def try_op_def ret_def announce_all)
  qed (use assms in \<open>simp add: process_batch_def ret_def\<close>)
  then show "sv_queue w' = sv_queue w" and "sv_queue_open w' = sv_queue_open w" by simp_all
qed

lemma run_append: "run S w1 bs w2 \<Longrightarrow> run S w as w1 \<Longrightarrow> run S w (as @ bs) w2"
  by (induction rule: run.induct) (auto intro: run.more simp flip: append_assoc)

lemma run_one: "step S w a w' \<Longrightarrow> run S w [a] w'"
  using run.more [OF run.start, of S w a w'] by simp

lemma run_Cons: "step S w a w1 \<Longrightarrow> run S w1 as w2 \<Longrightarrow> run S w (a # as) w2"
  using run_append [of S w1 as w2 w "[a]"] run_one by force

lemma batch_recorded:
  assumes "quiet w" and "buf \<noteq> []"
  shows "\<exists>rs w'. process_batch X buf w = (Ok (), w') \<and> recorded X buf rs (w_db w) (w_db w') \<and> quiet w'"
  by (rule process_batch_cases [OF assms(2), of X w]) (use assms(1) in auto)

text \<open>Without faults, enough digest turns drain the queue and record everything in it.\<close>

lemma drain:
  fixes w :: daemon
  assumes "quiet w"
  shows "\<exists>n rs w'. run S w (replicate n DigestTurn) w' \<and> 16 * n < length (sv_queue w) + 16 \<and> sv_queue w' = [] \<and>
    recorded (sy_externs S) (sv_queue w) rs (w_db w) (w_db w')"
  using assms
proof (induction "length (sv_queue w)" arbitrary: w rule: less_induct)
  case less
  show ?case
  proof (cases "sv_queue w")
    case Nil
    then show ?thesis
      by (intro exI [of _ 0] exI [of _ "[]"] exI [of _ w]) (simp add: run.start)
  next
    case (Cons first rest)
    let ?buf = "first # take 15 rest" and ?q = "drop 15 rest"
    let ?w = "w\<lparr>sv_queue := ?q\<rparr>"
    have "quiet ?w" using less.prems by (simp add: quiet_def)
    from batch_recorded [OF this, where X = "sy_externs S" and buf = ?buf] obtain rs w1 where
      batch: "process_batch (sy_externs S) ?buf ?w = (Ok (), w1)"
      and rec: "recorded (sy_externs S) ?buf rs (w_db w) (w_db w1)" and "quiet w1" by auto
    have queue: "sv_queue w1 = ?q" using process_batch_queue [OF batch] by simp
    have "snd (digest_turn (sy_externs S) w) = w1"
      by (simp add: digest_turn_def Cons fill_eq BATCH_SIZE_def bnd_def ret_def batch)
    then have turn: "step S w DigestTurn w1" using step.digest [of S w] by simp
    have "length (sv_queue w1) < length (sv_queue w)" by (simp add: queue Cons)
    from less.hyps [OF this \<open>quiet w1\<close>] obtain n rs' w' where
      more: "run S w1 (replicate n DigestTurn) w'" "sv_queue w' = []"
      and n: "16 * n < length ?q + 16"
      and rec': "recorded (sy_externs S) ?q rs' (w_db w1) (w_db w')"
      by (auto simp: queue)
    have "run S w (replicate (Suc n) DigestTurn) w'"
      using run_Cons [OF turn more(1)] by simp
    moreover have "recorded (sy_externs S) (sv_queue w) (rs @ rs') (w_db w) (w_db w')"
      using recorded_append [OF rec rec'] by (simp add: Cons)
    moreover have "16 * Suc n < length (sv_queue w) + 16"
      using n by (simp add: Cons) arith
    ultimately show ?thesis using more(2) by blast
  qed
qed

lemma logged_one: "set (map fst (spec_log l i)) = insert (bi_event_id i) (set (map fst l))"
  by (auto simp: spec_log_def)

lemma logged: "set (map fst (foldl spec_log l batch)) = set (map fst l) \<union> bi_event_id ` set batch"
  by (induction batch arbitrary: l) (simp_all del: set_map add: logged_one)

lemma only_used_same:
  "only_used project d d' \<Longrightarrow> log_of d' = log_of d \<and> ledger_of d' = ledger_of d"
  by (auto simp: only_used_def log_of_def ledger_of_def select_issue_def)

lemma serve_envelope:
  assumes "serve E (Envelope hs project uri_query body) w = (Ok resp, w')" and "re_status resp = 200"
  shows "\<exists>raw es. maybe_gunzip (en_externs E) body = Some raw \<and>
    parse_envelope (en_externs E) raw = Ok es \<and> accepted (en_externs E) project es w w' \<and>
    authorised (en_config E) hs uri_query project (w_db w)"
proof -
  have "wp (serve E (Envelope hs project uri_query body)) (\<lambda>r w'. case r of
      Ok resp \<Rightarrow> re_status resp = 200 \<longrightarrow>
        (\<exists>raw es. maybe_gunzip (en_externs E) body = Some raw \<and>
           parse_envelope (en_externs E) raw = Ok es \<and> accepted (en_externs E) project es w w' \<and>
           authorised (en_config E) hs uri_query project (w_db w))
    | _ \<Rightarrow> True) w"
    unfolding serve_def dispatch_def Let_def request.case
    by (intro wp_respond wp_if wp_ret; (simp; fail)?; rule wp_mono [OF wp_ingest_result])
       (auto split: outcome.splits if_splits)
  with assms show ?thesis by (simp add: wp_def)
qed

text \<open>A demonstration: an event is posted to a daemon without a rate limit.\<close>

definition demo_daemon :: daemon where
  "demo_daemon = start_daemon (default_config\<lparr>co_rate_limit_per_min := 0\<rparr>) demo_db_world"

definition demo_body :: bytes where
  "demo_body = render_envelope ''{}'' [(''event'', ''{}'')]"

lemma demo_parse: "parse_envelope demo_externs demo_body = Ok [augment_tags_from_user_agent demo_event]"
  unfolding demo_body_def
  by (subst parse_envelope_render_aux)
     (simp_all add: demo_externs_def demo_json_def item_ok_def item_event_def item_type_def
        item_length_def json_get_def json_as_u64_def json_as_str_def render_envelope_def
        render_item_def map_filter_simps)

lemma augmented_id: "ev_event_id (augment_tags_from_user_agent e) = ev_event_id e"
  by (simp add: augment_tags_from_user_agent_def Let_def split: option.split)

lemma demo_key: "extract_sentry_key [] ''sentry_key=tok-web'' = Some ''tok-web''"
  by (simp add: extract_sentry_key_def header_str_def Let_def strip_prefix_def starts_with_def
      first_opt_def map_filter_simps)

lemma demo_posted:
  "\<exists>w1. serve demo_env (Envelope [] ''web'' ''sentry_key=tok-web'' demo_body) demo_daemon =
     (Ok (reply 200 PNone), w1)"
proof -
  have raw: "maybe_gunzip demo_externs demo_body = Some demo_body"
    by (simp add: maybe_gunzip_def is_gzip_def demo_body_def render_envelope_def)
  have open_limiter: "limiter_check rnd p demo_daemon = (Ok True, demo_daemon)" for rnd p
    by (simp add: limiter_check_def rate_check_def demo_daemon_def start_daemon_def boot_limiter_def
        new_limiter_def limiter_enabled_def)
  have found: "project_by_token demo_externs ''tok-web'' demo_daemon =
      (Ok (Some (project_of_row demo_externs start_time (demo_project ''web'' ''tok-web''))), demo_daemon)"
    by (simp add: project_by_token_def bnd_def query_quiet quiet_def op_basic demo_daemon_def start_daemon_def
        demo_defs)
  have touch: "bnd (touch_project_used X p) f w = f () (snd (touch_project_used X p w))" for X p f and w :: daemon
  proof -
    have "wp (touch_project_used X p) (\<lambda>r w'. r = Ok ()) w" by (rule wp_touch_project_used) simp
    then show ?thesis by (auto simp: wp_def bnd_def split: prod.splits)
  qed
  have small: "\<not> MAX_ENVELOPE_BODY < length demo_body"
    by (simp add: MAX_ENVELOPE_BODY_def demo_body_def render_envelope_def render_item_def)
  have name: "pr_name (demo_project ''web'' ''tok-web'') = ''web''"
    by (simp add: demo_project_def)
  have queue: "sv_queue_open demo_daemon"
    by (simp add: demo_daemon_def start_daemon_def)
  show ?thesis
    by (simp add: serve_def respond_def dispatch_def demo_env_def Let_def small ingest_envelope_def
        demo_config_def demo_key bnd_def [of "try_op m" for m] try_op_def found pj_name_of_row name)
       (simp add: ingest_accept_def bnd_def [of "limiter_check r p" for r p] open_limiter raw demo_parse
        bnd_def [of "send_events X p es" for X p es] send_events_eq queue touch ret_def
          del: send_events.simps)
qed

text \<open>C2: what is accepted is recorded. An envelope answered with 200 carried the project's token where one
  is required; and if the database works from then on, some number of digest turns, one per sixteen
  queued events, drains the queue, after which the ledger of groups and the event log are those of the
  time before the request, updated with the events queued then and with the envelope's, in that
  order: every event of the envelope is in the log.\<close>

theorem accepted_events_are_recorded:
  assumes "serve (sy_env S) (Envelope hs project uri_query body) w = (Ok resp, w1)"
    and "re_status resp = 200"
  shows "\<exists>raw es n w2. maybe_gunzip (sy_externs S) body = Some raw \<and>
    parse_envelope (sy_externs S) raw = Ok es \<and>
    authorised (en_config (sy_env S)) hs uri_query project (w_db w) \<and>
    run S w1 (Elapse now instant [] # replicate n DigestTurn) w2 \<and> sv_queue w2 = [] \<and>
    16 * n < length (sv_queue w) + length es + 16 \<and>
    (let batch = map input_of (sv_queue w @ map (prepare (sy_externs S) (w_now w) project) es) in
      ledger_of (w_db w2) = foldl (spec_upsert (sy_externs S)) (ledger_of (w_db w)) batch \<and>
      log_of (w_db w2) = foldl spec_log (log_of (w_db w)) batch) \<and>
    (\<forall>e. e \<in> set es \<longrightarrow> uuid_simple (ev_event_id e) \<in> set (map fst (log_of (w_db w2))))"
proof -
  from serve_envelope [OF assms] obtain raw es where
    parsed: "maybe_gunzip (sy_externs S) body = Some raw" "parse_envelope (sy_externs S) raw = Ok es"
    and acc: "accepted (sy_externs S) project es w w1"
    and auth: "authorised (en_config (sy_env S)) hs uri_query project (w_db w)" by blast
  let ?w = "w1\<lparr>w_now := now, sv_instant := instant, w_faults := []\<rparr>"
  let ?batch = "sv_queue w @ map (prepare (sy_externs S) (w_now w) project) es"
  have queue: "sv_queue ?w = ?batch" and same: "log_of (w_db ?w) = log_of (w_db w)" "ledger_of (w_db ?w) = ledger_of (w_db w)"
    using acc only_used_same by (auto simp: accepted_def)
  have "quiet ?w" by (simp add: quiet_def)
  from drain [OF this, of S] obtain n rs w2 where
    turns: "run S ?w (replicate n DigestTurn) w2" and n: "16 * n < length ?batch + 16" and "sv_queue w2 = []"
    and rec: "recorded (sy_externs S) ?batch rs (w_db ?w) (w_db w2)" unfolding queue by blast
  have ledger: "ledger_of (w_db w2) = foldl (spec_upsert (sy_externs S)) (ledger_of (w_db w)) (map input_of ?batch)"
    and log: "log_of (w_db w2) = foldl spec_log (log_of (w_db w)) (map input_of ?batch)"
    using rec by (simp_all only: recorded_def same)
  have "uuid_simple (ev_event_id e) \<in> set (map fst (log_of (w_db w2)))" if "e \<in> set es" for e
    unfolding log logged using that by (force simp: input_of_def prepare_def Let_def)
  moreover have "run S w1 (Elapse now instant [] # replicate n DigestTurn) w2"
    by (rule run_Cons [OF step.elapse turns])
  ultimately show ?thesis
    unfolding Let_def
    by (intro exI [of _ raw] exI [of _ es] exI [of _ n] exI [of _ w2] conjI)
       (use parsed auth \<open>sv_queue w2 = []\<close> ledger log n in simp_all)
qed

theorem accepted_events_are_recorded_witness:
  "\<exists>w1 n w2. run demo_sys w1 (Elapse 0 0 [] # replicate n DigestTurn) w2 \<and> n \<le> 1 \<and>
     uuid_simple (replicate 16 (CHR 0x07)) \<in> set (map fst (log_of (w_db w2)))"
proof -
  from demo_posted obtain w1 where
    "serve (sy_env demo_sys) (Envelope [] ''web'' ''sentry_key=tok-web'' demo_body) demo_daemon =
       (Ok (reply 200 PNone), w1)" by (auto simp: demo_sys_def)
  from accepted_events_are_recorded [OF this, of 0 0] obtain raw es n w2 where
    "maybe_gunzip demo_externs demo_body = Some raw" "parse_envelope demo_externs raw = Ok es"
    "run demo_sys w1 (Elapse 0 0 [] # replicate n DigestTurn) w2"
    "16 * n < length es + 16"
    "\<forall>e. e \<in> set es \<longrightarrow> uuid_simple (ev_event_id e) \<in> set (map fst (log_of (w_db w2)))"
    by (auto simp: demo_sys_def demo_env_def demo_daemon_def start_daemon_def)
  moreover have "maybe_gunzip demo_externs demo_body = Some demo_body"
    by (simp add: maybe_gunzip_def is_gzip_def demo_body_def render_envelope_def)
  moreover have "ev_event_id (augment_tags_from_user_agent demo_event) = replicate 16 (CHR 0x07)"
    by (simp add: augmented_id demo_event_def)
  ultimately show ?thesis
    using demo_parse by (intro exI [of _ w1] exI [of _ n] exI [of _ w2]) auto
qed

end
