(* ===== verification/Process.thy ===== *)
theory Process
  imports System
begin

text \<open>
  The process around the daemon: the command line and the life of one process from \<open>main\<close> in
  \<open>crates/errexd/src/main.rs\<close> (dispatch of the commands, boot, the \<open>select!\<close> over the tasks, exit status),
  the digest task as the loop it is, the request \<open>post_json\<close> of \<open>webhook.rs\<close> sends, the connection
  options of \<open>Store::open\<close>, and the layers \<open>build_router\<close> and \<open>serve\<close> of \<open>ingest.rs\<close> put around every
  response. An installation is what any number of such lives, one after the other, leave on disk.
\<close>

section \<open>The digest task\<close>

text \<open>
  The loop of \<open>digest::run\<close> on the state as it is: \<open>None\<close> when it does not return, because the queue is
  empty, a sender is left and nobody sends.
\<close>

partial_function (option) digest_task ::
  "externs \<Rightarrow> daemon \<Rightarrow> ((daemon_error, unit) outcome \<times> daemon) option" where
  "digest_task X w =
     (case digest_turn X w of
        (Ok (Some processed), w') \<Rightarrow> digest_task X w'
      | (Ok None, w') \<Rightarrow> Some (Ok (), w')
      | (Err e, w') \<Rightarrow> Some (Err e, w')
      | (Panic, w') \<Rightarrow> Some (Panic, w'))"

section \<open>Outgoing requests\<close>

text \<open>
  The client is a parameter: which bodies serialise, which requests can be built, and what becomes of a
  request, which may depend on what was sent before.
\<close>

record http_post =
  hp_method :: string
  hp_uri :: string
  hp_headers :: "(string \<times> string) list"
  hp_body :: bytes

datatype sent = Answered u16 | SendFailed string | TimedOut

record hyper_client =
  hc_to_vec :: "json \<Rightarrow> string + bytes"
  hc_build :: "http_post \<Rightarrow> string + http_post"
  hc_request :: "delivery list \<Rightarrow> http_post \<Rightarrow> sent"

definition USER_AGENT :: string where
  "USER_AGENT = ''errexd/0.1.0''"

definition post_json :: "hyper_client \<Rightarrow> delivery list \<Rightarrow> string \<Rightarrow> json \<Rightarrow> string + u16" where
  "post_json H before url body =
     (case hc_to_vec H body of
        Inl e \<Rightarrow> Inl (''serialize body: '' @ e)
      | Inr body_bytes \<Rightarrow>
          (case hc_build H \<lparr>hp_method = ''POST'', hp_uri = url,
              hp_headers = [(''content-type'', ''application/json''), (''user-agent'', USER_AGENT)],
              hp_body = body_bytes\<rparr> of
             Inl e \<Rightarrow> Inl (''build request: '' @ e)
           | Inr req \<Rightarrow>
               (case hc_request H before req of
                  Answered status \<Rightarrow> Inr status
                | SendFailed e \<Rightarrow> Inl (''send: '' @ e)
                | TimedOut \<Rightarrow> Inl ''timeout'')))"

text \<open>What \<open>deliver\<close> keeps of the result: the status, or nothing.\<close>

definition poster :: "hyper_client \<Rightarrow> http_client" where
  "poster H before url body =
     (case post_json H before url body of Inr status \<Rightarrow> Some status | Inl _ \<Rightarrow> None)"

section \<open>Around every response\<close>

definition SECURITY_CSP :: string where
  "SECURITY_CSP =
     (let self = [CHR 0x27] @ ''self'' @ [CHR 0x27]; unsafe_inline = [CHR 0x27] @ ''unsafe-inline'' @ [CHR 0x27];
          none = [CHR 0x27] @ ''none'' @ [CHR 0x27] in
      ''default-src '' @ self @ ''; '' @ ''script-src '' @ self @ '' '' @ unsafe_inline @ ''; ''
      @ ''style-src '' @ self @ '' '' @ unsafe_inline @ ''; '' @ ''connect-src '' @ self @ '' ws: wss:; ''
      @ ''img-src '' @ self @ '' data:; '' @ ''font-src '' @ self @ '' data:; ''
      @ ''frame-ancestors '' @ none @ ''; '' @ ''base-uri '' @ none @ ''; ''
      @ ''form-action '' @ self @ ''; '' @ ''object-src '' @ none)"

definition if_not_present :: "string \<times> string \<Rightarrow> headers \<Rightarrow> headers" where
  "if_not_present h hs = (if fst h \<in> fst ` set hs then hs else hs @ [h])"

text \<open>The layers in the order they are added; the response passes them in that order.\<close>

definition response_layers :: "(string \<times> string) list" where
  "response_layers =
     [(''content-security-policy'', SECURITY_CSP),
      (''strict-transport-security'', ''max-age=31536000; includeSubDomains''),
      (''referrer-policy'', ''same-origin''),
      (''x-frame-options'', ''DENY''),
      (''x-content-type-options'', ''nosniff''),
      (''x-robots-tag'', ''noindex, nofollow, noarchive, nosnippet'')]"

definition with_layers :: "headers \<Rightarrow> headers" where
  "with_layers hs = fold if_not_present response_layers hs"

record cors_layer =
  cr_origin :: string
  cr_methods :: "string list"
  cr_any_header :: bool

definition dev_cors :: "app_config \<Rightarrow> cors_layer option" where
  "dev_cors cfg =
     (if cf_dev_mode cfg
      then Some \<lparr>cr_origin = ''http://localhost:5173'',
        cr_methods = [''GET'', ''POST'', ''PUT'', ''DELETE''], cr_any_header = True\<rparr>
      else None)"

section \<open>Opening the database\<close>

record connect_options =
  so_filename :: string
  so_create_if_missing :: bool
  so_journal_mode :: string
  so_synchronous :: string
  so_busy_timeout_ms :: nat
  so_pragmas :: "(string \<times> string) list"
  so_foreign_keys :: bool
  so_max_connections :: nat

definition store_options :: "string \<Rightarrow> connect_options" where
  "store_options db_path =
     \<lparr>so_filename = db_path, so_create_if_missing = True, so_journal_mode = ''WAL'',
      so_synchronous = ''OFF'', so_busy_timeout_ms = 5000,
      so_pragmas = [(''wal_autocheckpoint'', ''1000''), (''mmap_size'', ''0''),
        (''cache_size'', ''-1024''), (''temp_store'', ''MEMORY'')],
      so_foreign_keys = True, so_max_connections = 1\<rparr>"

section \<open>The life of a process\<close>

text \<open>The command line, and what the host provides: the libraries, the environment, the network.\<close>

datatype command = Healthcheck "string option" bool | ProjectAction project_cmd

record errexd_cli =
  ec_command :: "command option"
  ec_config :: config

record host =
  ho_env :: api_env
  ho_show_v6 :: "ip_addr \<Rightarrow> string"
  ho_env_port :: "string option"
  ho_exchange :: "string \<Rightarrow> bytes \<Rightarrow> bytes option"
  ho_client :: hyper_client

text \<open>What \<open>main\<close> builds before it spawns the tasks.\<close>

definition sys_of :: "host \<Rightarrow> config \<Rightarrow> sys" where
  "sys_of h c =
     \<lparr>sy_env = (ho_env h)\<lparr>en_config := app_config_of c\<rparr>, sy_retention_days = co_retention_days c,
      sy_post = poster (ho_client h)\<rparr>"

definition boot :: "host \<Rightarrow> config \<Rightarrow> world \<Rightarrow> daemon" where
  "boot h c w = (start_daemon c w)\<lparr>sv_limiter := boot_limiter (en_round (ho_env h)) c\<rparr>"

text \<open>What makes \<open>main\<close> stop waiting, and the error it then returns: the outermost context.\<close>

datatype subsystem = HttpServer | McpServer | DigestTask | RetentionTask | WebhookTask

datatype task_end = Returned | Failed | TaskPanicked

datatype cause = Ended subsystem task_end | ShutdownSignal

definition select_result :: "cause \<Rightarrow> string option" where
  "select_result c =
     (case c of
        ShutdownSignal \<Rightarrow> None
      | Ended HttpServer e \<Rightarrow>
          (case e of TaskPanicked \<Rightarrow> Some ''http task panicked'' | Failed \<Rightarrow> Some ''http server'' | Returned \<Rightarrow> None)
      | Ended McpServer e \<Rightarrow>
          (case e of TaskPanicked \<Rightarrow> Some ''mcp task panicked'' | Failed \<Rightarrow> Some ''mcp server'' | Returned \<Rightarrow> None)
      | Ended DigestTask e \<Rightarrow>
          (case e of TaskPanicked \<Rightarrow> Some ''digest task panicked'' | Failed \<Rightarrow> Some ''digest'' | Returned \<Rightarrow> None)
      | Ended RetentionTask e \<Rightarrow> if e = TaskPanicked then Some ''retention task panicked'' else None
      | Ended WebhookTask e \<Rightarrow> if e = TaskPanicked then Some ''webhook task panicked'' else None)"

text \<open>A process exits with a status, or a panic aborts it (\<open>panic = "abort"\<close> in the release profile).\<close>

datatype process_end = Exited nat | Aborted

definition exit_status :: "bool \<Rightarrow> process_end" where
  "exit_status ok = Exited (if ok then 0 else 1)"

definition on_disk :: "daemon \<Rightarrow> world" where
  "on_disk d = \<lparr>w_db = w_db d, w_faults = w_faults d, w_now = w_now d\<rparr>"

text \<open>
  One life: a probe, a command on the database, or the daemon until something ends it. Creating the
  data directory, opening the file or running the migrations may fail, and then nothing else happens;
  migrating a file that is up to date changes nothing, and a new file starts with empty tables.
\<close>

inductive life :: "host \<Rightarrow> errexd_cli \<Rightarrow> world \<Rightarrow> process_end \<Rightarrow> world \<Rightarrow> bool" for h cli w where
  probe: "ec_command cli = Some (Healthcheck url require_public_bind) \<Longrightarrow>
    life h cli w
      (exit_status (healthcheck_cmd (en_externs (ho_env h)) (ho_show_v6 h) (ho_env_port h) (ho_exchange h)
         (ec_config cli) url require_public_bind)) w"
| no_storage: "\<not> (\<exists>url b. ec_command cli = Some (Healthcheck url b)) \<Longrightarrow> life h cli w (exit_status False) w"
| project: "ec_command cli = Some (ProjectAction a) \<Longrightarrow>
    run_project_cmd (en_externs (ho_env h)) uuid a w = (r, w') \<Longrightarrow>
    life h cli w (case r of Ok _ \<Rightarrow> exit_status True | Err _ \<Rightarrow> exit_status False | Panic \<Rightarrow> Aborted) w'"
| serves: "ec_command cli = None \<Longrightarrow> run (sys_of h (ec_config cli)) (boot h (ec_config cli) w) as d \<Longrightarrow>
    life h cli w (exit_status (select_result c = None)) (on_disk d)"
| abort: "ec_command cli = None \<Longrightarrow> run (sys_of h (ec_config cli)) (boot h (ec_config cli) w) as d \<Longrightarrow>
    life h cli w Aborted (on_disk d)"

text \<open>
  An installation: a new database file, and then any number of lives with any command lines, at any
  times, with statements failing at any point.
\<close>

inductive installation :: "host \<Rightarrow> world \<Rightarrow> bool" for h where
  fresh: "w_db w = empty_db \<Longrightarrow> installation h w"
| another: "installation h w \<Longrightarrow> life h cli (w\<lparr>w_now := t, w_faults := faults\<rparr>) e w' \<Longrightarrow> installation h w'"

section \<open>The loop ends\<close>

lemma turn_of_batch:
  assumes "sv_queue w \<noteq> []"
  obtains w' where "digest_turn X w = (Ok (Some True), w')"
    "sv_queue w' = drop BATCH_SIZE (sv_queue w)" "sv_queue_open w' = sv_queue_open w"
    "quiet w \<Longrightarrow> quiet w' \<and> (\<exists>rs. announced rs w w' \<and>
       recorded X (take BATCH_SIZE (sv_queue w)) rs (w_db w) (w_db w'))"
proof -
  let ?buf = "take BATCH_SIZE (sv_queue w)" and ?w = "w\<lparr>sv_queue := drop BATCH_SIZE (sv_queue w)\<rparr>"
  obtain e q where q: "sv_queue w = e # q" using assms by (cases "sv_queue w") auto
  have turn: "digest_turn X w = bnd (process_batch X ?buf) (\<lambda>_. ret (Some True)) ?w"
    by (simp add: digest_turn_def q fill_eq BATCH_SIZE_def)
  have "?buf \<noteq> []" by (simp add: q BATCH_SIZE_def)
  then show thesis
  proof (cases rule: process_batch_cases [of ?buf X ?w])
    case (stored rs w')
    show thesis
      by (rule that [of w'])
         (use stored process_batch_queue [OF stored(1)] in
           \<open>auto simp: turn bnd_def ret_def announced_def quiet_def\<close>)
  next
    case (lost w')
    show thesis
      by (rule that [of w'])
         (use lost process_batch_queue [OF lost(1)] in \<open>auto simp: turn bnd_def ret_def quiet_def\<close>)
  qed
qed

lemma task_of_turn: "digest_turn X w = (Ok (Some True), w') \<Longrightarrow> digest_task X w = digest_task X w'"
  by (subst digest_task.simps) simp

text \<open>With a sender left the loop goes through the queue and then waits for ever.\<close>

lemma waits_for_ever:
  assumes "digest_task X w = Some y"
  shows "digest_turn X w \<noteq> (Ok (Some False), w)"
  using assms
proof (induction rule: digest_task.raw_induct [rotated, consumes 1, case_names turns])
  case (turns task X w y)
  show ?case
  proof
    assume turn: "digest_turn X w = (Ok (Some False), w)"
    with turns(2) have "task X w = Some y" by simp
    from turns(1) [OF this] turn show False by blast
  qed
qed

lemma empty_queue_turn:
  "sv_queue w = [] \<Longrightarrow> digest_turn X w = (Ok (if sv_queue_open w then Some False else None), w)"
  by (simp add: digest_turn_def)

lemma open_never_returns:
  "sv_queue_open w \<Longrightarrow> digest_task X w = None"
proof (induction "length (sv_queue w)" arbitrary: w rule: less_induct)
  case less
  show ?case
  proof (cases "sv_queue w = []")
    case True
    then show ?thesis
      using waits_for_ever [of X w] empty_queue_turn [of w X] less.prems by (cases "digest_task X w") auto
  next
    case False
    then obtain w' where "digest_turn X w = (Ok (Some True), w')"
      "sv_queue w' = drop BATCH_SIZE (sv_queue w)" "sv_queue_open w' = sv_queue_open w"
      using turn_of_batch [of w X] by metis
    with less False show ?thesis by (simp add: task_of_turn BATCH_SIZE_def)
  qed
qed

lemma announced_kept:
  "announced rs w w1 \<Longrightarrow> announced rs' w1 w2 \<Longrightarrow> recorded X b rs (w_db w) (w_db w1) \<Longrightarrow>
   recorded X q rs' (w_db w1) (w_db w2) \<Longrightarrow>
   \<exists>rs. announced rs w w2 \<and> recorded X (b @ q) rs (w_db w) (w_db w2)"
  using announced_append recorded_append by blast

lemma closed_drains:
  "\<not> sv_queue_open w \<Longrightarrow> \<exists>w'. digest_task X w = Some (Ok (), w') \<and> sv_queue w' = [] \<and>
     (quiet w \<longrightarrow> (\<exists>rs. announced rs w w' \<and> recorded X (sv_queue w) rs (w_db w) (w_db w')))"
proof (induction "length (sv_queue w)" arbitrary: w rule: less_induct)
  case less
  show ?case
  proof (cases "sv_queue w = []")
    case True
    then have "digest_task X w = Some (Ok (), w)"
      using less.prems by (subst digest_task.simps) (simp add: empty_queue_turn)
    then show ?thesis using True by (auto intro!: exI [of _ "[]"])
  next
    case False
    then obtain w1 where turn: "digest_turn X w = (Ok (Some True), w1)"
      and q: "sv_queue w1 = drop BATCH_SIZE (sv_queue w)" and "sv_queue_open w1 = sv_queue_open w"
      and batch: "quiet w \<Longrightarrow> quiet w1 \<and> (\<exists>rs. announced rs w w1 \<and>
        recorded X (take BATCH_SIZE (sv_queue w)) rs (w_db w) (w_db w1))"
      using turn_of_batch [of w X] by metis
    moreover from this have "length (sv_queue w1) < length (sv_queue w)" "\<not> sv_queue_open w1"
      using False less.prems by (simp_all add: BATCH_SIZE_def)
    ultimately obtain w2 where w2: "digest_task X w1 = Some (Ok (), w2)" "sv_queue w2 = []"
      and rest: "quiet w1 \<Longrightarrow> \<exists>rs. announced rs w1 w2 \<and> recorded X (sv_queue w1) rs (w_db w1) (w_db w2)"
      using less.hyps [of w1] by blast
    have "\<exists>rs. announced rs w w2 \<and> recorded X (sv_queue w) rs (w_db w) (w_db w2)" if calm: "quiet w"
    proof -
      obtain rs rs' where "announced rs w w1" "recorded X (take BATCH_SIZE (sv_queue w)) rs (w_db w) (w_db w1)"
        "announced rs' w1 w2" "recorded X (sv_queue w1) rs' (w_db w1) (w_db w2)"
        using batch [OF calm] rest by blast
      from announced_kept [OF this(1,3,2,4)] show ?thesis by (simp add: q)
    qed
    then show ?thesis using w2 task_of_turn [OF turn] by auto
  qed
qed

section \<open>What installations keep\<close>

lemma life_keeps:
  assumes "life h cli w e w'" and "schema_ok (w_db w)" and "admin_remains (w_db w)"
  shows "schema_ok (w_db w') \<and> admin_remains (w_db w')"
  using assms(1)
proof cases
  case (project a uuid r)
  have "preserves schema_ok (run_project_cmd (en_externs (ho_env h)) uuid a)"
    "preserves admin_left (run_project_cmd (en_externs (ho_env h)) uuid a)"
    unfolding run_project_cmd_def list_admin_projects_def
    by (cases a; simp only: project_cmd.case; intro pres_intros schema_intros)+
  with project(3) assms(2,3) show ?thesis by (auto simp: admin_remains_def dest: preservesD)
next
  case (serves as d c)
  then show ?thesis
    using schema_run.run_keeps [OF serves(4)] admin_run.run_keeps [OF serves(4)] assms(2,3)
    by (simp add: on_disk_def boot_def list_all_iff)
next
  case (abort as d)
  then show ?thesis
    using schema_run.run_keeps [OF abort(4)] admin_run.run_keeps [OF abort(4)] assms(2,3)
    by (simp add: on_disk_def boot_def list_all_iff)
qed (use assms in simp_all)

lemma installation_keeps:
  "installation h w \<Longrightarrow> schema_ok (w_db w) \<and> admin_remains (w_db w)"
proof (induction rule: installation.induct)
  case (another w cli faults t e w')
  then show ?case using life_keeps [of h cli "w\<lparr>w_now := t, w_faults := faults\<rparr>" e w'] by simp
qed (simp add: empty_db_start)

text \<open>A response keeps what its handler set and has every header of the layers once.\<close>

lemma map_of_if_not_present:
  "map_of (if_not_present (n, v) hs) m = (if m = n \<and> map_of hs n = None then Some v else map_of hs m)"
proof (cases "map_of hs n")
  case None
  then have "n \<notin> fst ` set hs" by (simp add: map_of_eq_None_iff)
  then show ?thesis using None by (simp add: if_not_present_def map_add_def split: option.split)
next
  case (Some u)
  then have "n \<in> fst ` set hs" by (metis map_of_eq_None_iff option.distinct(1))
  then show ?thesis using Some by (simp add: if_not_present_def)
qed

lemma layered_headers:
  "map_of (with_layers hs) n =
     (case map_of hs n of Some v \<Rightarrow> Some v | None \<Rightarrow> map_of response_layers n)"
  by (auto simp: with_layers_def response_layers_def map_of_if_not_present split: option.split)

section \<open>Properties\<close>



definition demo_host :: host where
  "demo_host = \<lparr>ho_env = demo_env, ho_show_v6 = (\<lambda>_. []), ho_env_port = None, ho_exchange = (\<lambda>_ _. None),
     ho_client = \<lparr>hc_to_vec = (\<lambda>_. Inr ''{}''), hc_build = Inr, hc_request = (\<lambda>_ _. Answered 200)\<rparr>\<rparr>"


end
