(* ===== verification/Interleaving.thy ===== *)
theory Interleaving
  imports Db
begin

text \<open>
  Requests that overlap. A handler is an \<open>async fn\<close> on a runtime with one thread: between two of its
  \<open>await\<close>s nothing else runs, and at an \<open>await\<close> any other task may. So a handler is a resumption: it is
  finished with a result, or it has an atomic step to take, after which it is a resumption again.
  Run without interruption it is the operation of the sequential model; a pool of them runs in
  any order.
\<close>

section \<open>Tasks\<close>

datatype ('w, 'a) prog = Done 'a | Step "'w \<Rightarrow> ('w, 'a) prog \<times> 'w"

type_synonym ('z, 'a) task = "('z world_scheme, (daemon_error, 'a) outcome) prog"

lemma prog_induct [case_names Done Step]:
  assumes "\<And>a. P (Done a)" and "\<And>f. (\<And>w. P (fst (f w))) \<Longrightarrow> P (Step f)"
  shows "P p"
proof (induction p)
  case (Step f)
  show ?case by (rule assms(2), rule Step.IH [OF rangeI]) (simp add: fsts.simps)
qed (rule assms(1))

text \<open>Alone, a task takes its steps one after the other.\<close>

primrec run_prog :: "('w, 'a) prog \<Rightarrow> 'w \<Rightarrow> 'a \<times> 'w" where
  "run_prog (Done a) = (\<lambda>w. (a, w))"
| "run_prog (Step f) = (\<lambda>w. case map_prod run_prog id (f w) of (go, w') \<Rightarrow> go w')"

text \<open>The ways a task is put together: a value, an error, a panic, one \<open>await\<close>ed call, and \<open>?\<close>.\<close>

definition pure :: "'a \<Rightarrow> ('z, 'a) task" where
  "pure x = Done (Ok x)"

definition fail :: "daemon_error \<Rightarrow> ('z, 'a) task" where
  "fail e = Done (Err e)"

definition crash :: "('z, 'a) task" where
  "crash = Done Panic"

definition call :: "('z, 'a) op \<Rightarrow> ('z, 'a) task" where
  "call m = Step (\<lambda>w. case m w of (r, w') \<Rightarrow> (Done r, w'))"

primrec andThen :: "('z, 'a) task \<Rightarrow> ('a \<Rightarrow> ('z, 'b) task) \<Rightarrow> ('z, 'b) task" where
  "andThen (Done r) k = (case r of Ok x \<Rightarrow> k x | Err e \<Rightarrow> Done (Err e) | Panic \<Rightarrow> Done Panic)"
| "andThen (Step f) k = Step (\<lambda>w. map_prod (\<lambda>p. andThen p k) id (f w))"

lemma run_pure [simp]: "run_prog (pure x) = ret x"
  by (simp add: pure_def ret_def fun_eq_iff)

lemma run_fail [simp]: "run_prog (fail e) = err e"
  by (simp add: fail_def err_def fun_eq_iff)

lemma run_crash [simp]: "run_prog crash = panic"
  by (simp add: crash_def panic_def fun_eq_iff)

lemma run_call [simp]: "run_prog (call m) = m"
  by (simp add: call_def fun_eq_iff split: prod.split)

lemma run_andThen [simp]: "run_prog (andThen p k) = bnd (run_prog p) (\<lambda>x. run_prog (k x))"
proof (rule ext)
  fix w
  show "run_prog (andThen p k) w = bnd (run_prog p) (\<lambda>x. run_prog (k x)) w"
  proof (induction p arbitrary: w rule: prog_induct)
    case (Done r)
    then show ?case by (cases r) (simp_all add: bnd_def)
  next
    case (Step f)
    then show ?case by (simp add: bnd_def map_prod_def case_prod_beta)
  qed
qed

text \<open>A choice is run by running what is chosen.\<close>

lemmas run_cases = option.case_distrib [where h = run_prog] sum.case_distrib [where h = run_prog]
  prod.case_distrib [where h = run_prog] if_distrib [where f = run_prog]

lemmas weak_congs = option.case_cong_weak sum.case_cong_weak prod.case_cong_weak if_weak_cong

lemma andThen_simps [simp]:
  "andThen (pure x) k = k x" "andThen (fail e) k = fail e" "andThen crash k = crash"
  by (simp_all add: pure_def fail_def crash_def)

lemma andThen_call:
  "andThen (call m) k = Step (\<lambda>w. case m w of
     (Ok x, w') \<Rightarrow> (k x, w') | (Err e, w') \<Rightarrow> (fail e, w') | (Panic, w') \<Rightarrow> (crash, w'))"
  by (auto simp: call_def fail_def crash_def fun_eq_iff split: prod.split outcome.split)

lemma andThen_assoc: "andThen (andThen p k) h = andThen p (\<lambda>x. andThen (k x) h)"
proof (induction p rule: prog_induct)
  case (Done r)
  then show ?case by (cases r) simp_all
qed (simp add: map_prod_def case_prod_beta)

section \<open>One task\<close>

text \<open>A task and the world it leaves behind, some steps on.\<close>

inductive advance :: "('w, 'a) prog \<Rightarrow> 'w \<Rightarrow> ('w, 'a) prog \<Rightarrow> 'w \<Rightarrow> bool" where
  stay: "advance p w p w"
| go: "advance (fst (f w)) (snd (f w)) q w' \<Longrightarrow> advance (Step f) w q w'"

lemma advance_trans: "advance p w q w1 \<Longrightarrow> advance q w1 r w2 \<Longrightarrow> advance p w r w2"
  by (induction rule: advance.induct) (auto intro: advance.go)

lemma advance_run: "run_prog p w = (r, w') \<Longrightarrow> advance p w (Done r) w'"
proof (induction p arbitrary: w rule: prog_induct)
  case (Step f)
  then have "advance (fst (f w)) (snd (f w)) (Done r) w'" by (simp add: map_prod_def case_prod_beta)
  then show ?case by (rule advance.go)
qed (auto intro: advance.stay)

lemma advance_andThen:
  "advance p w q w' \<Longrightarrow> advance (andThen p k) w (andThen q k) w'"
  by (induction rule: advance.induct) (auto intro: advance.intros simp: map_prod_def case_prod_beta)

lemma advance_bind:
  assumes "run_prog p w = (Ok x, w')"
  shows "advance (andThen p k) w (k x) w'"
  using advance_andThen [OF advance_run [OF assms], of k] by simp

section \<open>A pool\<close>

text \<open>
  Any task that is not finished may take the next step. A panic aborts the process: after one, no task
  runs.
\<close>

definition crashed :: "('z, 'a) task list \<Rightarrow> bool" where
  "crashed ps \<longleftrightarrow> Done Panic \<in> set ps"

inductive pool_step ::
  "('z, 'a) task list \<Rightarrow> 'z world_scheme \<Rightarrow> ('z, 'a) task list \<Rightarrow> 'z world_scheme \<Rightarrow> bool" where
  turn: "\<not> crashed ps \<Longrightarrow> i < length ps \<Longrightarrow> ps ! i = Step f \<Longrightarrow>
    pool_step ps w (ps[i := fst (f w)]) (snd (f w))"

inductive pool_run ::
  "('z, 'a) task list \<Rightarrow> 'z world_scheme \<Rightarrow> ('z, 'a) task list \<Rightarrow> 'z world_scheme \<Rightarrow> bool" where
  pool_start: "pool_run ps w ps w"
| pool_more: "pool_run ps w qs w1 \<Longrightarrow> pool_step qs w1 rs w2 \<Longrightarrow> pool_run ps w rs w2"

lemma pool_run_trans: "pool_run qs w1 rs w2 \<Longrightarrow> pool_run ps w qs w1 \<Longrightarrow> pool_run ps w rs w2"
  by (induction rule: pool_run.induct) (auto intro: pool_more)

text \<open>What a task does alone it can do in the pool, as long as nobody panicked.\<close>

lemma pool_advance:
  assumes "advance p w q w'" and "Done Panic \<notin> set (as @ bs)"
  shows "pool_run (as @ p # bs) w (as @ q # bs) w'"
  using assms
proof (induction rule: advance.induct)
  case (go f w q w')
  have "pool_step (as @ Step f # bs) w ((as @ Step f # bs)[length as := fst (f w)]) (snd (f w))"
    by (rule pool_step.turn) (use go.prems in \<open>auto simp: crashed_def\<close>)
  then have "pool_run (as @ Step f # bs) w (as @ fst (f w) # bs) (snd (f w))"
    using pool_more [OF pool_start] by simp
  then show ?case using pool_run_trans [OF go.IH [OF go.prems]] by blast
qed (rule pool_start)

section \<open>What the steps of a task keep\<close>

text \<open>
  \<open>steps_keep J p\<close>: no step of the task breaks \<open>J\<close>, from whatever world it is taken. That is what one
  needs of a task that runs among others, and what an operation of which every call keeps \<open>J\<close> has.
\<close>

primrec steps_keep :: "(db \<Rightarrow> bool) \<Rightarrow> ('z world_scheme, 'a) prog \<Rightarrow> bool" where
  "steps_keep J (Done a) = True"
| "steps_keep J (Step f) = (\<forall>w. (J (w_db w) \<longrightarrow> J (w_db (snd (f w)))) \<and> fst (map_prod (steps_keep J) id (f w)))"

lemma steps_keep_Step [simp]:
  "steps_keep J (Step f) \<longleftrightarrow> (\<forall>w. (J (w_db w) \<longrightarrow> J (w_db (snd (f w)))) \<and> steps_keep J (fst (f w)))"
  by simp

declare steps_keep.simps(2) [simp del]

lemma steps_keep_call [pres_intros]: "preserves J m \<Longrightarrow> steps_keep J (call m)"
  by (auto simp: call_def preserves_def split: prod.split)

lemma steps_keep_simple [pres_intros]: "steps_keep J (pure x)" "steps_keep J (fail e)" "steps_keep J crash"
  by (simp_all add: pure_def fail_def crash_def)

lemma steps_keep_andThen [pres_intros]:
  "steps_keep J p \<Longrightarrow> (\<And>x. steps_keep J (k x)) \<Longrightarrow> steps_keep J (andThen p k)"
proof (induction p rule: prog_induct)
  case (Done r)
  then show ?case by (cases r) simp_all
qed (simp add: map_prod_def case_prod_beta)

lemma steps_keep_if [pres_intros]:
  "(b \<Longrightarrow> steps_keep J p) \<Longrightarrow> (\<not> b \<Longrightarrow> steps_keep J q) \<Longrightarrow> steps_keep J (if b then p else q)"
  by simp

lemma steps_keep_case_option [pres_intros]:
  "(opt = None \<Longrightarrow> steps_keep J p) \<Longrightarrow> (\<And>x. opt = Some x \<Longrightarrow> steps_keep J (h x)) \<Longrightarrow>
   steps_keep J (case opt of None \<Rightarrow> p | Some x \<Rightarrow> h x)"
  by (cases opt) simp_all

lemma steps_keep_case_sum [pres_intros]:
  "(\<And>x. steps_keep J (g x)) \<Longrightarrow> (\<And>y. steps_keep J (h y)) \<Longrightarrow>
   steps_keep J (case sm of Inl x \<Rightarrow> g x | Inr y \<Rightarrow> h y)"
  by (cases sm) simp_all

lemma steps_keep_case_prod [pres_intros]:
  "(\<And>x y. steps_keep J (g x y)) \<Longrightarrow> steps_keep J (case pr of (x, y) \<Rightarrow> g x y)"
  by (cases pr) simp

text \<open>Predicates all of whose tasks' steps keep them are invariants of every pool of such tasks.\<close>

lemma pool_run_keeps:
  "pool_run ps w qs w' \<Longrightarrow> list_all (steps_keep J) ps \<Longrightarrow> J (w_db w) \<Longrightarrow>
   list_all (steps_keep J) qs \<and> J (w_db w')"
proof (induction rule: pool_run.induct)
  case (pool_more ps w qs w1 rs w2)
  then have keep: "list_all (steps_keep J) qs" "J (w_db w1)" by blast+
  from pool_more.hyps(2) show ?case
  proof cases
    case (turn i f)
    then have "steps_keep J (Step f)" using keep(1) by (metis list_all_length)
    with turn keep show ?thesis by (auto simp: list_all_length nth_list_update)
  qed
qed simp

section \<open>A task among others\<close>

text \<open>
  The predicates of a family that the others keep are the ground a task stands on. \<open>holds_up Js J p w\<close>:
  from the world \<open>w\<close>, however often others act in between without breaking a predicate of \<open>Js\<close>, the
  steps of \<open>p\<close> keep \<open>J\<close>.
\<close>

definition grounded :: "(db \<Rightarrow> bool) set \<Rightarrow> db \<Rightarrow> db \<Rightarrow> bool" where
  "grounded Js d d' \<longleftrightarrow> (\<forall>J \<in> Js. J d \<longrightarrow> J d')"

lemma grounded_refl [simp]: "grounded Js d d"
  by (simp add: grounded_def)

lemma grounded_trans: "grounded Js d d1 \<Longrightarrow> grounded Js d1 d2 \<Longrightarrow> grounded Js d d2"
  unfolding grounded_def by blast

inductive holds_up ::
  "(db \<Rightarrow> bool) set \<Rightarrow> (db \<Rightarrow> bool) \<Rightarrow> ('z world_scheme, 'a) prog \<Rightarrow> db \<Rightarrow> bool" for Js J where
  finished: "holds_up Js J (Done a) d"
| next_step: "(\<And>w. grounded Js d (w_db w) \<Longrightarrow> J (w_db w) \<Longrightarrow>
      J (w_db (snd (f w))) \<and> holds_up Js J (fst (f w)) (w_db (snd (f w)))) \<Longrightarrow>
    holds_up Js J (Step f) d"

inductive_cases holds_up_StepE: "holds_up Js J (Step f) d"

lemma holds_up_later: "holds_up Js J p d \<Longrightarrow> grounded Js d d' \<Longrightarrow> holds_up Js J p d'"
  by (induction rule: holds_up.induct) (blast intro: holds_up.intros grounded_trans)+

lemma holds_up_simple [simp]:
  "holds_up Js J (pure x) d" "holds_up Js J (fail e) d" "holds_up Js J crash d"
  by (simp_all add: pure_def fail_def crash_def holds_up.finished)

text \<open>One call and what follows, by the weakest precondition of the call.\<close>

lemma holds_up_call:
  assumes "\<And>w. grounded Js d (w_db w) \<Longrightarrow> J (w_db w) \<Longrightarrow>
    wp m (\<lambda>r w'. J (w_db w') \<and> (case r of Ok x \<Rightarrow> holds_up Js J (k x) (w_db w') | _ \<Rightarrow> True)) w"
  shows "holds_up Js J (andThen (call m) k) d"
  unfolding andThen_call
  by (rule holds_up.next_step, drule (1) assms)
     (auto simp: wp_def split: prod.splits outcome.splits)

text \<open>A part that keeps \<open>J\<close> by itself, and a task that stands on one predicate of the ground.\<close>

lemma holds_up_after:
  assumes "steps_keep J p" and "\<And>x d. J d \<Longrightarrow> holds_up Js J (k x) d" and "J d"
  shows "holds_up Js J (andThen p k) d"
  using assms(1,3)
proof (induction p arbitrary: d rule: prog_induct)
  case (Done r)
  then show ?case using assms(2) by (cases r) (auto intro: holds_up.finished)
next
  case (Step f)
  then show ?case
    by (auto simp: map_prod_def case_prod_beta intro!: holds_up.next_step)
qed

lemma holds_up_on_ground:
  fixes p :: "('z world_scheme, 'a) prog"
  assumes "steps_keep K p" and "steps_keep S p" and "K \<in> Js" and "K d"
    and "\<And>d. J d \<Longrightarrow> S d" and "\<And>d. K d \<Longrightarrow> S d \<Longrightarrow> J d"
  shows "holds_up Js J p d"
  using assms(1,2,4)
proof (induction p arbitrary: d rule: prog_induct)
  case (Step f)
  show ?case
  proof (rule holds_up.next_step)
    fix w :: "'z world_scheme"
    assume "grounded Js d (w_db w)" and J: "J (w_db w)"
    then have "K (w_db w)" using assms(3) Step.prems(3) by (auto simp: grounded_def)
    then have "K (w_db (snd (f w)))" "S (w_db (snd (f w)))" using Step.prems(1,2) assms(5) [OF J] by auto
    then show "J (w_db (snd (f w))) \<and> holds_up Js J (fst (f w)) (w_db (snd (f w)))"
      using Step.IH Step.prems(1,2) assms(6) by auto
  qed
qed (rule holds_up.finished)

text \<open>A task that keeps every predicate of the family needs no ground.\<close>

lemma grounded_step: "\<forall>J \<in> Js. steps_keep J (Step f) \<Longrightarrow> grounded Js (w_db w) (w_db (snd (f w)))"
  by (auto simp: grounded_def)

section \<open>One at a time among others\<close>

text \<open>
  Tasks of one kind take turns: the next starts when the last is finished. Meanwhile tasks of another
  kind come and run as they like. \<open>taking_turns mine other w\<^sub>0 p qs w\<close>: such a run from \<open>w\<^sub>0\<close> can be in
  \<open>w\<close>, with \<open>p\<close> the task whose turn it is and \<open>qs\<close> the others.
\<close>

inductive taking_turns ::
  "(('z, 'a) task \<Rightarrow> bool) \<Rightarrow> (('z, 'a) task \<Rightarrow> bool) \<Rightarrow> 'z world_scheme \<Rightarrow>
     ('z, 'a) task \<Rightarrow> ('z, 'a) task list \<Rightarrow> 'z world_scheme \<Rightarrow> bool"
  for mine other w\<^sub>0 where
  nobody: "taking_turns mine other w\<^sub>0 (Done r) [] w\<^sub>0"
| my_turn: "taking_turns mine other w\<^sub>0 (Done r) qs w \<Longrightarrow> mine p \<Longrightarrow> taking_turns mine other w\<^sub>0 p qs w"
| my_step: "taking_turns mine other w\<^sub>0 (Step f) qs w \<Longrightarrow>
    taking_turns mine other w\<^sub>0 (fst (f w)) qs (snd (f w))"
| arrival: "taking_turns mine other w\<^sub>0 p qs w \<Longrightarrow> other q \<Longrightarrow> taking_turns mine other w\<^sub>0 p (qs @ [q]) w"
| other_step: "taking_turns mine other w\<^sub>0 p qs w \<Longrightarrow> i < length qs \<Longrightarrow> qs ! i = Step f \<Longrightarrow>
    taking_turns mine other w\<^sub>0 p (qs[i := fst (f w)]) (snd (f w))"

text \<open>
  What makes an invariant of it: a task in its turn holds it up on the ground that the others leave,
  and the others keep it and the ground.
\<close>

locale turn_taking =
  fixes Js :: "(db \<Rightarrow> bool) set" and J :: "db \<Rightarrow> bool"
    and mine :: "('z, 'a) task \<Rightarrow> bool" and other :: "('z, 'a) task \<Rightarrow> bool"
  assumes mine_holds_up: "mine p \<Longrightarrow> J d \<Longrightarrow> holds_up Js J p d"
    and other_keeps_J: "other q \<Longrightarrow> steps_keep J q"
    and other_keeps_ground: "other q \<Longrightarrow> J' \<in> Js \<Longrightarrow> steps_keep J' q"
begin

definition calm_task :: "('z, 'a) task \<Rightarrow> bool" where
  "calm_task q \<longleftrightarrow> (\<forall>J' \<in> insert J Js. steps_keep J' q)"

lemma turns_keep:
  "taking_turns mine other w\<^sub>0 p qs w \<Longrightarrow> J (w_db w\<^sub>0) \<Longrightarrow>
   J (w_db w) \<and> holds_up Js J p (w_db w) \<and> list_all calm_task qs"
proof (induction rule: taking_turns.induct)
  case (my_step f qs w)
  then show ?case by (auto elim: holds_up_StepE)
next
  case (arrival p qs w q)
  then show ?case using other_keeps_J other_keeps_ground by (auto simp: calm_task_def)
next
  case (other_step p qs w i f)
  then have inv: "J (w_db w)" "holds_up Js J p (w_db w)" "list_all calm_task qs" by blast+
  then have "calm_task (Step f)" using other_step.hyps by (metis list_all_length)
  then have keep: "steps_keep J' (Step f)" if "J' \<in> insert J Js" for J'
    using that \<open>calm_task (Step f)\<close> unfolding calm_task_def by blast
  then have "grounded Js (w_db w) (w_db (snd (f w)))" by (intro grounded_step) blast
  moreover have "calm_task (fst (f w))" using keep by (auto simp: calm_task_def)
  moreover have "J (w_db (snd (f w)))" using keep [of J] inv(1) by simp
  ultimately show ?case
    using inv holds_up_later other_step.hyps(2) by (auto simp: list_all_length nth_list_update)
qed (auto intro: holds_up.finished mine_holds_up)

end

end
