(* ===== verification/Races.thy ===== *)
theory Races
  imports Interleaving Router
begin

text \<open>
  The handlers of \<open>crates/errexd/src/ingest.rs\<close> and \<open>auth.rs\<close> that read the accounts before they change
  them, as tasks with one step per \<open>await\<close> on the store: PATCH and DELETE of a user, the first setup and
  the login. Every store method is one statement or one transaction on the single connection of the
  pool, so it is one step. Run alone a task is the handler of the sequential model; in a pool it is
  what a daemon that serves requests at the same time does.
\<close>

section \<open>The tasks\<close>

definition auth_task :: "externs \<Rightarrow> headers \<Rightarrow> ('z, response + auth_context) task" where
  "auth_task X hs =
     (case extract_session_id hs of
        None \<Rightarrow> pure (Inl (plain 401 ''not signed in''))
      | Some sid \<Rightarrow>
          andThen (call (try_op (session_for_id X sid))) (\<lambda>lookup.
          case lookup of
            Inl _ \<Rightarrow> pure (Inl internal_error)
          | Inr None \<Rightarrow> pure (Inl (plain 401 ''session invalid''))
          | Inr (Some (session, role, deactivated)) \<Rightarrow>
              andThen (call (touch_session X (ss_id session))) (\<lambda>_.
              pure (Inr \<lparr>ac_session = session, ac_role = role\<rparr>))))"

definition admin_task :: "externs \<Rightarrow> headers \<Rightarrow> ('z, response + auth_context) task" where
  "admin_task X hs =
     andThen (auth_task X hs) (\<lambda>ctx.
     case ctx of
       Inl resp \<Rightarrow> pure (Inl resp)
     | Inr ctx \<Rightarrow>
         if \<not> is_admin (ac_role ctx) then pure (Inl (plain 403 ''admin role required''))
         else pure (Inr ctx))"

definition check_task :: "externs \<Rightarrow> headers \<Rightarrow> ('z, response + unit) task" where
  "check_task X hs =
     andThen (admin_task X hs) (\<lambda>ctx. pure (case ctx of Inl resp \<Rightarrow> Inl resp | Inr _ \<Rightarrow> Inr ()))"

definition behind_gate :: "externs \<Rightarrow> headers \<Rightarrow> ('z, response) task \<Rightarrow> ('z, response) task" where
  "behind_gate X hs p =
     andThen (check_task X hs) (\<lambda>gate. case gate of Inl resp \<Rightarrow> pure resp | Inr _ \<Rightarrow> p)"

definition patch_checks_task ::
  "externs \<Rightarrow> string \<Rightarrow> patch_user_body \<Rightarrow> ('z, response + unit) task" where
  "patch_checks_task X u body =
     andThen (call (get_user X u)) (\<lambda>found.
     if found = None then pure (Inl (plain 404 ''user not found''))
     else case (case pu_password body of Some p \<Rightarrow> validate_password_strength p | None \<Rightarrow> Inr ()) of
       Inl why \<Rightarrow> pure (Inl (plain 400 why))
     | Inr _ \<Rightarrow>
       andThen (call (get_user X u)) (\<lambda>found.
       case found of
         None \<Rightarrow> crash
       | Some current \<Rightarrow>
         let demoting = (case pu_role body of
                           Some r \<Rightarrow> r \<noteq> Admin \<and> u_role current = Admin | None \<Rightarrow> False);
             deactivating = (pu_deactivated body = Some True \<and> u_role current = Admin
                             \<and> u_deactivated_at current = None) in
         if demoting \<or> deactivating then
           andThen (call count_active_admins) (\<lambda>n.
           if n \<le> 1
           then pure (Inl (plain 409 ''cannot demote or deactivate the last active admin''))
           else pure (Inr ()))
         else pure (Inr ())))"

definition patch_apply_task ::
  "externs \<Rightarrow> string \<Rightarrow> string \<Rightarrow> patch_user_body \<Rightarrow> ('z, response) task" where
  "patch_apply_task X salt u body =
     andThen (case pu_password body of
                None \<Rightarrow> pure ()
              | Some p \<Rightarrow>
                  (case hash_password X salt p of
                     None \<Rightarrow> fail (Crypto ''crypto'')
                   | Some hash \<Rightarrow> call (set_user_password u hash))) (\<lambda>_.
     andThen (case pu_role body of None \<Rightarrow> pure () | Some role \<Rightarrow> call (set_user_role u role)) (\<lambda>_.
     andThen (case pu_deactivated body of
                None \<Rightarrow> pure () | Some d \<Rightarrow> call (set_user_deactivated X u d)) (\<lambda>_.
     andThen (call (get_user X u)) (\<lambda>found.
     case found of None \<Rightarrow> crash | Some updated \<Rightarrow> pure (reply 200 (PUser updated))))))"

definition patch_task ::
  "externs \<Rightarrow> headers \<Rightarrow> string \<Rightarrow> string \<Rightarrow> patch_user_body option \<Rightarrow> ('z, response) task" where
  "patch_task X hs salt u body =
     behind_gate X hs
       (case body of
          None \<Rightarrow> pure (plain 400 ''missing body'')
        | Some body \<Rightarrow>
          andThen (patch_checks_task X u body) (\<lambda>verdict.
          case verdict of Inl resp \<Rightarrow> pure resp | Inr _ \<Rightarrow> patch_apply_task X salt u body))"

definition delete_task :: "externs \<Rightarrow> headers \<Rightarrow> string \<Rightarrow> ('z, response) task" where
  "delete_task X hs u =
     behind_gate X hs
       (andThen (call (get_user X u)) (\<lambda>found.
        case found of
          None \<Rightarrow> pure (plain 404 ''user not found'')
        | Some target \<Rightarrow>
          andThen (if u_role target = Admin \<and> u_deactivated_at target = None
               then andThen (call count_active_admins) (\<lambda>n. pure (n \<le> 1)) else pure False) (\<lambda>last.
          if last then pure (plain 409 ''cannot delete the last active admin'')
          else andThen (call (delete_user u)) (\<lambda>_. pure (reply 204 PNone)))))"

definition setup_task ::
  "externs \<Rightarrow> app_config \<Rightarrow> client \<Rightarrow> setup_body option \<Rightarrow> ('z, response) task" where
  "setup_task X cfg cl body =
     (case body of
        None \<Rightarrow> pure (plain 400 ''missing body'')
      | Some body \<Rightarrow>
        andThen (call user_count) (\<lambda>n.
        if n > 0 then pure (plain 409 ''setup already complete'')
        else case cf_setup_token cfg of
          None \<Rightarrow> pure (plain 503 ''setup is disabled (set ERREX_ADMIN_TOKEN to enable)'')
        | Some expected \<Rightarrow>
          let setup_ip = extract_client_ip (cl_headers cl) (cl_peer cl) (cf_trust_proxy_headers cfg);
              policy = default_policy in
          andThen (call (bnd utc_now (\<lambda>now.
              count_recent_failures_for_ip X setup_ip (now - lp_window policy)))) (\<lambda>ip_failures.
          case retry_after_secs (lockout_evaluate policy 0 (int ip_failures)) of
            Some retry_after \<Rightarrow> pure (too_many_attempts retry_after)
          | None \<Rightarrow>
            if sb_token body \<noteq> expected then
              andThen (call (record_attempt X None setup_ip False)) (\<lambda>_.
              pure (plain 401 ''invalid setup token''))
            else
            let username = trim (sb_username body) in
            if username = [] \<or> length username > 64 then pure (plain 400 ''username 1..=64 chars'')
            else case validate_password_strength (sb_password body) of
              Inl why \<Rightarrow> pure (plain 400 why)
            | Inr _ \<Rightarrow>
              (case hash_password X (cl_salt cl) (sb_password body) of
                None \<Rightarrow> pure internal_error
              | Some hash \<Rightarrow>
                andThen (call (create_user X username hash Admin)) (\<lambda>_.
                let sid = generate_session_id (cl_session_bytes cl);
                    ua = client_user_agent (cl_headers cl) in
                andThen (call (create_session X sid username (Some setup_ip) ua)) (\<lambda>_.
                andThen (call (touch_user_login X username (Some setup_ip))) (\<lambda>_.
                pure (reply 201 (PAccount username Admin)
                  \<lparr>re_cookie := Some (build_session_cookie sid (cf_dev_mode cfg))\<rparr>))))))))"

section \<open>Alone, they are the handlers\<close>

lemma run_auth_task [simp]: "run_prog (auth_task X hs) = require_auth X hs"
  by (simp add: auth_task_def require_auth_def run_cases cong del: weak_congs)

lemma run_check_task [simp]: "run_prog (check_task X hs) = check_admin X hs"
  by (simp add: check_task_def check_admin_def admin_task_def require_admin_def run_cases cong del: weak_congs)

lemma run_behind_gate [simp]: "run_prog (behind_gate X hs p) = guarded (check_admin X hs) (run_prog p)"
  by (simp add: behind_gate_def guarded_def run_cases cong del: weak_congs)

lemma run_patch_checks_task [simp]: "run_prog (patch_checks_task X u body) = patch_checks X u body"
  by (simp add: patch_checks_task_def patch_checks_def Let_def run_cases cong del: weak_congs)

lemma run_patch_apply_task [simp]: "run_prog (patch_apply_task X salt u body) = patch_apply X salt u body"
  by (simp add: patch_apply_task_def patch_apply_def run_cases cong del: weak_congs)

lemma run_patch_task [simp]: "run_prog (patch_task X hs salt u body) = admin_patch_user X hs salt u body"
  by (simp add: patch_task_def admin_patch_user_def run_cases cong del: weak_congs)

lemma run_delete_task [simp]: "run_prog (delete_task X hs u) = admin_delete_user X hs u"
  by (simp add: delete_task_def admin_delete_user_def run_cases cong del: weak_congs)

lemma bnd_assoc: "bnd (bnd m f) g = bnd m (\<lambda>x. bnd (f x) g)"
  by (auto simp: bnd_def fun_eq_iff split: prod.split outcome.split)

lemma run_setup_task [simp]: "run_prog (setup_task X cfg cl body) = handle_setup X cfg cl body"
  by (simp add: setup_task_def handle_setup_def Let_def run_cases bnd_assoc cong del: weak_congs)

section \<open>What holds however they overlap\<close>

lemmas user_tasks = patch_task_def delete_task_def setup_task_def behind_gate_def check_task_def
  admin_task_def auth_task_def patch_checks_task_def patch_apply_task_def

lemma preserves_session_touch:
  assumes "slid_closed J"
  shows "preserves J (touch_session X sid)"
  by (rule preserves_wp, rule wp_touch_session) (use assms in \<open>auto simp: slid_closed_def kept_def\<close>)

lemma steps_keep_gate [pres_intros]:
  assumes "slid_closed J" and "steps_keep J p"
  shows "steps_keep J (behind_gate X hs p)"
  unfolding behind_gate_def check_task_def admin_task_def auth_task_def session_for_id_def
  by (intro pres_intros preserves_session_touch assms)

lemma tasks_keep_schema:
  "steps_keep schema_ok (patch_task X hs salt u body)"
  "steps_keep schema_ok (delete_task X hs u)"
  "steps_keep schema_ok (setup_task X cfg cl sbody)"
  unfolding patch_task_def delete_task_def setup_task_def patch_checks_task_def patch_apply_task_def Let_def
  by (intro pres_intros schema_intros)+

section \<open>One removal at a time\<close>

text \<open>
  What the others leave standing: no step of theirs takes the last administrator besides a given user.
\<close>

definition other_admins :: "(db \<Rightarrow> bool) set" where
  "other_admins = {\<lambda>d. list_ex (other_admin name) (users d) | name. True}"

abbreviation another_than :: "string \<Rightarrow> db \<Rightarrow> bool" where
  "another_than name d \<equiv> list_ex (other_admin name) (users d)"

lemma another_than_ground: "another_than name \<in> other_admins"
  by (auto simp: other_admins_def)

lemma another_than_remains: "another_than name d \<Longrightarrow> schema_ok d \<Longrightarrow> admin_remains d"
  by (auto simp: admin_remains_def other_admin_def list_ex_iff)

lemma admin_remains_schema: "admin_remains d \<Longrightarrow> schema_ok d"
  by (simp add: admin_remains_def)

lemma slid_closed_admin_remains [pres_intros]: "slid_closed admin_remains"
  by (auto simp: slid_closed_def intro: slid_admin_remains)

lemma steps_keep_conj:
  "steps_keep J p \<Longrightarrow> steps_keep K p \<Longrightarrow> steps_keep (\<lambda>d. J d \<and> K d) p"
  by (induction p rule: prog_induct) auto

lemma steps_keep_apply:
  assumes "\<And>u h. us_username u = name \<Longrightarrow> P u \<Longrightarrow> P (u\<lparr>us_password_hash := h\<rparr>)"
    and "\<And>u r. us_username u = name \<Longrightarrow> P u \<Longrightarrow> pu_role body = Some r \<Longrightarrow> P (u\<lparr>us_role := role_as_str r\<rparr>)"
    and "\<And>u v b. us_username u = name \<Longrightarrow> P u \<Longrightarrow> pu_deactivated body = Some b \<Longrightarrow> (b \<longleftrightarrow> v \<noteq> None) \<Longrightarrow>
      P (u\<lparr>us_deactivated_at := v\<rparr>)"
  shows "steps_keep (\<lambda>d. list_ex P (users d)) (patch_apply_task X salt name body)"
  unfolding patch_apply_task_def set_user_password_def set_user_role_def set_user_deactivated_def
    get_user_def Let_def
  by (intro pres_intros preserves_update_user preserves_sessions) (auto intro: assms)

lemma steps_keep_apply_schema: "steps_keep schema_ok (patch_apply_task X salt name body)"
  unfolding patch_apply_task_def by (intro pres_intros schema_intros)

lemma apply_on_ground:
  assumes "another_than name d"
  shows "holds_up other_admins admin_remains (patch_apply_task X salt name body) d"
  by (rule holds_up_on_ground [where K = "another_than name" and S = schema_ok, OF _
        steps_keep_apply_schema another_than_ground assms admin_remains_schema another_than_remains])
     (auto intro!: steps_keep_apply simp: other_admin_def active_admin_def)

text \<open>A PATCH that neither demotes nor deactivates needs no other administrator.\<close>

definition harmless :: "patch_user_body \<Rightarrow> bool" where
  "harmless body \<longleftrightarrow> pu_role body \<noteq> Some Viewer \<and> pu_deactivated body \<noteq> Some True"

lemma apply_harmless:
  assumes "harmless body"
  shows "steps_keep admin_remains (patch_apply_task X salt name body)"
  unfolding admin_remains_def
proof (rule steps_keep_conj [OF steps_keep_apply_schema])
  show "steps_keep admin_left (patch_apply_task X salt name body)"
    unfolding patch_apply_task_def set_user_password_def set_user_role_def set_user_deactivated_def
      get_user_def Let_def
    by (intro pres_intros user_or_none.keeps_statements)
       (use assms in \<open>auto intro!: admin_left_update_user
          simp: harmless_def active_admin_def role_as_str_def split: role.split\<close>)
qed

lemma holds_up_keeping:
  assumes "steps_keep J p"
  shows "holds_up Js J p d"
  using assms
proof (induction p arbitrary: d rule: prog_induct)
  case (Step f)
  then show ?case by (auto intro!: holds_up.next_step)
qed (rule holds_up.finished)

text \<open>
  After the check: the change is harmless, or there is another administrator to stand on.
\<close>

definition safe_change :: "string \<Rightarrow> patch_user_body \<Rightarrow> db \<Rightarrow> bool" where
  "safe_change name body d \<longleftrightarrow> harmless body \<or> another_than name d"

lemma holds_up_apply:
  "safe_change name body d \<Longrightarrow>
   holds_up other_admins admin_remains (patch_apply_task X salt name body) d"
  using apply_on_ground holds_up_keeping [OF apply_harmless] by (auto simp: safe_change_def)

lemma two_admins:
  "admin_remains d \<Longrightarrow> 2 \<le> count_where active_admin (users d) \<Longrightarrow> another_than name d"
  using another_admin by (auto simp: admin_remains_def schema_ok_def users_ok_def)

lemma inactive_leaves_another:
  assumes "admin_remains d" and "select_user name d = Some r" and "\<not> active_admin r"
  shows "another_than name d"
proof -
  have "users d \<noteq> []" using assms(2) by (auto simp: select_user_def)
  then obtain a where a: "a \<in> set (users d)" "active_admin a"
    using assms(1) by (auto simp: admin_remains_def list_ex_iff)
  then have "us_username a \<noteq> name"
    using assms(2,3) select_user_member [OF admin_remains_schema [OF assms(1)]] by fastforce
  with a show ?thesis by (auto simp: list_ex_iff other_admin_def)
qed

lemma not_only_this:
  "admin_remains d \<Longrightarrow> select_user name d = Some r \<Longrightarrow>
   \<not> ((pu_role body = Some Viewer \<or> pu_deactivated body = Some True) \<and> active_admin r) \<Longrightarrow>
   safe_change name body d"
  using inactive_leaves_another [of d name r] by (auto simp: safe_change_def harmless_def)

lemma holds_up_get_user:
  assumes "\<And>d' t. J d' \<Longrightarrow> grounded Js d d' \<Longrightarrow>
    holds_up Js J (k (map_option (user_of_row X t) (select_user u d'))) d'"
  shows "holds_up Js J (andThen (call (get_user X u)) k) d"
  unfolding get_user_def
  by (rule holds_up_call) (auto intro!: wp_intros assms)

lemma holds_up_count:
  assumes "\<And>d'. J d' \<Longrightarrow> grounded Js d d' \<Longrightarrow>
    holds_up Js J (k (count_where active_admin (users d'))) d'"
  shows "holds_up Js J (andThen (call count_active_admins) k) d"
  unfolding count_active_admins_def
  by (rule holds_up_call) (auto intro!: wp_intros assms)

lemma holds_up_delete:
  assumes "another_than name d"
  shows "holds_up other_admins admin_remains (andThen (call (delete_user name)) (\<lambda>_. pure x)) d"
  by (rule holds_up_on_ground [where K = "another_than name" and S = schema_ok, OF _ _
        another_than_ground assms admin_remains_schema another_than_remains])
     (auto intro!: pres_intros schema_intros preserves_exec
        simp: delete_user_def delete_users_def other_admin_def list_ex_iff)

lemma holds_up_checks:
  assumes "\<And>resp d'. holds_up other_admins admin_remains (k (Inl resp)) d'"
    and "\<And>d'. safe_change name body d' \<Longrightarrow> holds_up other_admins admin_remains (k (Inr ())) d'"
  shows "holds_up other_admins admin_remains (andThen (patch_checks_task X name body) k) d"
  unfolding patch_checks_task_def andThen_assoc
proof (rule holds_up_get_user, goal_cases)
  case (1 d1 t)
  show ?case
  proof (cases "select_user name d1")
    case None
    then show ?thesis by (simp add: assms(1))
  next
    case (Some r1)
    show ?thesis
    proof (cases "case pu_password body of Some p \<Rightarrow> validate_password_strength p | None \<Rightarrow> Inr ()")
      case (Inl why)
      then show ?thesis using Some by (simp add: assms(1))
    next
      case (Inr unit)
      show ?thesis
      proof (simp only: Inr Some option.map option.simps(3) if_False sum.case andThen_assoc,
          rule holds_up_get_user, goal_cases)
        case (1 d2 t2)
        show ?case
        proof (cases "select_user name d2")
          case None
          then show ?thesis by simp
        next
          case (Some r)
          have guard: "holds_up other_admins admin_remains (andThen (call count_active_admins) (\<lambda>n.
              andThen (if n \<le> 1 then pure (Inl resp) else pure (Inr ())) k)) d2" for resp
            by (rule holds_up_count)
               (auto intro!: assms dest: two_admins simp: safe_change_def)
          have "holds_up other_admins admin_remains (k (Inr ())) d2"
            if "\<not> ((pu_role body = Some Viewer \<or> pu_deactivated body = Some True) \<and> active_admin r)"
            using assms(2) not_only_this [OF 1(1) Some that] by blast
          with guard show ?thesis
            using Some
            by (auto simp: Let_def andThen_assoc user_of_row_def active_admin_def not_Admin
                role_from_db_str_def split: option.splits)
        qed
      qed
    qed
  qed
qed

lemma steps_keep_check: "slid_closed J \<Longrightarrow> steps_keep J (check_task X hs)"
  unfolding check_task_def admin_task_def auth_task_def session_for_id_def
  by (intro pres_intros preserves_session_touch)

lemma holds_up_gate:
  assumes "admin_remains d" and "\<And>d. admin_remains d \<Longrightarrow> holds_up other_admins admin_remains p d"
  shows "holds_up other_admins admin_remains (behind_gate X hs p) d"
  unfolding behind_gate_def
  by (rule holds_up_after [where J = admin_remains])
     (auto intro!: steps_keep_check slid_closed_admin_remains assms split: sum.split)

lemma holds_up_patch:
  assumes "admin_remains d"
  shows "holds_up other_admins admin_remains (patch_task X hs salt name body) d"
  unfolding patch_task_def
  by (rule holds_up_gate [OF assms])
     (auto intro!: holds_up_checks holds_up_apply split: option.split)

lemma holds_up_delete_task:
  assumes "admin_remains d"
  shows "holds_up other_admins admin_remains (delete_task X hs name) d"
  unfolding delete_task_def
proof (rule holds_up_gate [OF assms], rule holds_up_get_user, goal_cases)
  case (1 d0 d1 t)
  show ?case
  proof (cases "select_user name d1")
    case (Some r)
    show ?thesis
    proof (cases "active_admin r")
      case True
      have "holds_up other_admins admin_remains (andThen (call count_active_admins) (\<lambda>n.
          if n \<le> 1 then pure (plain 409 ''cannot delete the last active admin'')
          else andThen (call (delete_user name)) (\<lambda>_. pure (reply 204 PNone)))) d1"
        by (rule holds_up_count) (auto intro!: holds_up_delete dest: two_admins)
      with Some True show ?thesis
        by (simp add: andThen_assoc user_of_row_def active_admin_def)
    next
      case False
      have "holds_up other_admins admin_remains (andThen (call (delete_user name)) (\<lambda>_. pure (reply 204 PNone))) d1"
        by (rule holds_up_delete [OF inactive_leaves_another [OF 1(2) Some False]])
      with Some False show ?thesis
        by (auto simp: user_of_row_def active_admin_def role_from_db_str_def)
    qed
  qed simp
qed

text \<open>The others: the setup, and every request but these two, taken in one step.\<close>

lemma preserves_another [pres_intros]:
  "preserves (another_than name) (create_user X user hash role)"
  "preserves (another_than name) (touch_user_login X user ip)"
  unfolding create_user_def touch_user_login_def Let_def
  by (intro pres_intros preserves_stmt preserves_update_user;
      auto simp: insert_user_Inr other_admin_def active_admin_def)+

lemma setup_keeps_another: "steps_keep (another_than name) (setup_task X cfg cl body)"
  unfolding setup_task_def Let_def by (intro pres_intros)

lemma setup_keeps_admin: "steps_keep admin_remains (setup_task X cfg cl body)"
  unfolding admin_remains_def
  by (rule steps_keep_conj [OF tasks_keep_schema(3)])
     (unfold setup_task_def Let_def, intro pres_intros)

lemma serve_keeps_another:
  assumes "\<And>hs salt u b. req \<noteq> PatchUser hs salt u b" and "\<And>hs u. req \<noteq> DeleteUser hs u"
  shows "preserves (another_than name) (serve E req :: ('z daemon_ext server_ext, response) op)"
  unfolding serve_def
proof (rule preserves_respond)
  show "preserves (another_than name) (dispatch E req :: ('z daemon_ext server_ext, response) op)"
    using assms
    by ((cases req; simp only: dispatch_def Let_def request.case), unfold all_handlers)
       (intro pres_intros preserves_ingest some_user.keeps_project_ops | simp)+
qed

text \<open>The requests that can take an administrator away, and the rest.\<close>

inductive removal :: "('z daemon_ext server_ext, response) task \<Rightarrow> bool" where
  patch: "removal (patch_task X hs salt name body)"
| delete: "removal (delete_task X hs name)"

inductive other_request :: "('z daemon_ext server_ext, response) task \<Rightarrow> bool" where
  first_setup: "other_request (setup_task X cfg cl body)"
| request: "(\<And>hs salt u b. req \<noteq> PatchUser hs salt u b) \<Longrightarrow> (\<And>hs u. req \<noteq> DeleteUser hs u) \<Longrightarrow>
    other_request (call (serve E req))"

interpretation removals: turn_taking other_admins admin_remains removal other_request
proof
  fix p :: "('z daemon_ext server_ext, response) task" and d
  assume "removal p" and "admin_remains d"
  then show "holds_up other_admins admin_remains p d"
    by (cases rule: removal.cases) (simp_all add: holds_up_patch holds_up_delete_task)
next
  fix q :: "('z daemon_ext server_ext, response) task"
  assume "other_request q"
  then show "steps_keep admin_remains q"
    by (cases rule: other_request.cases) (auto intro: setup_keeps_admin steps_keep_call serve_keeps_admin)
next
  fix q :: "('z daemon_ext server_ext, response) task" and J'
  assume "other_request q" and "J' \<in> other_admins"
  then obtain name where J': "J' = another_than name" by (auto simp: other_admins_def)
  from \<open>other_request q\<close> show "steps_keep J' q"
    unfolding J'
  proof cases
    case (request req E)
    then show "steps_keep (another_than name) q"
      using steps_keep_call [OF serve_keeps_another] by blast
  qed (simp add: setup_keeps_another)
qed

section \<open>Overlaps that go wrong\<close>

lemma slid_caller: "slid d d' \<Longrightarrow> caller d' hs = caller d hs"
proof -
  assume "slid d d'"
  then obtain f where f: "\<And>s. f s = s\<lparr>se_last_seen_at := se_last_seen_at (f s)\<rparr>"
    and d': "d' = d\<lparr>sessions := map f (sessions d)\<rparr>"
    by (auto simp: slid_def)
  have k: "se_id (f s) = se_id s" "se_username (f s) = se_username s" for s
    by (subst f, simp)+
  have "find (\<lambda>s. se_id s = sid) (map f ss) = map_option f (find (\<lambda>s. se_id s = sid) ss)" for sid ss
    by (rule find_map_update) (simp add: k)
  then show ?thesis
    by (auto simp: caller_def d' select_session_with_user_def select_user_def k map_option.compositionality
        comp_def split: bind_splits option.splits)
qed

lemma slid_admin_caller: "slid d d' \<Longrightarrow> admin_caller d' hs = admin_caller d hs"
  by (simp add: admin_caller_def slid_caller)

lemma slid_select_user: "slid d d' \<Longrightarrow> select_user name d' = select_user name d"
  by (simp add: select_user_def slid_same)

lemma advance_gate:
  assumes "quiet w" and "admin_caller (w_db w) hs"
  obtains d where "slid (w_db w) d" "advance (behind_gate X hs p) w p (w\<lparr>w_db := d\<rparr>)"
proof -
  obtain ctx d where g: "require_admin X hs w = (Ok (Inr ctx), w\<lparr>w_db := d\<rparr>)" "slid (w_db w) d"
    using require_admin_quiet [OF assms] by metis
  then have "run_prog (check_task X hs) w = (Ok (Inr ()), w\<lparr>w_db := d\<rparr>)"
    by (simp add: check_admin_def bnd_def ret_def)
  from advance_bind [OF this, of "\<lambda>gate. case gate of Inl resp \<Rightarrow> pure resp | Inr _ \<Rightarrow> p"]
  have "advance (behind_gate X hs p) w p (w\<lparr>w_db := d\<rparr>)"
    by (simp add: behind_gate_def)
  with g(2) show thesis by (rule that)
qed

lemma pool_first:
  "advance p w p' w' \<Longrightarrow> q \<noteq> Done Panic \<Longrightarrow> pool_run [p, q] w [p', q] w'"
  using pool_advance [of p w p' w' "[]" "[q]"] by simp

lemma pool_second:
  "advance q w q' w' \<Longrightarrow> p \<noteq> Done Panic \<Longrightarrow> pool_run [p, q] w [p, q'] w'"
  using pool_advance [of q w q' w' "[p]" "[]"] by simp

lemma overlap_three:
  assumes "advance p w p1 w1" and "advance q w1 q1 w2" and "advance p1 w2 p2 w3"
    and "q \<noteq> Done Panic" and "p1 \<noteq> Done Panic" and "q1 \<noteq> Done Panic"
  shows "pool_run [p, q] w [p2, q1] w3"
  by (rule pool_run_trans [OF pool_first [OF assms(3,6)]],
      rule pool_run_trans [OF pool_second [OF assms(2,5)]], rule pool_first [OF assms(1,4)])

lemma overlap:
  assumes "advance p w p1 w1" and "advance q w1 q1 w2" and "advance p1 w2 p2 w3" and "advance q1 w3 q2 w4"
    and "q \<noteq> Done Panic" and "p1 \<noteq> Done Panic" and "q1 \<noteq> Done Panic" and "p2 \<noteq> Done Panic"
  shows "pool_run [p, q] w [p2, q2] w4"
  by (rule pool_run_trans [OF pool_second [OF assms(4,8)]], rule overlap_three [OF assms(1-3,5-7)])

lemma call_not_crashed [simp]: "andThen (call m) k \<noteq> Done r"
  by (simp add: andThen_call)

text \<open>A step whose result is known.\<close>

lemma advance_call:
  "m w = (Ok x, w') \<Longrightarrow> advance (andThen (call m) k) w (k x) w'"
  by (rule advance_bind) simp

lemma gate_not_crashed [simp]: "behind_gate X hs p \<noteq> Done Panic"
  by (auto simp: behind_gate_def check_task_def admin_task_def auth_task_def andThen_assoc pure_def
      split: option.split)

lemma task_not_crashed [simp]:
  "patch_task X hs salt name body \<noteq> Done Panic" "delete_task X hs name \<noteq> Done Panic"
  "setup_task X cfg cl sbody \<noteq> Done Panic"
  by (auto simp: patch_task_def delete_task_def setup_task_def pure_def split: option.split)

text \<open>A PATCH that has passed its checks.\<close>

lemma advance_demotion:
  assumes "quiet w" and "admin_caller (w_db w) hs" and "select_user name (w_db w) = Some u"
    and "us_role u = ''admin''" and "2 \<le> count_where active_admin (users (w_db w))"
  obtains d where "slid (w_db w) d"
    "advance (patch_task X hs salt name (Some demotion)) w
       (patch_apply_task X salt name demotion) (w\<lparr>w_db := d\<rparr>)"
proof -
  let ?k = "\<lambda>verdict. case verdict of Inl resp \<Rightarrow> pure resp | Inr _ \<Rightarrow> patch_apply_task X salt name demotion"
  obtain d where d: "slid (w_db w) d" and gate: "advance (patch_task X hs salt name (Some demotion)) w
      (andThen (patch_checks_task X name demotion) ?k) (w\<lparr>w_db := d\<rparr>)"
    unfolding patch_task_def option.case using advance_gate [OF assms(1,2)] by blast
  have "run_prog (patch_checks_task X name demotion) (w\<lparr>w_db := d\<rparr>) = (Ok (Inr ()), w\<lparr>w_db := d\<rparr>)"
    unfolding run_patch_checks_task
    by (rule patch_checks_demotion [where u = u])
       (use assms d slid_select_user [OF d] slid_same [OF d] in simp_all)
  from advance_bind [OF this, of ?k] have "advance (andThen (patch_checks_task X name demotion) ?k)
      (w\<lparr>w_db := d\<rparr>) (patch_apply_task X salt name demotion) (w\<lparr>w_db := d\<rparr>)"
    by simp
  with d show thesis by (rule that [OF _ advance_trans [OF gate]])
qed

lemma advance_apply_demotion:
  assumes "quiet w" and "select_user name (w_db w) = Some u"
  obtains v where "advance (patch_apply_task X salt name demotion) w (Done (Ok (reply 200 (PUser v))))
    (w\<lparr>w_db := demoted name (w_db w)\<rparr>)"
proof -
  obtain v where "patch_apply X salt name demotion w =
      (Ok (reply 200 (PUser v)), w\<lparr>w_db := demoted name (w_db w)\<rparr>)"
    using patch_apply_demotion [OF assms] by blast
  then have "run_prog (patch_apply_task X salt name demotion) w =
      (Ok (reply 200 (PUser v)), w\<lparr>w_db := demoted name (w_db w)\<rparr>)" by simp
  then show thesis by (rule that [OF advance_run])
qed

lemma apply_not_crashed [simp]: "patch_apply_task X salt name demotion \<noteq> Done Panic"
  by (simp add: patch_apply_task_def demotion_def)

text \<open>A PATCH that has looked its user up for the first time, and a DELETE that completes.\<close>

definition patch_current_task :: "patch_user_body \<Rightarrow> user \<Rightarrow> ('z, response + unit) task" where
  "patch_current_task body current =
     (let demoting = (case pu_role body of
                        Some r \<Rightarrow> r \<noteq> Admin \<and> u_role current = Admin | None \<Rightarrow> False);
          deactivating = (pu_deactivated body = Some True \<and> u_role current = Admin
                          \<and> u_deactivated_at current = None) in
      if demoting \<or> deactivating then
        andThen (call count_active_admins) (\<lambda>n.
        if n \<le> 1
        then pure (Inl (plain 409 ''cannot demote or deactivate the last active admin''))
        else pure (Inr ()))
      else pure (Inr ()))"

lemma case_option_andThen:
  "andThen (case opt of None \<Rightarrow> crash | Some x \<Rightarrow> f x) k = (case opt of None \<Rightarrow> crash | Some x \<Rightarrow> andThen (f x) k)"
  by (cases opt) simp_all

lemma advance_patch_found:
  assumes "quiet w" and "admin_caller (w_db w) hs" and "select_user name (w_db w) = Some u"
    and "pu_password body = None"
  obtains d k where "slid (w_db w) d"
    "advance (patch_task X hs salt name (Some body)) w
       (andThen (call (get_user X name)) (\<lambda>found. case found of None \<Rightarrow> crash | Some cur \<Rightarrow> k cur))
       (w\<lparr>w_db := d\<rparr>)"
proof -
  let ?k = "\<lambda>verdict. case verdict of Inl resp \<Rightarrow> pure resp | Inr _ \<Rightarrow> patch_apply_task X salt name body"
  obtain d where d: "slid (w_db w) d" and gate: "advance (patch_task X hs salt name (Some body)) w
      (andThen (patch_checks_task X name body) ?k) (w\<lparr>w_db := d\<rparr>)"
    unfolding patch_task_def option.case using advance_gate [OF assms(1,2)] by blast
  have found: "get_user X name (w\<lparr>w_db := d\<rparr>) = (Ok (Some (user_of_row X (w_now w) u)), w\<lparr>w_db := d\<rparr>)"
    using assms by (simp add: get_user_def bnd_def query_quiet op_basic slid_select_user [OF d])
  show thesis
  proof (rule that [OF d advance_trans [OF gate]])
    show "advance (andThen (patch_checks_task X name body) ?k) (w\<lparr>w_db := d\<rparr>)
      (andThen (call (get_user X name)) (\<lambda>found. case found of None \<Rightarrow> crash | Some cur \<Rightarrow>
         andThen (patch_current_task body cur) ?k)) (w\<lparr>w_db := d\<rparr>)"
      unfolding patch_checks_task_def andThen_assoc
      by (rule advance_trans, rule advance_call, rule found)
         (simp add: assms(4) andThen_assoc case_option_andThen patch_current_task_def Let_def advance.stay
             cong del: weak_congs)
  qed
qed

lemma deleted_gone: "select_user name (snd (delete_users (\<lambda>u. us_username u = name) d)) = None"
  by (auto simp: select_user_def delete_users_def delete_where_def find_None_iff)

lemma deleted_some: "select_user name d = Some u \<Longrightarrow> 0 < fst (delete_users (\<lambda>u. us_username u = name) d)"
  by (auto simp: select_user_def delete_users_def count_where_def filter_empty_conv dest: find_SomeD)

lemma advance_delete:
  assumes "quiet w" and "admin_caller (w_db w) hs" and "select_user name (w_db w) = Some u"
    and "active_admin u \<Longrightarrow> 2 \<le> count_where active_admin (users (w_db w))"
  obtains d where "select_user name d = None"
    "advance (delete_task X hs name) w (Done (Ok (reply 204 PNone))) (w\<lparr>w_db := d\<rparr>)"
proof -
  let ?p = "andThen (call (get_user X name)) (\<lambda>found.
        case found of
          None \<Rightarrow> pure (plain 404 ''user not found'')
        | Some target \<Rightarrow>
          andThen (if u_role target = Admin \<and> u_deactivated_at target = None
               then andThen (call count_active_admins) (\<lambda>n. pure (n \<le> 1)) else pure False) (\<lambda>last.
          if last then pure (plain 409 ''cannot delete the last active admin'')
          else andThen (call (delete_user name)) (\<lambda>_. pure (reply 204 PNone))))"
  obtain d where d: "slid (w_db w) d" and gate: "advance (delete_task X hs name) w ?p (w\<lparr>w_db := d\<rparr>)"
    unfolding delete_task_def using advance_gate [OF assms(1,2)] by blast
  have "run_prog ?p (w\<lparr>w_db := d\<rparr>) = (Ok (reply 204 PNone),
      w\<lparr>w_db := snd (delete_users (\<lambda>u. us_username u = name) d)\<rparr>)"
    using assms slid_select_user [OF d, of name] slid_same [OF d]
      deleted_some [of name d u]
    by (cases "active_admin u")
       (auto simp: get_user_def delete_user_def count_active_admins_def bnd_def query_quiet exec_quiet
        op_basic user_of_row_def active_admin_def role_from_db_str_def run_cases
        cong del: weak_congs)
  from advance_trans [OF gate advance_run [OF this]] show thesis
    by (rule that [OF deleted_gone])
qed

text \<open>A setup that has passed its checks, and one that then writes.\<close>

definition acceptable_setup :: "externs \<Rightarrow> app_config \<Rightarrow> client \<Rightarrow> setup_body \<Rightarrow> bool" where
  "acceptable_setup X cfg cl b \<longleftrightarrow>
     cf_setup_token cfg = Some (sb_token b) \<and> trim (sb_username b) \<noteq> [] \<and>
     length (trim (sb_username b)) \<le> 64 \<and> validate_password_strength (sb_password b) = Inr () \<and>
     hash_password X (cl_salt cl) (sb_password b) \<noteq> None"

definition setup_writes_task ::
  "externs \<Rightarrow> app_config \<Rightarrow> client \<Rightarrow> setup_body \<Rightarrow> ('z, response) task" where
  "setup_writes_task X cfg cl b =
     (let username = trim (sb_username b); sid = generate_session_id (cl_session_bytes cl);
          ip = Some (extract_client_ip (cl_headers cl) (cl_peer cl) (cf_trust_proxy_headers cfg)) in
      andThen (call (create_user X username (the (hash_password X (cl_salt cl) (sb_password b))) Admin)) (\<lambda>_.
      andThen (call (create_session X sid username ip (client_user_agent (cl_headers cl)))) (\<lambda>_.
      andThen (call (touch_user_login X username ip)) (\<lambda>_.
      pure (reply 201 (PAccount username Admin)
        \<lparr>re_cookie := Some (build_session_cookie sid (cf_dev_mode cfg))\<rparr>)))))"

lemma advance_after:
  "m w = (Ok x, w1) \<Longrightarrow> advance (k x) w1 q w' \<Longrightarrow> advance (andThen (call m) k) w q w'"
  by (rule advance_trans [OF advance_call])

lemma advance_setup_checks:
  assumes "acceptable_setup X cfg cl b" and "quiet w" and "users (w_db w) = []" and "attempts (w_db w) = []"
  shows "advance (setup_task X cfg cl (Some b)) w (setup_writes_task X cfg cl b) w"
proof -
  have none: "user_count w = (Ok 0, w)" by (simp add: user_count_def query_quiet assms)
  have calm: "bnd utc_now (\<lambda>now. count_recent_failures_for_ip X ip (now - lp_window default_policy)) w = (Ok 0, w)"
    for ip
    by (simp add: count_recent_failures_for_ip_def bnd_utc_now query_quiet assms count_where_def)
  have free: "retry_after_secs (lockout_evaluate default_policy 0 (int 0)) = None" by code_simp
  show ?thesis
    unfolding setup_task_def option.case
  proof (rule advance_after, rule none, goal_cases)
    case 1
    from assms(1) have token: "cf_setup_token cfg = Some (sb_token b)" by (simp add: acceptable_setup_def)
    show ?case
    proof (simp only: token less_irrefl if_False option.case Let_def, rule advance_after, rule calm, goal_cases)
      case 1
      from assms(1) show ?case
        by (auto simp: acceptable_setup_def free [simplified] setup_writes_task_def Let_def advance.stay)
    qed
  qed
qed

lemma update_where_append:
  "update_where P f (xs @ ys) = update_where P f xs @ update_where P f ys"
  by (simp add: update_where_def)

lemma advance_setup_writes:
  assumes "quiet w" and "trim (sb_username b) \<notin> us_username ` set (users (w_db w))"
    and "generate_session_id (cl_session_bytes cl) \<notin> se_id ` set (sessions (w_db w))"
  obtains d u s where
    "advance (setup_writes_task X cfg cl b) w
       (Done (Ok (reply 201 (PAccount (trim (sb_username b)) Admin)
          \<lparr>re_cookie := Some (build_session_cookie (generate_session_id (cl_session_bytes cl)) (cf_dev_mode cfg))\<rparr>)))
       (w\<lparr>w_db := d\<rparr>)"
    "users d = users (w_db w) @ [u]" "us_username u = trim (sb_username b)" "active_admin u"
    "sessions d = sessions (w_db w) @ [s]" "se_id s = generate_session_id (cl_session_bytes cl)"
proof -
  let ?ip = "Some (extract_client_ip (cl_headers cl) (cl_peer cl) (cf_trust_proxy_headers cfg))"
  let ?now = "x_rfc3339 X (w_now w)" and ?name = "trim (sb_username b)"
  let ?u = "\<lparr>us_username = ?name,
      us_password_hash = the (hash_password X (cl_salt cl) (sb_password b)), us_role = ''admin'',
      us_created_at = ?now, us_last_login_at = Some ?now, us_last_login_ip = ?ip, us_deactivated_at = None\<rparr>"
  let ?s = "\<lparr>se_id = generate_session_id (cl_session_bytes cl), se_username = ?name, se_created_at = ?now,
      se_last_seen_at = ?now, se_ip = ?ip, se_user_agent = client_user_agent (cl_headers cl)\<rparr>"
  have names: "\<forall>v \<in> set (users (w_db w)). us_username v \<noteq> ?name" using assms(2) by force
  have sids: "\<forall>r \<in> set (sessions (w_db w)). se_id r \<noteq> generate_session_id (cl_session_bytes cl)"
    using assms(3) by force
  have fresh: "update_where (\<lambda>u. us_username u = ?name) f (users (w_db w)) = users (w_db w)" for f
    using assms(2) by (auto simp: update_where_def image_iff intro!: map_idI)
  have "run_prog (setup_writes_task X cfg cl b) w = (Ok (reply 201 (PAccount ?name Admin)
          \<lparr>re_cookie := Some (build_session_cookie (generate_session_id (cl_session_bytes cl)) (cf_dev_mode cfg))\<rparr>),
       w\<lparr>w_db := (w_db w)\<lparr>users := users (w_db w) @ [?u], sessions := sessions (w_db w) @ [?s]\<rparr>\<rparr>)"
    using assms(1) fresh names sids
    by (simp add: setup_writes_task_def Let_def create_user_def create_session_def touch_user_login_def
        best_effort_def bnd_def try_op_def stmt_quiet run_stmt_def insert_user_def insert_session_def
        exec_quiet op_basic update_user_def update_where_append role_as_str_def image_iff)
  then show thesis
    by (rule that [OF advance_run [where p = "setup_writes_task X cfg cl b"]]) (simp add: active_admin_def)+
qed

lemma setup_writes_not_crashed [simp]: "setup_writes_task X cfg cl b \<noteq> Done Panic"
  by (simp add: setup_writes_task_def Let_def)

text \<open>Ann and Bob, both administrators.\<close>

definition duo_world :: world where
  "duo_world = demo_world\<lparr>w_db := demo_db\<lparr>users := [demo_user ''ann'' ''admin'', demo_user ''bob'' ''admin'']\<rparr>\<rparr>"

lemma duo_schema: "schema_ok (w_db duo_world)"
  by (simp add: duo_world_def schema_defs demo_defs issue_key_def)

lemma duo_quiet: "quiet duo_world"
  by (simp add: duo_world_def demo_world_def quiet_def)

lemma duo_admin: "admin_caller (w_db duo_world) [(''cookie'', ''errex_session=s-ann'')]"
  by (simp add: admin_caller_def caller_def demo_admin_cookie select_session_with_user_def select_user_def
      duo_world_def demo_db_def demo_session_def demo_user_def)

lemma duo_users: "users (w_db duo_world) = [demo_user ''ann'' ''admin'', demo_user ''bob'' ''admin'']"
  by (simp add: duo_world_def)

section \<open>Properties\<close>




text \<open>C29: the check that protects the last administrator can be overtaken. When exactly two accounts are
  active administrators and two PATCH requests that demote one each pass their checks before either
  is applied, both answer 200 and nobody can administer the daemon any more.\<close>

theorem overlapping_demotions_lose_the_last_admin:
  assumes "schema_ok (w_db w)" and "quiet w" and "a \<noteq> b"
    and "filter active_admin (users (w_db w)) = [u, v]" and "us_username u = a" and "us_username v = b"
    and "admin_caller (w_db w) hs" and "admin_caller (w_db w) hs'"
  shows "\<exists>p q w'. pool_run
      [patch_task X hs salt a (Some demotion), patch_task X hs' salt' b (Some demotion)] w
      [Done (Ok (reply 200 (PUser p))), Done (Ok (reply 200 (PUser q)))] w' \<and>
    users (w_db w') \<noteq> [] \<and> \<not> list_ex active_admin (users (w_db w'))"
proof -
  have mem: "u \<in> set (users (w_db w))" "v \<in> set (users (w_db w))" and act: "active_admin u" "active_admin v"
    using arg_cong [OF assms(4), of set] by auto
  then have sel: "select_user a (w_db w) = Some u" "select_user b (w_db w) = Some v"
    using select_user_member [OF assms(1)] assms(5,6) by blast+
  have two: "2 \<le> count_where active_admin (users (w_db w))" by (simp add: count_where_def assms(4))
  have role: "us_role u = ''admin''" "us_role v = ''admin''" using act by (simp_all add: active_admin_def)
  obtain d where d: "slid (w_db w) d" and first: "advance (patch_task X hs salt a (Some demotion)) w
      (patch_apply_task X salt a demotion) (w\<lparr>w_db := d\<rparr>)"
    using advance_demotion [OF assms(2,7) sel(1) role(1) two] by blast
  let ?w = "w\<lparr>w_db := d\<rparr>"
  obtain e where e: "slid d e" and second: "advance (patch_task X hs' salt' b (Some demotion)) ?w
      (patch_apply_task X salt' b demotion) (w\<lparr>w_db := e\<rparr>)"
    using advance_demotion [of ?w hs' b v X salt'] assms(2,8) sel(2) role(2) two
      slid_same [OF d] slid_select_user [OF d] slid_admin_caller [OF d] by auto
  let ?d = "demoted b (demoted a e)"
  have users: "users e = users (w_db w)" and sele: "select_user a e = Some u" "select_user b e = Some v"
    using slid_same [OF d] slid_same [OF e] sel slid_select_user [OF d] slid_select_user [OF e] by simp_all
  obtain p where third: "advance (patch_apply_task X salt a demotion) (w\<lparr>w_db := e\<rparr>)
      (Done (Ok (reply 200 (PUser p)))) (w\<lparr>w_db := demoted a e\<rparr>)"
    using advance_apply_demotion [of "w\<lparr>w_db := e\<rparr>" a u X salt] assms(2) sele(1) by auto
  obtain q where fourth: "advance (patch_apply_task X salt' b demotion) (w\<lparr>w_db := demoted a e\<rparr>)
      (Done (Ok (reply 200 (PUser q)))) (w\<lparr>w_db := ?d\<rparr>)"
    using advance_apply_demotion [of "w\<lparr>w_db := demoted a e\<rparr>" b _ X salt'] assms(2) sele(2)
    by (auto simp: select_demoted)
  have "\<not> active_admin r" if "r \<in> set (users ?d)" for r
  proof
    assume r: "active_admin r"
    then have "r \<in> set (users e)" "us_username r \<noteq> a" "us_username r \<noteq> b"
      using not_demoted [OF that] not_demoted [of r a e] by (simp_all add: active_admin_def)
    moreover from this r have "r \<in> set [u, v]"
      unfolding assms(4) [symmetric] by (simp add: users)
    ultimately show False using assms(5,6) by auto
  qed
  moreover have "users ?d \<noteq> []" using mem users by (auto simp: demoted_def update_where_def)
  moreover have "pool_run [patch_task X hs salt a (Some demotion), patch_task X hs' salt' b (Some demotion)] w
      [Done (Ok (reply 200 (PUser p))), Done (Ok (reply 200 (PUser q)))] (w\<lparr>w_db := ?d\<rparr>)"
    by (rule overlap [OF first second third fourth]) simp_all
  ultimately show ?thesis by (intro exI conjI) (auto simp: list_ex_iff)
qed

theorem overlapping_demotions_lose_the_last_admin_witness:
  "\<exists>p q w'. pool_run
     [patch_task demo_externs [(''cookie'', ''errex_session=s-ann'')] ''salt'' ''ann'' (Some demotion),
      patch_task demo_externs [(''cookie'', ''errex_session=s-ann'')] ''salt'' ''bob'' (Some demotion)]
     duo_world
     [Done (Ok (reply 200 (PUser p))), Done (Ok (reply 200 (PUser q)))] w' \<and>
   users (w_db w') \<noteq> [] \<and> \<not> list_ex active_admin (users (w_db w'))"
  by (rule overlapping_demotions_lose_the_last_admin [OF duo_schema duo_quiet _ _ _ _ duo_admin duo_admin,
        where u = "demo_user ''ann'' ''admin''" and v = "demo_user ''bob'' ''admin''"])
     (simp_all add: duo_users, simp_all add: demo_user_def active_admin_def)

text \<open>C30: a DELETE that overlaps a PATCH of the same user brings the daemon down. After its first look
  at the user the PATCH expects to find it again; if the DELETE ran in between, answering 204, the
  PATCH panics, and no request of the pool takes another step.\<close>

theorem overlapping_delete_crashes_the_daemon:
  assumes "quiet w" and "admin_caller (w_db w) hs" and "admin_caller (w_db w) hs'"
    and "select_user name (w_db w) = Some u" and "pu_password body = None"
    and "active_admin u \<Longrightarrow> 2 \<le> count_where active_admin (users (w_db w))"
  shows "\<exists>d. pool_run [patch_task X hs salt name (Some body), delete_task X hs' name] w
      [Done Panic, Done (Ok (reply 204 PNone))] (w\<lparr>w_db := d\<rparr>) \<and>
    \<not> (\<exists>ps w'. pool_step ([Done Panic, Done (Ok (reply 204 PNone))] @ rest) (w\<lparr>w_db := d\<rparr>) ps w')"
proof -
  obtain d k where d: "slid (w_db w) d" and first: "advance (patch_task X hs salt name (Some body)) w
      (andThen (call (get_user X name)) (\<lambda>found. case found of None \<Rightarrow> crash | Some cur \<Rightarrow> k cur)) (w\<lparr>w_db := d\<rparr>)"
    using advance_patch_found [OF assms(1,2,4,5)] by blast
  obtain e where e: "select_user name e = None"
    and second: "advance (delete_task X hs' name) (w\<lparr>w_db := d\<rparr>) (Done (Ok (reply 204 PNone))) (w\<lparr>w_db := e\<rparr>)"
    using advance_delete [of "w\<lparr>w_db := d\<rparr>" hs' name u X] assms
      slid_same [OF d] slid_select_user [OF d] slid_admin_caller [OF d] by auto
  have gone: "get_user X name (w\<lparr>w_db := e\<rparr>) = (Ok None, w\<lparr>w_db := e\<rparr>)"
    using assms(1) e by (simp add: get_user_def bnd_def query_quiet op_basic)
  have third: "advance (andThen (call (get_user X name)) (\<lambda>found. case found of None \<Rightarrow> crash | Some cur \<Rightarrow> k cur))
      (w\<lparr>w_db := e\<rparr>) (Done Panic) (w\<lparr>w_db := e\<rparr>)"
    by (rule advance_after, rule gone) (simp add: crash_def advance.stay)
  have "pool_run [patch_task X hs salt name (Some body), delete_task X hs' name] w
      [Done Panic, Done (Ok (reply 204 PNone))] (w\<lparr>w_db := e\<rparr>)"
    by (rule overlap_three [OF first second third]) simp_all
  then show ?thesis by (auto simp: crashed_def elim!: pool_step.cases)
qed

theorem overlapping_delete_crashes_the_daemon_witness:
  "\<exists>d. pool_run [patch_task demo_externs [(''cookie'', ''errex_session=s-ann'')] ''salt'' ''bob'' (Some demotion),
        delete_task demo_externs [(''cookie'', ''errex_session=s-ann'')] ''bob''] demo_db_world
      [Done Panic, Done (Ok (reply 204 PNone))] (demo_db_world\<lparr>w_db := d\<rparr>) \<and>
    \<not> (\<exists>ps w'. pool_step ([Done Panic, Done (Ok (reply 204 PNone))] @ []) (demo_db_world\<lparr>w_db := d\<rparr>) ps w')"
  by (rule overlapping_delete_crashes_the_daemon [where u = "demo_user ''bob'' ''viewer''", OF _ demo_admin demo_admin])
     (simp_all add: demo_defs quiet_def demotion_def select_user_def active_admin_def)

text \<open>C31: first-run setup is not exclusive. On an empty database two setup requests with the right token,
  different names and different session ids can both be answered 201, each leaving an active
  administrator and a session.\<close>

theorem overlapping_setups_make_two_admins:
  assumes "quiet w" and "users (w_db w) = []" and "attempts (w_db w) = []" and "sessions (w_db w) = []"
    and "acceptable_setup X cfg cl b" and "acceptable_setup X cfg cl' b'"
    and "trim (sb_username b) \<noteq> trim (sb_username b')"
    and "generate_session_id (cl_session_bytes cl) \<noteq> generate_session_id (cl_session_bytes cl')"
  shows "\<exists>r r' u v w'. pool_run [setup_task X cfg cl (Some b), setup_task X cfg cl' (Some b')] w
      [Done (Ok r), Done (Ok r')] w' \<and> re_status r = 201 \<and> re_status r' = 201 \<and>
    users (w_db w') = [u, v] \<and> active_admin u \<and> active_admin v \<and> length (sessions (w_db w')) = 2"
proof -
  have checks: "advance (setup_task X cfg cl (Some b)) w (setup_writes_task X cfg cl b) w"
    "advance (setup_task X cfg cl' (Some b')) w (setup_writes_task X cfg cl' b') w"
    using assms by (simp_all add: advance_setup_checks)
  obtain d u s where first: "advance (setup_writes_task X cfg cl b) w
       (Done (Ok (reply 201 (PAccount (trim (sb_username b)) Admin)
          \<lparr>re_cookie := Some (build_session_cookie (generate_session_id (cl_session_bytes cl)) (cf_dev_mode cfg))\<rparr>)))
       (w\<lparr>w_db := d\<rparr>)"
    and d: "users d = [u]" "us_username u = trim (sb_username b)" "active_admin u"
      "sessions d = [s]" "se_id s = generate_session_id (cl_session_bytes cl)"
    using advance_setup_writes [OF assms(1), of b cl X cfg] assms(2,4) by auto
  obtain e v t where second: "advance (setup_writes_task X cfg cl' b') (w\<lparr>w_db := d\<rparr>)
       (Done (Ok (reply 201 (PAccount (trim (sb_username b')) Admin)
          \<lparr>re_cookie := Some (build_session_cookie (generate_session_id (cl_session_bytes cl')) (cf_dev_mode cfg))\<rparr>)))
       (w\<lparr>w_db := e\<rparr>)"
    and e: "users e = [u, v]" "active_admin v" "sessions e = [s, t]"
    by (rule advance_setup_writes [of "w\<lparr>w_db := d\<rparr>" b' cl' X cfg]) (use assms(1,7,8) d in auto)
  have "\<exists>r r' w'. pool_run [setup_task X cfg cl (Some b), setup_task X cfg cl' (Some b')] w
      [Done (Ok r), Done (Ok r')] w' \<and> re_status r = 201 \<and> re_status r' = 201 \<and> w_db w' = e"
    by (intro exI conjI, rule overlap [OF checks first second]) simp_all
  with d(3) e show ?thesis by (metis One_nat_def Suc_1 length_Cons list.size(3))
qed

theorem overlapping_setups_make_two_admins_witness:
  "\<exists>r r' u v w'. pool_run
     [setup_task demo_externs demo_config demo_client
        (Some \<lparr>sb_token = ''setup-secret'', sb_username = ''ann'', sb_password = ''correct horse''\<rparr>),
      setup_task demo_externs demo_config (demo_client\<lparr>cl_session_bytes := (replicate 16 (CHR 0x03), replicate 16 (CHR 0x04))\<rparr>)
        (Some \<lparr>sb_token = ''setup-secret'', sb_username = ''eve'', sb_password = ''correct horse''\<rparr>)] demo_world
     [Done (Ok r), Done (Ok r')] w' \<and> re_status r = 201 \<and> re_status r' = 201 \<and>
   users (w_db w') = [u, v] \<and> active_admin u \<and> active_admin v \<and> length (sessions (w_db w')) = 2"
  by (rule overlapping_setups_make_two_admins) (simp add: demo_world_def empty_db_def quiet_def | code_simp)+

end
