(* ===== verification/Calendar.thy ===== *)
theory Calendar
  imports Prelude
begin

text \<open>
  The calendar of \<open>scripts/stress/src/main.rs\<close>, which the load harness uses instead of a date crate:
  \<open>ymd_to_days\<close> (a date to days since 1970-01-01) and \<open>days_to_ymd\<close> (back). Years count from
  March, so that the leap day is the last day of its year, and come in eras of 400.

  The reference is the Gregorian calendar stated the usual way, with leap years and the lengths
  of the months. Casts to \<open>u64\<close> and \<open>i64\<close> are written out, since a day zero takes the one and the
  other out of their range.
\<close>

section \<open>The code\<close>

definition as_u64 :: "int \<Rightarrow> int" where
  "as_u64 i = i mod 2 ^ 64"

definition as_i64 :: "int \<Rightarrow> int" where
  "as_i64 i = (i + 2 ^ 63) mod 2 ^ 64 - 2 ^ 63"

definition as_u32 :: "int \<Rightarrow> int" where
  "as_u32 i = i mod 2 ^ 32"

definition as_i32 :: "int \<Rightarrow> int" where
  "as_i32 i = (i + 2 ^ 31) mod 2 ^ 32 - 2 ^ 31"

definition ymd_to_days :: "int \<Rightarrow> int \<Rightarrow> int \<Rightarrow> int" where
  "ymd_to_days year m d =
     (let y = as_i32 (if m \<le> 2 then year - 1 else year);
          era = trunc_div (if y \<ge> 0 then y else as_i32 (y - 399)) 400;
          yoe = as_u64 (as_i32 (y - era * 400));
          doy = as_u64 ((153 * as_u32 (if m > 2 then m - 3 else m + 9) + 2) div 5 + d - 1);
          doe = as_u64 (yoe * 365 + yoe div 4 - yoe div 100 + doy)
      in as_i64 (era * 146097 + as_i64 doe - 719468))"

definition days_to_ymd :: "int \<Rightarrow> int \<times> int \<times> int" where
  "days_to_ymd since_epoch =
     (let days = as_i64 (since_epoch + 719468);
          era = days div 146097;
          doe = days mod 146097;
          yoe = as_u64 (doe - doe div 1460 + doe div 36524 - doe div 146096) div 365;
          y = yoe + era * 400;
          doy = as_u64 (doe - (365 * yoe + yoe div 4 - yoe div 100));
          mp = (5 * doy + 2) div 153;
          d = as_u32 (doy - (153 * mp + 2) div 5 + 1);
          m = as_u32 (if mp < 10 then mp + 3 else mp - 9);
          y = (if m \<le> 2 then y + 1 else y)
      in (as_i32 y, m, d))"

lemma as_u64_id: "0 \<le> i \<Longrightarrow> i < 18446744073709551616 \<Longrightarrow> as_u64 i = i"
  by (simp add: as_u64_def)

lemma as_u32_id: "0 \<le> i \<Longrightarrow> i < 4294967296 \<Longrightarrow> as_u32 i = i"
  by (simp add: as_u32_def)

lemma as_i64_id: "- 9223372036854775808 \<le> i \<Longrightarrow> i < 9223372036854775808 \<Longrightarrow> as_i64 i = i"
  by (simp add: as_i64_def)

lemma as_i32_id: "- 2147483648 \<le> i \<Longrightarrow> i < 2147483648 \<Longrightarrow> as_i32 i = i"
  by (simp add: as_i32_def)

section \<open>The reference\<close>

definition leap_year :: "int \<Rightarrow> bool" where
  "leap_year y \<longleftrightarrow> y mod 4 = 0 \<and> (y mod 100 = 0 \<longrightarrow> y mod 400 = 0)"

definition month_days :: "int \<Rightarrow> int \<Rightarrow> int" where
  "month_days y m =
     (if m = 2 then (if leap_year y then 29 else 28)
      else if m \<in> {4, 6, 9, 11} then 30 else 31)"

definition valid_date :: "int \<Rightarrow> int \<Rightarrow> int \<Rightarrow> bool" where
  "valid_date y m d \<longleftrightarrow> 1 \<le> m \<and> m \<le> 12 \<and> 1 \<le> d \<and> d \<le> month_days y m"

definition next_date :: "int \<times> int \<times> int \<Rightarrow> int \<times> int \<times> int" where
  "next_date = (\<lambda>(y, m, d).
     if d < month_days y m then (y, m, d + 1)
     else if m < 12 then (y, m + 1, 1)
     else (y + 1, 1, 1))"

text \<open>Years in which no intermediate value leaves its type.\<close>

definition year_in_range :: "int \<Rightarrow> bool" where
  "year_in_range y \<longleftrightarrow> - 1000000 \<le> y \<and> y \<le> 1000000"

text \<open>Over the integers, the day number is a sum of a part for the year and one for the day in it.\<close>

definition march_year :: "int \<Rightarrow> int \<Rightarrow> int" where
  "march_year y m = (if m \<le> 2 then y - 1 else y)"

definition march_month :: "int \<Rightarrow> int" where
  "march_month m = (if m \<le> 2 then m + 9 else m - 3)"

definition march_day :: "int \<Rightarrow> int \<Rightarrow> int" where
  "march_day m d = (153 * march_month m + 2) div 5 + d - 1"

definition year_start :: "int \<Rightarrow> int" where
  "year_start y = 365 * y + y div 4 - y div 100 + y div 400"

lemma div_400_mirror: fixes y:: int shows "(399 - y) div 400 = - (y div 400)"
  by linarith
lemma trunc_div_400:
  "trunc_div (if y \<ge> 0 then y else y - 399) 400 = (y :: int) div 400"
proof (cases "0 \<le> y")
  case False
  then have "trunc_div (y - 399) 400 = - ((399 - y) div 400)"
    unfolding trunc_div_def by simp
  with False show ?thesis unfolding div_400_mirror by simp
next
  case True
  then show ?thesis unfolding trunc_div_def by simp
qed

lemma div_of_era:
  fixes y a k :: int
  assumes "a \<noteq> 0"
  shows "y div a = y mod (a * k) div a + k * (y div (a * k))"
proof -
  have "y = y mod (a * k) + a * (k * (y div (a * k)))"
    by (simp add: mult.assoc [symmetric])
  then have "y div a = (y mod (a * k) + a * (k * (y div (a * k)))) div a" by metis
  then show ?thesis using assms by simp
qed

lemma year_start_era:
  "year_start y = (y div 400) * 146097 + (y mod 400) * 365 + (y mod 400) div 4 - (y mod 400) div 100"
proof -
  have "365 * y = 365 * (y mod 400) + 146000 * (y div 400)"
    using mod_mult_div_eq [of y 400] by linarith
  then show ?thesis
    using div_of_era [of 4 y 100] div_of_era [of 100 y 4] by (simp add: year_start_def)
qed

lemma march_month_bounds: "0 \<le> m \<Longrightarrow> m \<le> 99 \<Longrightarrow> 0 \<le> march_month m \<and> march_month m \<le> 96"
  by (simp add: march_month_def)

lemma ymd_to_days_eq:
  assumes "year_in_range y" and "0 \<le> m" and "m \<le> 99" and "0 \<le> d" and "d \<le> 99"
    and "1 \<le> d \<or> m \<noteq> 3"
  shows "ymd_to_days y m d = year_start (march_year y m) + march_day m d - 719468"
proof -
  define z where "z = march_year y m"
  define k where "k = march_month m"
  have zb: "- 1000001 \<le> z" "z \<le> 1000000"
    using assms(1) by (auto simp: z_def march_year_def year_in_range_def)
  have z: "as_i32 (if m \<le> 2 then y - 1 else y) = z"
    using zb unfolding z_def march_year_def by (simp add: as_i32_id)
  have z': "(if z \<ge> 0 then z else as_i32 (z - 399)) = (if z \<ge> 0 then z else z - 399)"
    using zb by (simp add: as_i32_id)
  have kb: "0 \<le> k" "k \<le> 96"
    using march_month_bounds assms(2,3) by (auto simp: k_def)
  have k: "as_u32 (if m > 2 then m - 3 else m + 9) = k"
    using kb unfolding k_def march_month_def by (auto simp: as_u32_id split: if_splits)
  have "k = 0 \<longrightarrow> m = 3"
    using assms(2) by (auto simp: k_def march_month_def split: if_splits)
  then have d: "1 \<le> d \<or> 1 \<le> k" using assms(6) kb by linarith
  define r where "r = z mod 400"
  have rb: "0 \<le> r" "r < 400" by (simp_all add: r_def)
  have zr: "z - z div 400 * 400 = r" by (simp add: r_def minus_div_mult_eq_mod)
  have r: "as_u64 (as_i32 (z - z div 400 * 400)) = r"
    unfolding zr using rb by (simp add: as_u64_id as_i32_id)
  define dy where "dy = (153 * k + 2) div 5 + d - 1"
  have dyb: "0 \<le> dy" "dy \<le> 10000"
    using kb d assms(4,5) unfolding dy_def by linarith+
  have dy: "as_u64 dy = dy" by (rule as_u64_id) (use dyb in linarith)+
  define de where "de = r * 365 + r div 4 - r div 100 + dy"
  have deb: "0 \<le> de" "de \<le> 210000"
    using rb dyb unfolding de_def by linarith+
  have de: "as_i64 (as_u64 de) = de"
    using deb by (simp add: as_u64_id as_i64_id)
  have eb: "- 2501 \<le> z div 400" "z div 400 \<le> 2500" using zb by linarith+
  have "as_i64 (z div 400 * 146097 + de - 719468) = z div 400 * 146097 + de - 719468"
    by (rule as_i64_id) (use eb deb in linarith)+
  then have "ymd_to_days y m d = z div 400 * 146097 + de - 719468"
    unfolding ymd_to_days_def Let_def z z' trunc_div_400 k r dy_def [symmetric] dy de_def [symmetric] de .
  then show ?thesis
    by (simp add: de_def dy_def r_def year_start_era z_def [symmetric] k_def [symmetric] march_day_def)
qed

section \<open>Following the calendar\<close>

lemma div_succ:
  fixes y n :: int
  assumes "0 < n"
  shows "(y + 1) div n = y div n + (if (y + 1) mod n = 0 then 1 else 0)"
proof -
  have y: "y = y div n * n + y mod n" by simp
  have m: "0 \<le> y mod n" "y mod n < n" using assms by simp_all
  show ?thesis
  proof (cases "y mod n + 1 = n")
    case True
    then have "y + 1 = y div n * n + n" using y by linarith
    then have e: "y + 1 = (y div n + 1) * n" by (simp add: distrib_right)
    have "(y + 1) div n = y div n + 1" "(y + 1) mod n = 0" unfolding e using assms by simp_all
    then show ?thesis by simp
  next
    case False
    have e: "y + 1 = (y mod n + 1) + y div n * n" using y by linarith
    have lt: "y mod n + 1 < n" using m False by linarith
    have "(y + 1) mod n = (y mod n + 1) mod n" by (simp add: mod_add_left_eq)
    also have "\<dots> = y mod n + 1" by (rule mod_pos_pos_trivial) (use m lt in linarith)+
    finally have md: "(y + 1) mod n = y mod n + 1" .
    have "(y + 1) div n = y div n + (y mod n + 1) div n"
      unfolding e by (rule div_mult_self1) (use assms in simp)
    also have "(y mod n + 1) div n = 0" by (rule div_pos_pos_trivial) (use m lt in linarith)+
    finally show ?thesis using md m by simp
  qed
qed

lemma mod_400_100: "(y :: int) mod 400 = 0 \<Longrightarrow> y mod 100 = 0"
  using mod_mod_cancel [of 100 400 y] by simp

lemma mod_100_4: "(y :: int) mod 100 = 0 \<Longrightarrow> y mod 4 = 0"
  using mod_mod_cancel [of 4 100 y] by simp

lemma leap_count:
  fixes P Q R :: bool
  assumes "R \<longrightarrow> Q" and "Q \<longrightarrow> P"
  shows "(if P then 1 else 0) - (if Q then 1 else 0) + (if R then 1 else 0) =
    (if P \<and> (Q \<longrightarrow> R) then 1 else 0 :: int)"
  using assms by (cases P; cases Q; cases R; simp)

lemma year_start_succ: "year_start (y + 1) = year_start y + (if leap_year (y + 1) then 366 else 365)"
proof -
  let ?k = "\<lambda>n. if (y + 1) mod n = 0 then 1 else 0 :: int"
  have d: "(y + 1) div n = y div n + ?k n" if "0 < n" for n
    using that by (rule div_succ)
  have "?k 4 - ?k 100 + ?k 400 = (if leap_year (y + 1) then 1 else 0)"
    unfolding leap_year_def by (rule leap_count) (rule impI, erule mod_400_100, rule impI, erule mod_100_4)
  moreover have "year_start (y + 1) = year_start y + 365 + (?k 4 - ?k 100 + ?k 400)"
    unfolding year_start_def d [of 4, simplified] d [of 100, simplified] d [of 400, simplified]
    by (simp only: algebra_simps)
  ultimately show ?thesis by (simp only: if_distrib) (simp split: if_splits)
qed

text \<open>The ordinal of a valid date, without casts.\<close>

definition ordinal :: "int \<Rightarrow> int \<Rightarrow> int \<Rightarrow> int" where
  "ordinal y m d = year_start (march_year y m) + march_day m d - 719468"

lemma month_days_bounds: "28 \<le> month_days y m \<and> month_days y m \<le> 31"
  by (simp add: month_days_def)

lemma month_range: "1 \<le> (m :: int) \<Longrightarrow> m \<le> 12 \<Longrightarrow> m \<in> {1, 2, 3, 4, 5, 6, 7, 8, 9, 10, 11, 12}"
  by (simp, presburger)

lemma month_end:
  assumes "m \<in> {1, 3, 4, 5, 6, 7, 8, 9, 10, 11}"
  shows "march_year y (m + 1) = march_year y m \<and> march_day (m + 1) 1 = march_day m (month_days y m) + 1"
  using assms unfolding insert_iff empty_iff
  by (elim disjE) (simp_all add: march_year_def march_day_def march_month_def month_days_def)

lemma february_end:
  "year_start y + march_day 3 1 = year_start (y - 1) + march_day 2 (month_days y 2) + 1"
  using year_start_succ [of "y - 1"]
  by (simp add: march_day_def march_month_def month_days_def split: if_splits)

lemma ordinal_month_end:
  assumes "1 \<le> m" and "m < 12"
  shows "ordinal y (m + 1) 1 = ordinal y m (month_days y m) + 1"
proof (cases "m = 2")
  case True
  then show ?thesis using february_end [of y] by (simp add: ordinal_def march_year_def)
next
  case False
  then have "m \<in> {1, 3, 4, 5, 6, 7, 8, 9, 10, 11}" using month_range [of m] assms by auto
  then show ?thesis using month_end [of m y] by (simp add: ordinal_def)
qed

lemma ordinal_year_end: "ordinal (y + 1) 1 1 = ordinal y 12 (month_days y 12) + 1"
  by (simp add: ordinal_def march_year_def march_day_def march_month_def month_days_def)

lemma ordinal_next:
  assumes "valid_date y m d" and "next_date (y, m, d) = (y', m', d')"
  shows "valid_date y' m' d' \<and> ordinal y' m' d' = ordinal y m d + 1"
proof (cases "d < month_days y m")
  case True
  then show ?thesis
    using assms by (auto simp: next_date_def valid_date_def ordinal_def march_day_def)
next
  case False
  then have d: "d = month_days y m" and m: "1 \<le> m" "m \<le> 12"
    using assms(1) by (auto simp: valid_date_def)
  show ?thesis
  proof (cases "m < 12")
    case True
    then have "y' = y" "m' = m + 1" "d' = 1" using assms(2) False by (auto simp: next_date_def)
    then show ?thesis
      using ordinal_month_end [of m y] True m d month_days_bounds [of y "m + 1"]
      by (simp add: valid_date_def)
  next
    case no: False
    then have "m = 12" "y' = y + 1" "m' = 1" "d' = 1"
      using assms(2) False m by (auto simp: next_date_def)
    then show ?thesis
      using ordinal_year_end [of y] d month_days_bounds [of "y + 1" 1] by (simp add: valid_date_def)
  qed
qed

lemma ymd_to_days_ordinal:
  assumes "year_in_range y" and "valid_date y m d"
  shows "ymd_to_days y m d = ordinal y m d"
  unfolding ordinal_def
  using assms month_days_bounds [of y m] by (intro ymd_to_days_eq) (auto simp: valid_date_def)

section \<open>Back from day numbers\<close>

definition yoe_of :: "int \<Rightarrow> int" where
  "yoe_of doe = (doe - doe div 1460 + doe div 36524 - doe div 146096) div 365"

definition cycle_start :: "int \<Rightarrow> int" where
  "cycle_start r = r * 365 + r div 4 - r div 100"

definition cycle_len :: "int \<Rightarrow> int" where
  "cycle_len r = (if leap_year (r + 1) then 366 else 365)"

lemma yoe_ends:
  "list_all (\<lambda>r. yoe_of (cycle_start r) = r \<and> yoe_of (cycle_start r + (cycle_len r - 1)) = r) [0..399]"
  by code_simp

lemma div_succ_bounds: "0 < n \<Longrightarrow> (y :: int) div n \<le> (y + 1) div n \<and> (y + 1) div n \<le> y div n + 1"
  by (simp only: div_succ split: if_split) simp

lemma yoe_mono_step:
  assumes "0 \<le> x" and "x < 146096"
  shows "yoe_of x \<le> yoe_of (x + 1)"
  unfolding yoe_of_def
proof (rule zdiv_mono1)
  show "x - x div 1460 + x div 36524 - x div 146096 \<le>
      x + 1 - (x + 1) div 1460 + (x + 1) div 36524 - (x + 1) div 146096"
  proof (cases "x = 146095")
    case False
    have "x div 146096 = 0" by (rule div_pos_pos_trivial) (use assms in linarith)+
    moreover have "(x + 1) div 146096 = 0"
      by (rule div_pos_pos_trivial) (use assms False in linarith)+
    ultimately show ?thesis
      using div_succ_bounds [of 1460 x] div_succ_bounds [of 36524 x] by linarith
  qed simp
qed simp

lemma yoe_mono:
  assumes "0 \<le> x" and "x \<le> y" and "y \<le> 146096"
  shows "yoe_of x \<le> yoe_of y"
proof -
  have "y \<le> 146096 \<longrightarrow> yoe_of x \<le> yoe_of y"
    using assms(2)
  proof (induction rule: int_ge_induct)
    case (step i)
    then show ?case using yoe_mono_step [of i] assms(1) by auto
  qed simp
  with assms(3) show ?thesis by simp
qed

lemma yoe_of_cycle:
  assumes r: "0 \<le> r" "r < 400" and x: "0 \<le> x" "x < cycle_len r"
  shows "yoe_of (cycle_start r + x) = r"
proof -
  have e: "yoe_of (cycle_start r) = r" "yoe_of (cycle_start r + (cycle_len r - 1)) = r"
    using yoe_ends r by (auto simp: list_all_iff)
  have c: "0 \<le> cycle_start r" using r unfolding cycle_start_def by linarith
  have "cycle_start r + cycle_len r \<le> 146097"
  proof (cases "r = 399")
    case False
    then have "cycle_start r \<le> 145731" using r unfolding cycle_start_def by linarith
    then show ?thesis by (simp add: cycle_len_def)
  qed (simp add: cycle_start_def cycle_len_def)
  then have "yoe_of (cycle_start r) \<le> yoe_of (cycle_start r + x)"
    "yoe_of (cycle_start r + x) \<le> yoe_of (cycle_start r + (cycle_len r - 1))"
    using c x by (intro yoe_mono; linarith)+
  with e show ?thesis by simp
qed

lemma march_month_inverse:
  assumes "valid_date y m d"
  shows "(5 * march_day m d + 2) div 153 = march_month m"
proof -
  have m: "1 \<le> m" "m \<le> 12" and d: "1 \<le> d" "d \<le> month_days y m"
    using assms by (auto simp: valid_date_def)
  show ?thesis
    using month_range [OF m] d unfolding insert_iff empty_iff
    by (elim disjE) (auto simp: march_day_def march_month_def month_days_def split: if_splits)
qed

lemma march_day_in_cycle:
  assumes "valid_date y m d"
  shows "0 \<le> march_day m d \<and> march_day m d < cycle_len (march_year y m)"
proof -
  have m: "1 \<le> m" "m \<le> 12" and d: "1 \<le> d" "d \<le> month_days y m"
    using assms by (auto simp: valid_date_def)
  show ?thesis
    using month_range [OF m] d unfolding insert_iff empty_iff
    by (elim disjE)
      (auto simp: march_day_def march_month_def month_days_def march_year_def cycle_len_def split: if_splits)
qed

lemma leap_year_mod: "leap_year (z mod 400 + 1) = leap_year (z + 1)"
proof -
  have "(z mod 400 + 1) mod k = (z + 1) mod k" if "k dvd 400" for k :: int
    using that by (metis mod_add_left_eq mod_mod_cancel)
  then show ?thesis by (simp add: leap_year_def)
qed

lemma days_to_ymd_ordinal:
  assumes "year_in_range y" and v: "valid_date y m d"
  shows "days_to_ymd (ordinal y m d) = (y, m, d)"
proof -
  define z r e x where "z = march_year y m" and "r = z mod 400" and "e = z div 400"
    and "x = march_day m d"
  define k where "k = march_month m"
  have m: "1 \<le> m" "m \<le> 12" and d: "1 \<le> d" "d \<le> 31"
    using v month_days_bounds [of y m] by (auto simp: valid_date_def)
  have kb: "0 \<le> k" "k \<le> 11" using m by (auto simp: k_def march_month_def)
  have zb: "- 1000001 \<le> z" "z \<le> 1000000"
    using assms(1) by (auto simp: z_def march_year_def year_in_range_def)
  have rb: "0 \<le> r" "r < 400" by (simp_all add: r_def)
  have xb: "0 \<le> x" "x < cycle_len r" "x \<le> 365"
    using march_day_in_cycle [OF v] leap_year_mod [of z]
    by (auto simp: x_def cycle_len_def z_def r_def split: if_splits)
  define doe where "doe = cycle_start r + x"
  have "cycle_start r \<le> 145731"
  proof (cases "r = 399")
    case False
    then show ?thesis using rb unfolding cycle_start_def by linarith
  qed (simp add: cycle_start_def)
  moreover have "0 \<le> cycle_start r" using rb unfolding cycle_start_def by linarith
  ultimately have doeb: "0 \<le> doe" "doe < 146097"
    using xb unfolding doe_def by linarith+
  have o: "ordinal y m d + 719468 = e * 146097 + doe"
    by (simp add: ordinal_def year_start_era z_def [symmetric] r_def e_def doe_def cycle_start_def x_def)
  have eb: "- 2501 \<le> e" "e \<le> 2500" using zb unfolding e_def by linarith+
  have days: "as_i64 (ordinal y m d + 719468) = e * 146097 + doe"
    unfolding o by (rule as_i64_id) (use eb doeb in linarith)+
  have ed: "(e * 146097 + doe) div 146097 = e" "(e * 146097 + doe) mod 146097 = doe"
    using doeb by (simp_all add: div_pos_pos_trivial mod_pos_pos_trivial)
  have "as_u64 (doe - doe div 1460 + doe div 36524 - doe div 146096) =
      doe - doe div 1460 + doe div 36524 - doe div 146096"
    by (rule as_u64_id) (use doeb in linarith)+
  then have yoe: "as_u64 (doe - doe div 1460 + doe div 36524 - doe div 146096) div 365 = r"
    using yoe_of_cycle [OF rb xb(1,2)] by (simp add: yoe_of_def doe_def)
  have "doe - (365 * r + r div 4 - r div 100) = x"
    by (simp add: doe_def cycle_start_def)
  then have doy: "as_u64 (doe - (365 * r + r div 4 - r div 100)) = x"
    using xb by (simp add: as_u64_id)
  have mp: "(5 * x + 2) div 153 = k"
    using march_month_inverse [OF v] by (simp add: x_def k_def)
  have dd: "as_u32 (x - (153 * k + 2) div 5 + 1) = d"
    using d by (simp add: x_def k_def march_day_def as_u32_id)
  have mm: "as_u32 (if k < 10 then k + 3 else k - 9) = m"
    using m by (auto simp: k_def march_month_def as_u32_id)
  have "r + e * 400 = z" by (simp add: r_def e_def)
  then have "as_i32 (if m \<le> 2 then r + e * 400 + 1 else r + e * 400) = y"
    using assms(1) by (auto simp: z_def march_year_def year_in_range_def as_i32_id)
  then show ?thesis
    unfolding days_to_ymd_def Let_def days ed yoe doy mp dd mm by simp
qed

text \<open>The epoch, and how far a number of days can reach.\<close>

definition epoch_date :: "int \<times> int \<times> int" where
  "epoch_date = (1970, 1, 1)"

lemma ordinal_epoch: "ordinal 1970 1 1 = 0"
  by (simp add: ordinal_def march_year_def march_day_def march_month_def year_start_def)

lemma year_le_of_ordinal:
  assumes "valid_date y m d" and "0 \<le> y" and "ordinal y m d \<le> 364000000"
  shows "y \<le> 1000000"
proof (rule ccontr)
  assume "\<not> y \<le> 1000000"
  then have z: "1000000 \<le> march_year y m" by (simp add: march_year_def)
  then have "365000000 \<le> year_start (march_year y m)" unfolding year_start_def by linarith
  moreover have "0 \<le> march_day m d" using march_day_in_cycle [OF assms(1)] by simp
  ultimately show False using assms(3) by (simp add: ordinal_def)
qed

lemma next_date_iterate:
  "(next_date ^^ n) epoch_date = (y, m, d) \<Longrightarrow>
   valid_date y m d \<and> 1970 \<le> y \<and> ordinal y m d = int n"
proof (induction n arbitrary: y m d)
  case 0
  then show ?case by (simp add: epoch_date_def ordinal_epoch valid_date_def month_days_def)
next
  case (Suc n)
  obtain y0 m0 d0 where p: "(next_date ^^ n) epoch_date = (y0, m0, d0)" by (metis prod_cases3)
  with Suc.prems have s: "next_date (y0, m0, d0) = (y, m, d)" by simp
  have "valid_date y0 m0 d0 \<and> 1970 \<le> y0 \<and> ordinal y0 m0 d0 = int n" using Suc.IH [OF p] .
  moreover have "y0 \<le> y" using s by (auto simp: next_date_def split: if_splits)
  ultimately show ?case using ordinal_next [OF _ s] by auto
qed

lemma iterate_in_range:
  assumes "(next_date ^^ n) epoch_date = (y, m, d)" and "n \<le> 364000000"
  shows "year_in_range y"
  using next_date_iterate [OF assms(1)] year_le_of_ordinal [of y m d] assms(2)
  by (simp add: year_in_range_def)

section \<open>Properties\<close>

text \<open>C20: the calendar of the harness is the Gregorian one. The date computed for a number of days since
  the epoch is reached from 1970-01-01 by that many steps to the next date, and the day number
  computed for a date is the number of steps, for the next million years.\<close>

theorem calendar_is_gregorian:
  assumes "n \<le> 364000000" and "(next_date ^^ n) (1970, 1, 1) = (y, m, d)"
  shows "days_to_ymd (int n) = (y, m, d) \<and> ymd_to_days y m d = int n"
proof -
  have p: "(next_date ^^ n) epoch_date = (y, m, d)" using assms(2) by (simp add: epoch_date_def)
  note r = iterate_in_range [OF p assms(1)] and s = next_date_iterate [OF p]
  then show ?thesis
    using days_to_ymd_ordinal [of y m d] ymd_to_days_ordinal [of y m d] by simp
qed

theorem calendar_is_gregorian_witness:
  "days_to_ymd 59 = (1970, 3, 1) \<and> ymd_to_days 1970 3 1 = 59"
proof -
  have "(next_date ^^ 59) (1970, 1, 1) = (1970, 3, 1)" by code_simp
  then show ?thesis using calendar_is_gregorian [of 59] by simp
qed

end
