(* ===== verification/Process_Status.thy ===== *)
theory Process_Status
  imports Decimal Proto
begin

text \<open>
  The resident size of a process, from the text of \<open>/proc/<pid>/status\<close>: \<open>read_rss_kb\<close> of
  \<open>crates/errexd/src/metrics.rs\<close>, which \<open>/metrics\<close> reports for the daemon itself, and its copy in the load
  harness. The file may be missing: the text is an option.
\<close>

text \<open>\<open>str::lines\<close>: a line ends with a line feed, whose carriage return goes with it.\<close>

definition strip_cr :: "string \<Rightarrow> string" where
  "strip_cr l = (if l \<noteq> [] \<and> last l = CHR 0x0D then butlast l else l)"

definition text_lines :: "string \<Rightarrow> string list" where
  "text_lines s =
     (let ls = split_by (\<lambda>c. c = CHR 0x0A) s
      in map strip_cr (butlast ls) @ (if last ls = [] then [] else [last ls]))"

text \<open>The first line with the prefix decides, even when its number is unreadable.\<close>

fun rss_of_lines :: "string list \<Rightarrow> u64 option" where
  "rss_of_lines [] = None"
| "rss_of_lines (line # rest) =
     (case strip_prefix ''VmRSS:'' line of
        Some r \<Rightarrow>
          Option.bind (first_opt (split_whitespace r)) (\<lambda>kb. map_option of_nat (parse_unsigned (2 ^ 64) kb))
      | None \<Rightarrow> rss_of_lines rest)"

text \<open>A file is read by the argument \<open>fs\<close>; reading may fail.\<close>

definition read_rss_kb :: "(string \<Rightarrow> string option) \<Rightarrow> u64 option" where
  "read_rss_kb fs = Option.bind (fs ''/proc/self/status'') (\<lambda>s. rss_of_lines (text_lines s))"

section \<open>What is found\<close>

lemma rss_of_lines_skip:
  "list_all (\<lambda>l. \<not> starts_with ''VmRSS:'' l) ls \<Longrightarrow> rss_of_lines (ls @ ms) = rss_of_lines ms"
  by (induction ls) (auto simp: strip_prefix_def)

lemma split_ws_acc_graphic:
  "list_all graphic s \<Longrightarrow> split_ws_acc acc (s @ t) = split_ws_acc (rev s @ acc) t"
  by (induction s arbitrary: acc) (auto simp: ws_head_graphic simp del: ws_head.simps)

lemma digit_graphic: "is_digit c \<Longrightarrow> graphic c"
  by (simp add: is_digit_def graphic_def)

lemma first_word:
  assumes "list_all graphic s" and "s \<noteq> []"
  shows "first_opt (split_whitespace (CHR 0x09 # CHR '' '' # s @ CHR '' '' # t)) = Some s"
proof -
  have "split_ws_acc (rev s) (CHR '' '' # t) = s # split_ws_acc [] t"
    using assms(2) by (simp add: ws1_def)
  then show ?thesis
    using split_ws_acc_graphic [OF assms(1), of "[]" "CHR '' '' # t"]
    by (simp add: split_whitespace_def first_opt_def ws1_def)
qed

text \<open>The kernel's line is read back.\<close>

lemma rss_of_kernel_line:
  assumes "list_all (\<lambda>l. \<not> starts_with ''VmRSS:'' l) ls" and "n < 2 ^ 64"
  shows "rss_of_lines (ls @ (''VmRSS:'' @ CHR 0x09 # CHR '' '' # show_nat n @ '' kB'') # ms) = Some (of_nat n)"
proof -
  have "list_all graphic (show_nat n)"
    using show_nat_digits [of n] digit_graphic by (auto simp: list_all_iff)
  then have "first_opt (split_whitespace (CHR 0x09 # CHR '' '' # show_nat n @ '' kB'')) = Some (show_nat n)"
    by (intro first_word) simp_all
  then show ?thesis
    using assms by (simp add: rss_of_lines_skip strip_prefix_def starts_with_def parse_shown)
qed

end
