(* ===== verification/Stress.thy ===== *)
theory Stress
  imports Calendar Process_Status Envelope
begin

text \<open>
  The load harness, \<open>scripts/stress/src/main.rs\<close>: its flags, the envelopes it sends, its timestamps,
  the loop of a worker with its pacing and counters, the loop of a WebSocket subscriber, and the
  report it writes.

  Random numbers, clock readings, the answers of the daemon and the messages of a socket enter as
  arguments, one record per turn of a loop. The latency histogram is the third-party
  \<open>hdrhistogram\<close>, a record of functions \<open>hist_api\<close>; the rounding of floating point numbers is the
  parameter \<open>rnd\<close>. The harness is built in release mode, where integer arithmetic wraps.
\<close>

section \<open>Flags\<close>

record stress_cli =
  cl_base :: string
  cl_rps :: u64
  cl_workers :: nat
  cl_duration_secs :: u64
  cl_cardinality :: u32
  cl_frames :: u32
  cl_projects :: u32
  cl_gzip :: bool
  cl_ws_subscribers :: nat
  cl_daemon_pid :: "u32 option"
  cl_out :: string
  cl_label :: string

definition default_stress_cli :: stress_cli where
  "default_stress_cli =
     \<lparr>cl_base = ''http://127.0.0.1:9090'', cl_rps = 200, cl_workers = 16, cl_duration_secs = 30,
      cl_cardinality = 50, cl_frames = 8, cl_projects = 4, cl_gzip = False, cl_ws_subscribers = 4,
      cl_daemon_pid = None, cl_out = ''./stress-report.json'', cl_label = ''''\<rparr>"

section \<open>Timestamps\<close>

text \<open>
  \<open>parse_iso_to_ms\<close> reads the date and time at fixed columns; the fraction and the zone, at the
  cursor behind them, are each a function here. The result is cast to \<open>u128\<close>.
\<close>

definition take_digits :: "string \<Rightarrow> string" where
  "take_digits s = takeWhile is_digit s"

definition iso_fraction :: "string \<Rightarrow> nat \<Rightarrow> nat \<times> nat" where
  "iso_fraction s idx =
     (if idx < length s \<and> s ! idx = CHR ''.'' then
        (let frac = take_digits (drop (idx + 1) s);
             padded = frac @ replicate (9 - length frac) CHR ''0''
         in (case parse_unsigned (2 ^ 64) (take 9 padded) of Some n \<Rightarrow> n | None \<Rightarrow> 0,
             idx + 1 + length frac))
      else (0, idx))"

definition iso_offset :: "string \<Rightarrow> nat \<Rightarrow> int option" where
  "iso_offset s idx =
     (if idx < length s then
        (let c = s ! idx in
         if c = CHR ''Z'' \<or> c = CHR ''z'' then Some 0
         else if c = CHR ''+'' \<or> c = CHR ''-'' then
           (let sign = (if c = CHR ''-'' then -1 else 1) in
            Option.bind (Option.bind (str_get s (idx + 1) (idx + 3)) parse_i64) (\<lambda>oh.
            map_option (\<lambda>om. sign * (oh * 3600 + om * 60))
              (Option.bind (str_get s (idx + 4) (idx + 6)) parse_i64)))
         else Some 0)
      else Some 0)"

definition get_number :: "nat \<Rightarrow> string \<Rightarrow> nat \<Rightarrow> nat \<Rightarrow> nat option" where
  "get_number bound s a b = Option.bind (str_get s a b) (parse_unsigned bound)"

definition parse_iso_to_ms :: "string \<Rightarrow> nat option" where
  "parse_iso_to_ms s =
     (if length s < 19 then None
      else
        Option.bind (Option.bind (str_get s 0 4) parse_i64) (\<lambda>y.
        Option.bind (get_number (2 ^ 32) s 5 7) (\<lambda>mo.
        Option.bind (get_number (2 ^ 32) s 8 10) (\<lambda>d.
        Option.bind (get_number (2 ^ 32) s 11 13) (\<lambda>hh.
        Option.bind (get_number (2 ^ 32) s 14 16) (\<lambda>mm.
        Option.bind (get_number (2 ^ 32) s 17 19) (\<lambda>ss.
        (case iso_fraction s 19 of (nanos, idx) \<Rightarrow>
           map_option (\<lambda>tz_off_secs.
             (let days = ymd_to_days (as_i32 y) (int mo) (int d);
                  secs = days * 86400 + int hh * 3600 + int mm * 60 + int ss - tz_off_secs
              in nat ((secs * 1000 + int nanos div 1000000) mod 2 ^ 128)))
             (iso_offset s idx)))))))))"

definition epoch_to_iso :: "nat \<Rightarrow> string" where
  "epoch_to_iso secs =
     (let days = secs div 86400;
          rem = secs mod 86400;
          hh = rem div 3600;
          mm = rem mod 3600 div 60;
          ss = rem mod 60
      in case days_to_ymd (int days) of (y, mo, d) \<Rightarrow>
         (if y < 0 then CHR ''-'' # zero_pad 3 (nat (- y)) else zero_pad 4 (nat y)) @ ''-'' @
         zero_pad 2 (nat mo) @ ''-'' @ zero_pad 2 (nat d) @ ''T'' @
         zero_pad 2 hh @ '':'' @ zero_pad 2 mm @ '':'' @ zero_pad 2 ss @ ''Z'')"

section \<open>Envelopes\<close>

text \<open>\<open>gen_range(0..n)\<close> panics on an empty range; \<open>rng\<close> is the number drawn below a bound.\<close>

definition gen_range :: "(nat \<Rightarrow> nat) \<Rightarrow> nat \<Rightarrow> ('e, nat) outcome" where
  "gen_range rng n = (if n = 0 then Panic else Ok (rng n))"

definition envelope_header :: "string \<Rightarrow> nat \<Rightarrow> string" where
  \<open>envelope_header event_id now_secs =
     ''{"event_id":"'' @ event_id @ ''","sent_at":"'' @ epoch_to_iso now_secs @ ''"}''\<close>

definition event_item_header :: string where
  \<open>event_item_header = ''{"type":"event"}''\<close>

definition frame_json :: "nat \<Rightarrow> string" where
  \<open>frame_json i =
     ''{"function":"frame_'' @ show_nat i @ ''","filename":"src/mod_'' @ show_nat i @
     ''.rs","lineno":'' @ show_nat ((100 + i) mod 2 ^ 32) @ '',"in_app":true}''\<close>

definition frames_json :: "nat \<Rightarrow> string" where
  "frames_json n = concat (map (\<lambda>i. (if i > 0 then '','' else '''') @ frame_json i) [0..<n])"

definition event_payload :: "string \<Rightarrow> nat \<Rightarrow> nat \<Rightarrow> string \<Rightarrow> nat \<Rightarrow> nat \<Rightarrow> string" where
  \<open>event_payload event_id now_secs sent_ts_ms project bucket frames =
     ''{"event_id":"'' @ event_id @ ''","timestamp":"'' @ epoch_to_iso now_secs @
     ''","platform":"rust","level":"error","extra":{"harness_send_ms":'' @ show_nat sent_ts_ms @
     '',"project":"'' @ project @ ''"},"exception":{"values":[{"type":"StressError","value":"bucket_'' @
     show_nat bucket @ ''","stacktrace":{"frames":['' @ frames_json frames @ '']}}]}}''\<close>

text \<open>The clock is read once for the header and once for the payload.\<close>

definition build_event_body ::
  "(nat \<Rightarrow> nat) \<Rightarrow> string \<Rightarrow> nat \<Rightarrow> nat \<Rightarrow> string \<Rightarrow> nat \<Rightarrow> nat \<Rightarrow> nat \<Rightarrow> ('e, string \<times> string) outcome" where
  "build_event_body rng event_id header_secs payload_secs project cardinality frames sent_ts_ms =
     obind (gen_range rng cardinality) (\<lambda>bucket.
       let header = envelope_header event_id header_secs;
           payload = event_payload event_id payload_secs sent_ts_ms project bucket frames;
           envelope = header @ [newline] @ event_item_header @ [newline] @ payload @ [newline];
           url = ''/api/'' @ project @ ''/envelope/''
       in Ok (url, envelope))"

definition ws_url :: "string \<Rightarrow> string" where
  "ws_url base =
     (let trimmed = trim_end_matches (CHR ''/'') base in
      case strip_prefix ''https://'' trimmed of
        Some rest \<Rightarrow> ''wss://'' @ rest @ ''/ws/stress''
      | None \<Rightarrow>
          (case strip_prefix ''http://'' trimmed of
             Some rest \<Rightarrow> ''ws://'' @ rest @ ''/ws/stress''
           | None \<Rightarrow> trimmed @ ''/ws/stress''))"

section \<open>A worker\<close>

record stress_counters =
  sc_sent :: u64
  sc_ok_2xx :: u64
  sc_err_4xx :: u64
  sc_err_5xx :: u64
  sc_err_429 :: u64
  sc_err_io :: u64
  sc_ws_received :: u64
  sc_ws_lagged :: u64

definition zero_counters :: stress_counters where
  "zero_counters = \<lparr>sc_sent = 0, sc_ok_2xx = 0, sc_err_4xx = 0, sc_err_5xx = 0, sc_err_429 = 0,
     sc_err_io = 0, sc_ws_received = 0, sc_ws_lagged = 0\<rparr>"

record 'h hist_api =
  hi_new :: 'h
  hi_record :: "u64 \<Rightarrow> 'h \<Rightarrow> 'h option"
  hi_len :: "'h \<Rightarrow> u64"
  hi_quantile :: "rat \<Rightarrow> 'h \<Rightarrow> u64"
  hi_max :: "'h \<Rightarrow> u64"
  hi_mean :: "'h \<Rightarrow> rat"

text \<open>\<open>let _ = hist.record(v)\<close>: a value out of range is dropped.\<close>

definition hist_add :: "'h hist_api \<Rightarrow> u64 \<Rightarrow> 'h \<Rightarrow> 'h" where
  "hist_add H v h = (case hi_record H v h of Some h' \<Rightarrow> h' | None \<Rightarrow> h)"

text \<open>A request as the worker builds it.\<close>

record stress_post =
  po_url :: string
  po_headers :: "(string \<times> string) list"
  po_body :: bytes

text \<open>The answer to a request: a status, or none.\<close>

datatype http_answer = Status nat | NoAnswer

text \<open>
  What one turn of the loop observes: whether \<open>stop\<close> was set as the turn began, the clock readings,
  the numbers drawn, the answer, and how long things took, in nanoseconds: building the request,
  waiting for the answer, and oversleeping.
\<close>

record worker_turn =
  tu_stop :: bool
  tu_project :: "nat \<Rightarrow> nat"
  tu_bucket :: "nat \<Rightarrow> nat"
  tu_event_id :: string
  tu_send_ms :: nat
  tu_header_secs :: nat
  tu_payload_secs :: nat
  tu_answer :: http_answer
  tu_build :: nat
  tu_wait :: nat
  tu_oversleep :: nat

record 'h worker_state =
  wk_now :: int
  wk_next :: int
  wk_counters :: stress_counters
  wk_hist :: 'h
  wk_posts :: "stress_post list"

definition worker_request ::
  "(bytes \<Rightarrow> bytes) \<Rightarrow> stress_cli \<Rightarrow> worker_turn \<Rightarrow> ('e, stress_post) outcome" where
  "worker_request gzip cli t =
     obind (gen_range (tu_project t) (unat (cl_projects cli))) (\<lambda>k.
     obind (build_event_body (tu_bucket t) (tu_event_id t) (tu_header_secs t) (tu_payload_secs t)
         (''p'' @ show_nat k) (unat (cl_cardinality cli)) (unat (cl_frames cli)) (tu_send_ms t)) (\<lambda>(path, body).
       Ok \<lparr>po_url = trim_end_matches (CHR ''/'') (cl_base cli) @ path,
           po_headers = (''content-type'', ''application/x-sentry-envelope'') #
             (if cl_gzip cli then [(''content-encoding'', ''gzip'')] else []),
           po_body = (if cl_gzip cli then gzip body else body)\<rparr>))"

definition is_success :: "nat \<Rightarrow> bool" where
  "is_success s \<longleftrightarrow> 200 \<le> s \<and> s < 300"

definition is_client_error :: "nat \<Rightarrow> bool" where
  "is_client_error s \<longleftrightarrow> 400 \<le> s \<and> s < 500"

definition is_server_error :: "nat \<Rightarrow> bool" where
  "is_server_error s \<longleftrightarrow> 500 \<le> s \<and> s < 600"

definition count_answer :: "http_answer \<Rightarrow> stress_counters \<Rightarrow> stress_counters" where
  "count_answer a c =
     (let c = c\<lparr>sc_sent := sc_sent c + 1\<rparr> in
      case a of
        Status s \<Rightarrow>
          if is_success s then c\<lparr>sc_ok_2xx := sc_ok_2xx c + 1\<rparr>
          else if s = 429 then c\<lparr>sc_err_429 := sc_err_429 c + 1\<rparr>
          else if is_client_error s then c\<lparr>sc_err_4xx := sc_err_4xx c + 1\<rparr>
          else if is_server_error s then c\<lparr>sc_err_5xx := sc_err_5xx c + 1\<rparr>
          else c
      | NoAnswer \<Rightarrow> c\<lparr>sc_err_io := sc_err_io c + 1\<rparr>)"

definition time_answer :: "'h hist_api \<Rightarrow> http_answer \<Rightarrow> nat \<Rightarrow> 'h \<Rightarrow> 'h" where
  "time_answer H a wait h =
     (case a of
        Status s \<Rightarrow> (let micros = of_nat (wait div 1000) :: u64 in hist_add H (max micros 1) h)
      | NoAnswer \<Rightarrow> h)"

text \<open>The instant the worker goes on at, and the instant its last turn was due.\<close>

definition pace :: "int \<Rightarrow> int \<Rightarrow> nat \<Rightarrow> int \<times> int" where
  "pace due now oversleep =
     (if due > now then (due + int oversleep, due) else (now, now))"

definition worker_step ::
  "'h hist_api \<Rightarrow> (bytes \<Rightarrow> bytes) \<Rightarrow> stress_cli \<Rightarrow> int \<Rightarrow> worker_turn \<Rightarrow> 'h worker_state \<Rightarrow>
     ('e, 'h worker_state) outcome" where
  "worker_step H gzip cli interval t st =
     obind (worker_request gzip cli t) (\<lambda>post.
       let due = wk_next st + interval;
           now = wk_now st + int (tu_build t) + int (tu_wait t)
       in case pace due now (tu_oversleep t) of (now, due) \<Rightarrow>
            Ok \<lparr>wk_now = now, wk_next = due,
                wk_counters = count_answer (tu_answer t) (wk_counters st),
                wk_hist = time_answer H (tu_answer t) (tu_wait t) (wk_hist st),
                wk_posts = wk_posts st @ [post]\<rparr>)"

text \<open>The loop, on the turns it may take; it leaves at the first turn past the deadline or the stop.\<close>

fun worker_loop ::
  "'h hist_api \<Rightarrow> (bytes \<Rightarrow> bytes) \<Rightarrow> stress_cli \<Rightarrow> int \<Rightarrow> int \<Rightarrow> worker_turn list \<Rightarrow> 'h worker_state \<Rightarrow>
     ('e, 'h worker_state) outcome" where
  "worker_loop H gzip cli interval deadline [] st = Ok st"
| "worker_loop H gzip cli interval deadline (t # ts) st =
     (if \<not> tu_stop t \<and> wk_now st < deadline
      then obind (worker_step H gzip cli interval t st) (worker_loop H gzip cli interval deadline ts)
      else Ok st)"

text \<open>
  The interval: \<open>f64\<close> division by zero workers is an infinity, or not a number, of which \<open>max(1.0)\<close>
  makes one. \<open>Duration::from_secs_f64\<close> rounds to the nearest nanosecond, ties to even.
\<close>

definition from_secs_f64 :: "rat \<Rightarrow> int" where
  "from_secs_f64 q =
     (let ns = q * 1000000000; n = \<lfloor>ns\<rfloor>; r = ns - of_int n
      in if r < 1 / 2 then n else if r > 1 / 2 then n + 1 else if even n then n else n + 1)"

definition per_worker_rps :: "(rat \<Rightarrow> rat) \<Rightarrow> stress_cli \<Rightarrow> rat option" where
  "per_worker_rps rnd cli =
     (if cl_workers cli = 0 then (if cl_rps cli = 0 then Some 1 else None)
      else Some (max (rnd (rnd (of_nat (unat (cl_rps cli))) / rnd (of_nat (cl_workers cli)))) 1))"

definition worker_interval :: "(rat \<Rightarrow> rat) \<Rightarrow> stress_cli \<Rightarrow> int" where
  "worker_interval rnd cli =
     (case per_worker_rps rnd cli of Some p \<Rightarrow> from_secs_f64 (rnd (1 / p)) | None \<Rightarrow> 0)"

section \<open>A subscriber\<close>

datatype socket_message =
    SmText string
  | SmBinary bytes
  | SmPing bytes
  | SmClose
  | SmOther

text \<open>What \<open>ws.next()\<close> yields: a message, an error, or the end of the stream.\<close>

datatype socket_item = SockMsg socket_message | SockErr | SockEnd

record 'h subscriber =
  su_counters :: stress_counters
  su_hist :: 'h
  su_pongs :: "bytes list"

definition message_lag_us :: "nat \<Rightarrow> nat \<Rightarrow> u64" where
  "message_lag_us now ts_ms =
     (let lag_ms = now - ts_ms
      in max (of_nat (min (min lag_ms 60000 * 1000) (2 ^ 64 - 1))) 1)"

definition message_kind :: "json \<Rightarrow> string" where
  "message_kind v = (case Option.bind (json_get ''type'' v) json_as_str of Some k \<Rightarrow> k | None \<Rightarrow> [])"

definition subscriber_text ::
  "'h hist_api \<Rightarrow> (bytes \<Rightarrow> json option) \<Rightarrow> nat \<Rightarrow> string \<Rightarrow> 'h subscriber \<Rightarrow> 'h subscriber" where
  "subscriber_text H parse_json now text su =
     (case parse_json text of
        None \<Rightarrow> su
      | Some v \<Rightarrow>
          if message_kind v \<noteq> ''issue_created'' \<and> message_kind v \<noteq> ''issue_updated'' then su
          else
            (let c = su_counters su;
                 su = su\<lparr>su_counters := c\<lparr>sc_ws_received := sc_ws_received c + 1\<rparr>\<rparr>
             in case Option.bind (Option.bind (Option.bind (json_get ''issue'' v)
                    (json_get ''last_seen'')) json_as_str) parse_iso_to_ms of
                  Some ts_ms \<Rightarrow> su\<lparr>su_hist := hist_add H (message_lag_us now ts_ms) (su_hist su)\<rparr>
                | None \<Rightarrow> su))"

text \<open>\<open>lossy\<close> is \<open>String::from_utf8_lossy\<close>; every item comes with the stop flag and the clock.\<close>

fun ws_subscriber ::
  "'h hist_api \<Rightarrow> (bytes \<Rightarrow> json option) \<Rightarrow> (bytes \<Rightarrow> string) \<Rightarrow> (bool \<times> nat \<times> socket_item) list \<Rightarrow>
     'h subscriber \<Rightarrow> 'h subscriber" where
  "ws_subscriber H parse_json lossy [] su = su"
| "ws_subscriber H parse_json lossy ((stop, now, item) # rest) su =
     (if stop then su
      else case item of
        SockErr \<Rightarrow> su
      | SockEnd \<Rightarrow> su
      | SockMsg m \<Rightarrow>
          (case m of
             SmText t \<Rightarrow> ws_subscriber H parse_json lossy rest (subscriber_text H parse_json now t su)
           | SmBinary b \<Rightarrow>
               ws_subscriber H parse_json lossy rest (subscriber_text H parse_json now (lossy b) su)
           | SmPing p \<Rightarrow> ws_subscriber H parse_json lossy rest (su\<lparr>su_pongs := su_pongs su @ [p]\<rparr>)
           | SmClose \<Rightarrow> su
           | SmOther \<Rightarrow> ws_subscriber H parse_json lossy rest su))"

section \<open>The report\<close>

record latencies =
  la_count :: u64
  la_p50 :: rat
  la_p90 :: rat
  la_p99 :: rat
  la_p999 :: rat
  la_max :: rat
  la_mean :: rat

definition from_hist :: "'h hist_api \<Rightarrow> (rat \<Rightarrow> rat) \<Rightarrow> 'h \<Rightarrow> rat \<Rightarrow> latencies" where
  "from_hist H rnd h scale =
     (if hi_len H h = 0 then
        \<lparr>la_count = 0, la_p50 = 0, la_p90 = 0, la_p99 = 0, la_p999 = 0, la_max = 0, la_mean = 0\<rparr>
      else
        (let scaled = (\<lambda>v :: u64. rnd (rnd (of_nat (unat v)) / scale)) in
         \<lparr>la_count = hi_len H h,
          la_p50 = scaled (hi_quantile H (rnd (1 / 2)) h),
          la_p90 = scaled (hi_quantile H (rnd (9 / 10)) h),
          la_p99 = scaled (hi_quantile H (rnd (99 / 100)) h),
          la_p999 = scaled (hi_quantile H (rnd (999 / 1000)) h),
          la_max = scaled (hi_max H h),
          la_mean = rnd (hi_mean H h / scale)\<rparr>))"

record rss_stats =
  rs_samples :: u64
  rs_min :: u64
  rs_max :: u64
  rs_mean :: rat
  rs_final_kb :: u64

definition rss_stats_of :: "(rat \<Rightarrow> rat) \<Rightarrow> u64 list \<Rightarrow> rss_stats" where
  "rss_stats_of rnd rss =
     (if rss = [] then \<lparr>rs_samples = 0, rs_min = 0, rs_max = 0, rs_mean = 0, rs_final_kb = 0\<rparr>
      else \<lparr>rs_samples = of_nat (length rss), rs_min = fold min rss (hd rss), rs_max = fold max rss (hd rss),
            rs_mean = rnd (rnd (of_nat (unat (sum_list rss))) / rnd (of_nat (length rss))),
            rs_final_kb = last rss\<rparr>)"

record report_config =
  rc_base :: string
  rc_rps :: u64
  rc_workers :: nat
  rc_duration_secs :: u64
  rc_cardinality :: u32
  rc_frames :: u32
  rc_projects :: u32
  rc_gzip :: bool
  rc_ws_subscribers :: nat

record stress_report =
  rp_label :: string
  rp_config :: report_config
  rp_duration_secs :: rat
  rp_sent :: u64
  rp_ok_2xx :: u64
  rp_err_4xx :: u64
  rp_err_5xx :: u64
  rp_err_429 :: u64
  rp_err_io :: u64
  rp_achieved_rps :: rat
  rp_ingest_latency_ms :: latencies
  rp_ws_received :: u64
  rp_ws_lagged :: u64
  rp_ws_lag_ms :: latencies
  rp_daemon_rss_kb :: rss_stats

definition stress_report_of ::
  "'h hist_api \<Rightarrow> (rat \<Rightarrow> rat) \<Rightarrow> stress_cli \<Rightarrow> rat \<Rightarrow> stress_counters \<Rightarrow> 'h \<Rightarrow> 'h \<Rightarrow> u64 list \<Rightarrow>
     stress_report" where
  "stress_report_of H rnd cli elapsed c ingest_h ws_h rss =
     \<lparr>rp_label = cl_label cli,
      rp_config =
        \<lparr>rc_base = cl_base cli, rc_rps = cl_rps cli, rc_workers = cl_workers cli,
         rc_duration_secs = cl_duration_secs cli, rc_cardinality = cl_cardinality cli,
         rc_frames = cl_frames cli, rc_projects = cl_projects cli, rc_gzip = cl_gzip cli,
         rc_ws_subscribers = cl_ws_subscribers cli\<rparr>,
      rp_duration_secs = elapsed, rp_sent = sc_sent c, rp_ok_2xx = sc_ok_2xx c,
      rp_err_4xx = sc_err_4xx c, rp_err_5xx = sc_err_5xx c, rp_err_429 = sc_err_429 c,
      rp_err_io = sc_err_io c,
      rp_achieved_rps = rnd (rnd (of_nat (unat (sc_sent c))) / max elapsed (rnd (1 / 1000))),
      rp_ingest_latency_ms = from_hist H rnd ingest_h 1000, rp_ws_received = sc_ws_received c,
      rp_ws_lagged = sc_ws_lagged c, rp_ws_lag_ms = from_hist H rnd ws_h 1000,
      rp_daemon_rss_kb = rss_stats_of rnd rss\<rparr>"

section \<open>The run\<close>

definition probe_health :: "http_answer \<Rightarrow> (string, unit) outcome" where
  "probe_health answer =
     (case answer of
        NoAnswer \<Rightarrow> Err ''daemon /health probe failed (is errexd running?)''
      | Status s \<Rightarrow>
          if is_success s then Ok () else Err (''daemon /health returned '' @ show_nat s))"

definition pid_rss_kb :: "(string \<Rightarrow> string option) \<Rightarrow> u32 \<Rightarrow> u64 option" where
  "pid_rss_kb fs pid =
     Option.bind (fs (''/proc/'' @ show_nat (unat pid) @ ''/status'')) (\<lambda>s. rss_of_lines (text_lines s))"

text \<open>The sampler looks at \<open>stop\<close> before every sample; \<open>fs\<close> is the file system as it is then.\<close>

fun rss_sampler :: "u32 \<Rightarrow> (bool \<times> (string \<Rightarrow> string option)) list \<Rightarrow> u64 list" where
  "rss_sampler pid [] = []"
| "rss_sampler pid ((stop, fs) # rest) =
     (if stop then []
      else case pid_rss_kb fs pid of
        Some kb \<Rightarrow> kb # rss_sampler pid rest
      | None \<Rightarrow> rss_sampler pid rest)"

text \<open>
  A worker task that panics ends, and \<open>main\<close> ignores that. Only drawing below zero panics, which the
  first turn of a worker then does: it has counted nothing.
  The workers share counters and histogram; their additions commute, so they are taken one worker
  after the other.
\<close>

definition start_worker :: "int \<Rightarrow> stress_counters \<Rightarrow> 'h \<Rightarrow> 'h worker_state" where
  "start_worker now c h = \<lparr>wk_now = now, wk_next = now, wk_counters = c, wk_hist = h, wk_posts = []\<rparr>"

definition run_worker ::
  "'h hist_api \<Rightarrow> (bytes \<Rightarrow> bytes) \<Rightarrow> stress_cli \<Rightarrow> int \<Rightarrow> int \<Rightarrow> int \<times> worker_turn list \<Rightarrow>
     stress_counters \<times> 'h \<Rightarrow> stress_counters \<times> 'h" where
  "run_worker H gzip cli interval deadline w ch =
     (case w of (now, turns) \<Rightarrow>
      case (worker_loop H gzip cli interval deadline turns (start_worker now (fst ch) (snd ch))
          :: (unit, 'h worker_state) outcome) of
        Ok st \<Rightarrow> (wk_counters st, wk_hist st)
      | _ \<Rightarrow> ch)"

definition run_workers ::
  "'h hist_api \<Rightarrow> (rat \<Rightarrow> rat) \<Rightarrow> (bytes \<Rightarrow> bytes) \<Rightarrow> stress_cli \<Rightarrow> int \<Rightarrow> (int \<times> worker_turn list) list \<Rightarrow>
     stress_counters \<times> 'h" where
  "run_workers H rnd gzip cli started ws =
     (let interval = worker_interval rnd cli;
          deadline = started + dur_secs (int (unat (cl_duration_secs cli)))
      in fold (run_worker H gzip cli interval deadline) (take (cl_workers cli) ws) (zero_counters, hi_new H))"

text \<open>The progress line of a second: the numbers, with the rate since the last one.\<close>

definition progress_tick ::
  "(rat \<Rightarrow> rat) \<Rightarrow> u64 \<Rightarrow> rat \<Rightarrow> stress_counters \<Rightarrow> rat \<Rightarrow> rat" where
  "progress_tick rnd last_sent last_t c now =
     (let dt = max (rnd (now - last_t)) (rnd (1 / 1000))
      in rnd (rnd (of_nat (unat (sc_sent c - last_sent))) / dt))"

end
