(* ===== verification/Stress_Time.thy ===== *)
theory Stress_Time
  imports Stress
begin

text \<open>
  The timestamps of the load harness: what \<open>epoch_to_iso\<close> prints is read back by \<open>parse_iso_to_ms\<close>,
  with any fraction and any zone. So the lag a subscriber records is that of the daemon's clock to
  the millisecond.
\<close>

section \<open>Fixed columns\<close>

lemma str_get_ascii: "ascii s \<Longrightarrow> a \<le> b \<Longrightarrow> b \<le> length s \<Longrightarrow> str_get s a b = Some (take (b - a) (drop a s))"
  by (simp add: str_get_def ascii_boundary)

lemma str_get_shift:
  assumes "ascii (p @ s)"
  shows "str_get (p @ s) (length p + a) (length p + b) = str_get s a b"
  using assms by (simp add: str_get_def ascii_boundary)

lemma ascii_zero_pad [simp]: "ascii (zero_pad w n)"
  by (simp add: ascii_digits zero_pad_digits)

text \<open>A date and a time as \<open>epoch_to_iso\<close> lays them out, before the zone.\<close>

definition date_time :: "nat \<Rightarrow> nat \<Rightarrow> nat \<Rightarrow> nat \<Rightarrow> nat \<Rightarrow> nat \<Rightarrow> string" where
  "date_time y mo d hh mm ss =
     zero_pad 4 y @ ''-'' @ zero_pad 2 mo @ ''-'' @ zero_pad 2 d @ ''T'' @
     zero_pad 2 hh @ '':'' @ zero_pad 2 mm @ '':'' @ zero_pad 2 ss"

definition fields_fit :: "nat \<Rightarrow> nat \<Rightarrow> nat \<Rightarrow> nat \<Rightarrow> nat \<Rightarrow> nat \<Rightarrow> bool" where
  "fields_fit y mo d hh mm ss \<longleftrightarrow>
     y < 10000 \<and> mo < 100 \<and> d < 100 \<and> hh < 100 \<and> mm < 100 \<and> ss < 100"

lemma field_lengths:
  assumes "fields_fit y mo d hh mm ss"
  shows "length (zero_pad 4 y) = 4" "length (zero_pad 2 mo) = 2" "length (zero_pad 2 d) = 2"
    "length (zero_pad 2 hh) = 2" "length (zero_pad 2 mm) = 2" "length (zero_pad 2 ss) = 2"
  using assms by (simp_all add: fields_fit_def length_zero_pad)

lemma length_date_time: "fields_fit y mo d hh mm ss \<Longrightarrow> length (date_time y mo d hh mm ss) = 19"
  by (simp add: date_time_def field_lengths)

lemma ascii_date_time: "ascii (date_time y mo d hh mm ss)"
  by (simp add: date_time_def)

lemma date_time_columns:
  assumes fit: "fields_fit y mo d hh mm ss" and "ascii r"
  defines "s \<equiv> date_time y mo d hh mm ss @ r"
  shows "Option.bind (str_get s 0 4) parse_i64 = Some (int y)"
    and "get_number (2 ^ 32) s 5 7 = Some mo" and "get_number (2 ^ 32) s 8 10 = Some d"
    and "get_number (2 ^ 32) s 11 13 = Some hh" and "get_number (2 ^ 32) s 14 16 = Some mm"
    and "get_number (2 ^ 32) s 17 19 = Some ss"
  unfolding s_def using assms(2) ascii_date_time
  by (simp_all add: get_number_def str_get_ascii length_date_time [OF fit])
     (use fit in \<open>simp_all add: date_time_def field_lengths [OF fit] parse_padded parse_i64_padded fields_fit_def\<close>)

section \<open>Fraction and zone\<close>

text \<open>Both depend only on what follows the seconds.\<close>

lemma iso_fraction_shift:
  "iso_fraction (p @ r) (length p) = (case iso_fraction r 0 of (n, i) \<Rightarrow> (n, length p + i))"
  by (simp add: iso_fraction_def Let_def nth_append)

lemma iso_offset_shift:
  assumes "ascii (p @ r)"
  shows "iso_offset (p @ r) (length p + i) = iso_offset r i"
proof -
  have "str_get (p @ r) (length p + i + a) (length p + i + b) = str_get r (i + a) (i + b)" for a b
    using str_get_shift [OF assms, of "i + a" "i + b"] by (simp add: add.assoc)
  then show ?thesis by (simp only: iso_offset_def length_append nth_append_length_plus) simp
qed

definition stamp_ms :: "int \<Rightarrow> nat \<Rightarrow> int \<Rightarrow> nat" where
  "stamp_ms secs nanos off = nat (((secs - off) * 1000 + int nanos div 1000000) mod 2 ^ 128)"

lemma parse_iso_date_time:
  assumes fit: "fields_fit y mo d hh mm ss" and r: "ascii r"
    and fr: "iso_fraction r 0 = (nanos, i)" and off: "iso_offset r i = Some off"
  shows "parse_iso_to_ms (date_time y mo d hh mm ss @ r) =
    Some (stamp_ms (ymd_to_days (int y) (int mo) (int d) * 86400 + int hh * 3600 + int mm * 60 + int ss)
      nanos off)"
proof -
  let ?p = "date_time y mo d hh mm ss"
  have l: "length ?p = 19" by (rule length_date_time [OF fit])
  have "iso_fraction (?p @ r) 19 = (nanos, 19 + i)"
    using iso_fraction_shift [of ?p r] fr by (simp add: l)
  moreover have "iso_offset (?p @ r) (19 + i) = Some off"
    using iso_offset_shift [of ?p r i] off r ascii_date_time [of y mo d hh mm ss] by (simp add: l)
  moreover have "as_i32 (int y) = int y" using fit by (simp add: fields_fit_def as_i32_id)
  ultimately show ?thesis
    using date_time_columns [OF fit r] by (simp add: parse_iso_to_ms_def l stamp_ms_def)
qed

lemma iso_fraction_none: "r = [] \<or> hd r \<noteq> CHR ''.'' \<Longrightarrow> iso_fraction r 0 = (0, 0)"
  by (cases r) (auto simp: iso_fraction_def)

lemma digits_value_append: "digits_value (a @ b) = digits_value a * 10 ^ length b + digits_value b"
proof (induction b rule: rev_induct)
  case (snoc c b)
  then show ?case
    by (simp add: digits_value_snoc append_assoc [symmetric] del: append_assoc)
qed (simp add: digits_value_def)

lemma digits_value_less: "list_all is_digit s \<Longrightarrow> digits_value s < 10 ^ length s"
proof (induction s rule: rev_induct)
  case (snoc c s)
  then have "digits_value s < 10 ^ length s" "byte c - 48 \<le> 9" by (auto simp: is_digit_def)
  then show ?case by (simp add: digits_value_snoc)
qed (simp add: digits_value_def)

text \<open>The milliseconds of a fraction are its first three digits, padded with zeros.\<close>

definition fraction_ms :: "string \<Rightarrow> nat" where
  "fraction_ms f = digits_value (take 3 (f @ ''000''))"

lemma take_digits_append: "list_all is_digit f \<Longrightarrow> r = [] \<or> \<not> is_digit (hd r) \<Longrightarrow> take_digits (f @ r) = f"
  by (induction f; cases r) (auto simp: take_digits_def)

lemma iso_fraction_some:
  assumes f: "list_all is_digit f" and r: "r = [] \<or> \<not> is_digit (hd r)"
  shows "\<exists>nanos. iso_fraction (''.'' @ f @ r) 0 = (nanos, 1 + length f) \<and> nanos div 1000000 = fraction_ms f"
proof -
  let ?pad = "f @ replicate (9 - length f) CHR ''0''"
  define p q where "p = take 3 ?pad" and "q = take 6 (drop 3 ?pad)"
  have pq: "take 9 ?pad = p @ q"
    using take_add [of 3 6 ?pad] by (simp add: p_def q_def)
  have dig: "list_all is_digit ?pad" using f by (auto simp: list_all_iff is_digit_def)
  then have d9: "list_all is_digit (p @ q)"
    unfolding pq [symmetric] by (auto simp: list_all_iff dest: in_set_takeD)
  have len: "length p = 3" "length q = 6" by (simp_all add: p_def q_def)
  have "digits_value q < 1000000"
    using digits_value_less [of q] d9 len by (simp add: list_all_iff)
  moreover have v: "digits_value (p @ q) = digits_value p * 1000000 + digits_value q"
    by (simp add: digits_value_append len)
  ultimately have "digits_value (p @ q) div 1000000 = digits_value p" by simp
  moreover have "p = take 3 (f @ ''000'')"
  proof (cases "length f < 3")
    case True
    then have "length f = 0 \<or> length f = 1 \<or> length f = 2" by linarith
    then show ?thesis by (elim disjE) (simp_all add: p_def numeral_eq_Suc)
  qed (simp add: p_def)
  moreover have "digits_value (p @ q) < 10 ^ 9"
    using digits_value_less [OF d9] len by simp
  then have "parse_unsigned (2 ^ 64) (p @ q) = Some (digits_value (p @ q))"
    using d9 len by (intro parse_unsigned_digits) auto
  moreover have "iso_fraction (''.'' @ f @ r) 0 =
      (case parse_unsigned (2 ^ 64) (take 9 ?pad) of Some n \<Rightarrow> n | None \<Rightarrow> 0, 1 + length f)"
    using take_digits_append [OF f r] by (simp add: iso_fraction_def Let_def)
  ultimately show ?thesis unfolding pq by (simp add: fraction_ms_def del: take_append)
qed

section \<open>What the harness prints\<close>

text \<open>The last second of the year 9999.\<close>

abbreviation last_second :: nat where
  "last_second \<equiv> 253402300799"

lemma ordinal_ge_year:
  assumes "valid_date y m d" and "10000 \<le> y"
  shows "2932897 \<le> ordinal y m d"
proof (cases "y = 10000 \<and> m \<le> 2")
  case True
  then have "ordinal y m d = year_start 9999 + march_day m d - 719468" by (simp add: ordinal_def march_year_def)
  moreover have "306 \<le> march_day m d"
    using True assms(1) by (auto simp: march_day_def march_month_def valid_date_def)
  ultimately show ?thesis by (simp add: year_start_def)
next
  case False
  then have "10000 \<le> march_year y m" using assms(2) by (auto simp: march_year_def)
  then have "25 \<le> march_year y m div 400" by linarith
  moreover have "0 \<le> march_year y m mod 400 * 365 + march_year y m mod 400 div 4 - march_year y m mod 400 div 100"
    using pos_mod_bound [of 400 "march_year y m"] pos_mod_sign [of 400 "march_year y m"] by linarith
  ultimately have "3652425 \<le> year_start (march_year y m)" unfolding year_start_era by linarith
  moreover have "0 \<le> march_day m d" using march_day_in_cycle [OF assms(1)] by simp
  ultimately show ?thesis by (simp add: ordinal_def)
qed

text \<open>A number of days has its valid date, reached by stepping from the epoch.\<close>

lemma date_of_days:
  assumes "n \<le> 364000000"
  obtains y m d where "days_to_ymd (int n) = (y, m, d)" and "ymd_to_days y m d = int n"
    and "valid_date y m d" and "1970 \<le> y" and "ordinal y m d = int n"
proof -
  obtain y m d where p: "(next_date ^^ n) epoch_date = (y, m, d)" by (metis prod_cases3)
  note s = next_date_iterate [OF p] and r = iterate_in_range [OF p assms]
  show ?thesis
    using that [of y m d] s r days_to_ymd_ordinal [of y m d] ymd_to_days_ordinal [of y m d] by simp
qed

lemma epoch_to_iso_date_time:
  assumes "secs \<le> last_second"
  obtains y mo d where "epoch_to_iso secs = date_time y mo d (secs mod 86400 div 3600)
      (secs mod 86400 mod 3600 div 60) (secs mod 86400 mod 60) @ ''Z''"
    and "fields_fit y mo d (secs mod 86400 div 3600) (secs mod 86400 mod 3600 div 60) (secs mod 86400 mod 60)"
    and "ymd_to_days (int y) (int mo) (int d) = int (secs div 86400)"
proof -
  have "secs div 86400 \<le> 2932896" using assms by simp
  then obtain y m d where c: "days_to_ymd (int (secs div 86400)) = (y, m, d)"
    and b: "ymd_to_days y m d = int (secs div 86400)" and v: "valid_date y m d" "1970 \<le> y"
    and o: "ordinal y m d = int (secs div 86400)"
    using date_of_days [of "secs div 86400"] by auto
  have y: "y < 10000"
    using ordinal_ge_year [OF v(1)] o \<open>secs div 86400 \<le> 2932896\<close> by linarith
  have md: "1 \<le> m" "m \<le> 12" "1 \<le> d" "d \<le> 31"
    using v(1) month_days_bounds [of y m] by (auto simp: valid_date_def)
  have nn: "int (nat y) = y" "int (nat m) = m" "int (nat d) = d" using v(2) md by simp_all
  have "nat y < 10000" "nat m < 100" "nat d < 100" using y md by auto
  moreover have "secs mod 86400 div 3600 < 100" "secs mod 86400 mod 3600 div 60 < 100"
    "secs mod 86400 mod 60 < 100" by (simp_all add: less_mult_imp_div_less)
  moreover have "\<not> y < 0" using v(2) by simp
  ultimately show ?thesis
    using that [of "nat y" "nat m" "nat d", unfolded nn] b c
    by (simp add: epoch_to_iso_def Let_def date_time_def fields_fit_def)
qed

lemma secs_split:
  "int (secs div 86400) * 86400 + int (secs mod 86400 div 3600) * 3600 +
   int (secs mod 86400 mod 3600 div 60) * 60 + int (secs mod 86400 mod 60) = int secs"
proof -
  define r where "r = secs mod 86400"
  have "r div 3600 * 3600 + r mod 3600 = r" "r mod 3600 div 60 * 60 + r mod 3600 mod 60 = r mod 3600"
    by simp_all
  moreover have "r mod 3600 mod 60 = r mod 60" by (simp add: mod_mod_cancel)
  moreover have "secs div 86400 * 86400 + r = secs" by (simp add: r_def)
  ultimately have "secs div 86400 * 86400 + r div 3600 * 3600 + r mod 3600 div 60 * 60 + r mod 60 = secs"
    by linarith
  then show ?thesis unfolding r_def [symmetric] by linarith
qed

lemma parse_printed:
  assumes s: "secs \<le> last_second" and r: "ascii r"
    and fr: "iso_fraction r 0 = (nanos, i)" and off: "iso_offset r i = Some off"
  shows "parse_iso_to_ms (butlast (epoch_to_iso secs) @ r) = Some (stamp_ms (int secs) nanos off)"
proof -
  obtain y mo d where e: "epoch_to_iso secs = date_time y mo d (secs mod 86400 div 3600)
      (secs mod 86400 mod 3600 div 60) (secs mod 86400 mod 60) @ ''Z''"
    and fit: "fields_fit y mo d (secs mod 86400 div 3600) (secs mod 86400 mod 3600 div 60) (secs mod 86400 mod 60)"
    and days: "ymd_to_days (int y) (int mo) (int d) = int (secs div 86400)"
    using epoch_to_iso_date_time [OF s] .
  show ?thesis
    using parse_iso_date_time [OF fit r fr off] unfolding days secs_split e by (simp add: butlast_append)
qed

lemma epoch_to_iso_ends: "secs \<le> last_second \<Longrightarrow> epoch_to_iso secs = butlast (epoch_to_iso secs) @ ''Z''"
  by (erule epoch_to_iso_date_time) (simp add: butlast_append)

lemma stamp_ms_utc: "secs \<le> last_second \<Longrightarrow> nanos div 1000000 < 1000 \<Longrightarrow>
  stamp_ms (int secs) nanos 0 = 1000 * secs + nanos div 1000000"
proof -
  assume a: "secs \<le> last_second" "nanos div 1000000 < 1000"
  have "stamp_ms (int secs) nanos 0 = nat (int (1000 * secs + nanos div 1000000) mod 2 ^ 128)"
    by (simp add: stamp_ms_def zdiv_int mult.commute)
  also have "int (1000 * secs + nanos div 1000000) mod 2 ^ 128 = int (1000 * secs + nanos div 1000000)"
    by (rule mod_pos_pos_trivial) (use a in simp_all)
  finally show ?thesis by simp
qed

lemma fraction_ms_less: "list_all is_digit f \<Longrightarrow> fraction_ms f < 1000"
proof -
  assume "list_all is_digit f"
  then have "list_all is_digit (take 3 (f @ ''000''))"
    by (auto simp: list_all_iff is_digit_def dest: in_set_takeD)
  moreover have "length (take 3 (f @ ''000'')) = 3" by simp
  ultimately show ?thesis using digits_value_less unfolding fraction_ms_def by fastforce
qed

section \<open>A lag\<close>

lemma parse_utc: "secs \<le> last_second \<Longrightarrow> parse_iso_to_ms (epoch_to_iso secs) = Some (1000 * secs)"
  using parse_printed [of secs "''Z''" 0 0 0] stamp_ms_utc [of secs 0]
  by (simp add: iso_fraction_none iso_offset_def flip: epoch_to_iso_ends)

lemma parse_utc_fraction:
  assumes "secs \<le> last_second" and f: "list_all is_digit f"
  shows "parse_iso_to_ms (butlast (epoch_to_iso secs) @ ''.'' @ f @ ''Z'') = Some (1000 * secs + fraction_ms f)"
proof -
  obtain nanos where n: "iso_fraction (''.'' @ f @ ''Z'') 0 = (nanos, 1 + length f)"
    "nanos div 1000000 = fraction_ms f"
    using iso_fraction_some [OF f, of "''Z''"] by (auto simp: is_digit_def)
  have "iso_offset (''.'' @ f @ ''Z'') (1 + length f) = Some 0"
    by (simp add: iso_offset_def nth_append)
  moreover have "ascii (''.'' @ f @ ''Z'')" using ascii_digits [OF f] by simp
  ultimately show ?thesis
    using parse_printed [OF assms(1) _ n(1)] stamp_ms_utc [OF assms(1), of nanos] fraction_ms_less [OF f] n(2)
    by simp
qed

text \<open>An offset is subtracted; \<open>sign\<close> is its sign.\<close>

definition zone_text :: "bool \<Rightarrow> nat \<Rightarrow> nat \<Rightarrow> string" where
  "zone_text west oh om = (if west then CHR ''-'' else CHR ''+'') # zero_pad 2 oh @ '':'' @ zero_pad 2 om"

lemma iso_offset_zone:
  assumes "oh < 100" and "om < 100"
  shows "iso_offset (zone_text west oh om) 0 =
    Some ((if west then -1 else 1) * (int oh * 3600 + int om * 60))"
proof -
  have l: "length (zero_pad 2 oh) = 2" "length (zero_pad 2 om) = 2"
    using assms by (simp_all add: length_zero_pad)
  have a: "ascii (zone_text west oh om)" by (simp add: zone_text_def)
  have "str_get (zone_text west oh om) 1 3 = Some (zero_pad 2 oh)"
    "str_get (zone_text west oh om) 4 6 = Some (zero_pad 2 om)"
    using str_get_ascii [OF a, of 1 3] str_get_ascii [OF a, of 4 6]
    by (simp_all add: zone_text_def l split del: if_split)
  then show ?thesis
    using assms by (cases west) (simp_all add: iso_offset_def Let_def parse_i64_padded zone_text_def)
qed

lemma parse_zone:
  assumes "secs \<le> last_second" and "oh < 100" and "om < 100"
    and "west \<or> oh * 3600 + om * 60 \<le> secs"
  shows "parse_iso_to_ms (butlast (epoch_to_iso secs) @ zone_text west oh om) =
    Some (if west then 1000 * (secs + (oh * 3600 + om * 60)) else 1000 * (secs - (oh * 3600 + om * 60)))"
proof -
  let ?o = "oh * 3600 + om * 60"
  have "iso_fraction (zone_text west oh om) 0 = (0, 0)"
    by (rule iso_fraction_none) (simp add: zone_text_def)
  then have p: "parse_iso_to_ms (butlast (epoch_to_iso secs) @ zone_text west oh om) =
      Some (stamp_ms (int secs) 0 ((if west then -1 else 1) * int ?o))"
    using parse_printed [OF assms(1) _ _ iso_offset_zone [OF assms(2,3)]]
    by (simp add: zone_text_def)
  have "stamp_ms (int secs) 0 ((if west then -1 else 1) * int ?o) =
      nat (int (if west then 1000 * (secs + ?o) else 1000 * (secs - ?o)) mod 2 ^ 128)"
  proof (cases west)
    case False
    with assms(4) obtain k where "secs = k + ?o" by (metis le_add_diff_inverse2)
    then show ?thesis using False by (simp add: stamp_ms_def algebra_simps)
  qed (simp add: stamp_ms_def algebra_simps)
  also have "\<dots> = (if west then 1000 * (secs + ?o) else 1000 * (secs - ?o))"
    using assms(1-3) by (subst mod_pos_pos_trivial) auto
  finally show ?thesis using p by simp
qed

text \<open>What a subscriber records of a message the daemon stamped with \<open>ts_ms\<close>.\<close>

lemma message_lag_value:
  "unat (message_lag_us now ts_ms) = max 1 (1000 * min 60000 (now - ts_ms))"
proof -
  define k where "k = 1000 * min 60000 (now - ts_ms)"
  have k: "k \<le> 60000000" by (simp add: k_def)
  then have u: "unat (of_nat k :: u64) = k" by (simp add: unat_of_nat)
  have "message_lag_us now ts_ms = max (of_nat k) 1"
    using k by (simp add: message_lag_us_def k_def Let_def min.commute mult.commute)
  then show ?thesis
    using u unfolding k_def [symmetric] by (auto simp: max_def word_le_nat_alt)
qed

lemma subscriber_text_issue:
  assumes "parse_json text = Some v" and "message_kind v = ''issue_created'' \<or> message_kind v = ''issue_updated''"
    and "json_get ''issue'' v = Some i" and "json_get ''last_seen'' i = Some (JStr s)"
    and "parse_iso_to_ms s = Some ts_ms"
  shows "subscriber_text H parse_json now text su =
    su\<lparr>su_counters := (su_counters su)\<lparr>sc_ws_received := sc_ws_received (su_counters su) + 1\<rparr>,
       su_hist := hist_add H (message_lag_us now ts_ms) (su_hist su)\<rparr>"
  using assms by (auto simp: subscriber_text_def json_as_str_def Let_def)

end
