(* ===== verification/Stress_Run.thy ===== *)
theory Stress_Run
  imports Stress_Time Ingest Ws Cli
begin

text \<open>
  The load harness at work: the pacing and the counts of a worker, and what its envelopes are to the
  daemon, by the daemon's own parser, fingerprint and gates.
\<close>

section \<open>A worker's turns\<close>

lemma worker_step_Ok:
  assumes "worker_step H gzip cli interval t st = (Ok st' :: ('e, 'h worker_state) outcome)"
  shows "wk_next st + interval \<le> wk_next st' \<and> wk_next st' \<le> wk_now st' \<and>
    wk_counters st' = count_answer (tu_answer t) (wk_counters st) \<and>
    (\<exists>post. worker_request gzip cli t = (Ok post :: ('e, stress_post) outcome) \<and>
       wk_posts st' = wk_posts st @ [post])"
  using assms by (auto simp: worker_step_def pace_def Let_def obind_Ok_iff split: if_splits)

text \<open>After \<open>n\<close> requests at least \<open>n\<close> intervals have passed.\<close>

definition paced :: "int \<Rightarrow> int \<Rightarrow> 'h worker_state \<Rightarrow> bool" where
  "paced start interval st \<longleftrightarrow>
     start + int (length (wk_posts st)) * interval \<le> wk_next st \<and> wk_next st \<le> wk_now st"

lemma worker_loop_paced:
  fixes st :: "'h worker_state"
  assumes "worker_loop H gzip cli interval deadline ts st = (Ok st' :: ('e, 'h worker_state) outcome)"
    and "paced start interval st"
    and "wk_posts st \<noteq> [] \<longrightarrow> start + int (length (wk_posts st) - 1) * interval < deadline"
  shows "wk_posts st' \<noteq> [] \<longrightarrow> start + int (length (wk_posts st') - 1) * interval < deadline"
  using assms
proof (induction ts arbitrary: st)
  case (Cons t ts)
  show ?case
  proof (cases "\<not> tu_stop t \<and> wk_now st < deadline")
    case True
    with Cons.prems(1) obtain s1 where s1: "worker_step H gzip cli interval t st = (Ok s1 :: ('e, _) outcome)"
      and l: "worker_loop H gzip cli interval deadline ts s1 = (Ok st' :: ('e, _) outcome)"
      by (auto simp: obind_Ok_iff)
    note w = worker_step_Ok [OF s1]
    have len: "length (wk_posts s1) = Suc (length (wk_posts st))" using w by auto
    have "wk_next st + interval \<le> wk_next s1" "wk_next s1 \<le> wk_now s1" using w by auto
    then have "paced start interval s1"
      using Cons.prems(2) by (simp add: paced_def len distrib_right)
    moreover have "start + int (length (wk_posts s1) - 1) * interval < deadline"
      using Cons.prems(2) True by (simp add: paced_def len)
    ultimately show ?thesis using Cons.IH [OF l] by blast
  next
    case False
    with Cons.prems show ?thesis by auto
  qed
qed simp

definition uncounted :: "http_answer \<Rightarrow> bool" where
  "uncounted a = (case a of
     Status s \<Rightarrow> \<not> (is_success s \<or> is_client_error s \<or> is_server_error s) | NoAnswer \<Rightarrow> False)"

definition accounted :: "stress_counters \<Rightarrow> u64" where
  "accounted c = sc_ok_2xx c + sc_err_429 c + sc_err_4xx c + sc_err_5xx c + sc_err_io c"

lemma count_answer_totals:
  "sc_sent (count_answer a c) = sc_sent c + 1 \<and>
   accounted (count_answer a c) + of_bool (uncounted a) = accounted c + 1"
  by (cases a)
     (auto simp: count_answer_def accounted_def uncounted_def is_success_def is_client_error_def
       is_server_error_def Let_def)

lemma worker_loop_totals:
  fixes st :: "'h worker_state"
  assumes "worker_loop H gzip cli interval deadline ts st = (Ok st' :: ('e, 'h worker_state) outcome)"
  shows "\<exists>n \<le> length ts. length (wk_posts st') = length (wk_posts st) + n \<and>
    sc_sent (wk_counters st') = sc_sent (wk_counters st) + of_nat n \<and>
    accounted (wk_counters st') + of_nat (length (filter (\<lambda>t. uncounted (tu_answer t)) (take n ts))) =
      accounted (wk_counters st) + of_nat n"
  using assms
proof (induction ts arbitrary: st)
  case (Cons t ts)
  show ?case
  proof (cases "\<not> tu_stop t \<and> wk_now st < deadline")
    case True
    with Cons.prems(1) obtain s1 where s1: "worker_step H gzip cli interval t st = (Ok s1 :: ('e, _) outcome)"
      and l: "worker_loop H gzip cli interval deadline ts s1 = (Ok st' :: ('e, _) outcome)"
      by (auto simp: obind_Ok_iff)
    note w = worker_step_Ok [OF s1] and c = count_answer_totals [of "tu_answer t" "wk_counters st"]
    obtain n where "n \<le> length ts" "length (wk_posts st') = length (wk_posts s1) + n"
      "sc_sent (wk_counters st') = sc_sent (wk_counters s1) + of_nat n"
      "accounted (wk_counters st') + of_nat (length (filter (\<lambda>t. uncounted (tu_answer t)) (take n ts))) =
        accounted (wk_counters s1) + of_nat n"
      using Cons.IH [OF l] by blast
    with w c show ?thesis
      by (intro exI [of _ "Suc n"]) (auto simp: algebra_simps split: if_splits)
  next
    case False
    with Cons.prems show ?thesis by (intro exI [of _ 0]) auto
  qed
qed (intro exI [of _ 0], simp)

section \<open>What the daemon reads\<close>

text \<open>
  The event serde reads from a payload of the harness: \<open>event_id\<close> and the time are arguments, and
  the keys that \<open>Event\<close> does not declare are dropped.
\<close>

definition harness_frame :: "nat \<Rightarrow> frame" where
  "harness_frame i =
     \<lparr>fr_filename = Some (''src/mod_'' @ show_nat i @ ''.rs''),
      fr_function = Some (''frame_'' @ show_nat i), fr_module = None,
      fr_lineno = Some (of_nat (100 + i)), fr_colno = None, fr_in_app = Some True\<rparr>"

definition harness_event :: "bytes \<Rightarrow> time \<Rightarrow> nat \<Rightarrow> string \<Rightarrow> nat \<Rightarrow> nat \<Rightarrow> event" where
  "harness_event uuid t sent_ts_ms project bucket frames =
     \<lparr>ev_event_id = uuid, ev_timestamp = t, ev_platform = Some ''rust'', ev_level = Some Error,
      ev_environment = None, ev_release = None, ev_server_name = None, ev_message = None,
      ev_exception = Some \<lparr>ec_values =
        [\<lparr>ex_ty = Some ''StressError'', ex_value = Some (''bucket_'' @ show_nat bucket), ex_module = None,
          ex_stacktrace = Some \<lparr>st_frames = map harness_frame [0..<frames]\<rparr>\<rparr>]\<rparr>,
      ev_breadcrumbs = None, ev_tags = None, ev_contexts = None,
      ev_extra = Some (JObj [(''harness_send_ms'', JNum (PosInt (of_nat sent_ts_ms))),
        (''project'', JStr project)]),
      ev_user = None, ev_request = None\<rparr>"

lemma harness_event_no_agent:
  "augment_tags_from_user_agent (harness_event u t ms project bucket frames) =
   harness_event u t ms project bucket frames"
  by (simp add: augment_tags_from_user_agent_def extract_user_agent_def harness_event_def)

lemma harness_grouping:
  "grouping_fields (harness_event u t ms project bucket frames) =
     Some (Some ''StressError'' #
       (if frames = 0 then []
        else [Some (''frame_'' @ show_nat (frames - 1)), Some (''src/mod_'' @ show_nat (frames - 1) @ ''.rs'')]))"
  by (cases frames)
     (simp_all add: grouping_fields_def primary_exception_def harness_event_def first_frame_def
       last_opt_def first_opt_def harness_frame_def)

text \<open>The fingerprint of all of them: a function of the number of frames.\<close>

definition harness_fingerprint :: "nat \<Rightarrow> fingerprint" where
  "harness_fingerprint frames = derive (harness_event [] 0 0 [] 0 frames)"

lemma derive_harness_event:
  "derive (harness_event u t ms project bucket frames) = harness_fingerprint frames"
  by (simp add: harness_fingerprint_def derive_eq_hash_of_input derive_input_def harness_grouping)

lemma newline_not_graphic: "list_all graphic s \<Longrightarrow> newline \<notin> set s"
  by (auto simp: list_all_iff graphic_def)

lemma newline_not_digit: "list_all is_digit s \<Longrightarrow> newline \<notin> set s"
  by (auto simp: list_all_iff is_digit_def)

lemma epoch_to_iso_one_line: "newline \<notin> set (epoch_to_iso n)"
  using newline_not_digit [OF zero_pad_digits]
  by (simp add: epoch_to_iso_def Let_def split: prod.split)

lemma frames_json_one_line: "newline \<notin> set (frames_json n)"
  using newline_not_digit [OF show_nat_digits]
  by (auto simp: frames_json_def frame_json_def)

lemma event_payload_one_line:
  "newline \<notin> set eid \<Longrightarrow> newline \<notin> set project \<Longrightarrow>
   newline \<notin> set (event_payload eid n ms project bucket frames)"
  using epoch_to_iso_one_line [of n] frames_json_one_line [of frames]
    newline_not_digit [OF show_nat_digits]
  by (simp add: event_payload_def)

lemma envelope_header_one_line:
  "newline \<notin> set eid \<Longrightarrow> newline \<notin> set (envelope_header eid n)"
  using epoch_to_iso_one_line [of n] by (simp add: envelope_header_def)

lemma build_event_body_Ok:
  "build_event_body rng eid hs ps project kinds frames ms = Ok (url, env) \<Longrightarrow>
   kinds \<noteq> 0 \<and> url = ''/api/'' @ project @ ''/envelope/'' \<and>
   env = render_envelope (envelope_header eid hs)
     [(event_item_header, event_payload eid ps ms project (rng kinds) frames)]"
  by (auto simp: build_event_body_def gen_range_def Let_def render_envelope_def render_item_def
      split: if_splits)

lemma harness_item:
  assumes "x_json X event_item_header = Some (JObj [(''type'', JStr ''event'')])"
    and "x_event X p = Some (harness_event u t ms project bucket frames)" and "newline \<notin> set p"
  shows "item_ok X (event_item_header, p) \<and>
    item_event X (event_item_header, p) = Some (harness_event u t ms project bucket frames)"
  using assms
  by (simp add: item_ok_def item_event_def item_length_def item_type_def json_get_def json_as_str_def
      json_as_u64_def harness_event_no_agent) (simp add: event_item_header_def)

lemma parse_harness_envelope:
  assumes b: "build_event_body rng eid hs ps project kinds frames ms = Ok (url, env)"
    and id: "newline \<notin> set eid" "newline \<notin> set project"
    and header: "x_json X (envelope_header eid hs) \<noteq> None"
    and item: "x_json X event_item_header = Some (JObj [(''type'', JStr ''event'')])"
    and event: "x_event X (event_payload eid ps ms project (rng kinds) frames) =
      Some (harness_event u t ms project (rng kinds) frames)"
    and len: "length env < 2 ^ 63"
  shows "parse_envelope X env = Ok [harness_event u t ms project (rng kinds) frames]"
proof -
  let ?it = "(event_item_header, event_payload eid ps ms project (rng kinds) frames)"
  note it = harness_item [OF item event event_payload_one_line [OF id]]
  have env: "env = render_envelope (envelope_header eid hs) [?it]"
    using build_event_body_Ok [OF b] by simp
  have "parse_envelope X (render_envelope (envelope_header eid hs) [?it]) =
      Ok (List.map_filter (item_event X) [?it])"
    using header it len envelope_header_one_line [OF id(1)]
    by (intro parse_envelope_render_aux) (simp_all add: env)
  then show ?thesis using it by (simp add: env map_filter_simps)
qed

section \<open>Flags that defeat the harness\<close>

text \<open>An empty range panics in the first turn of every worker, before anything is counted.\<close>

lemma worker_request_panics:
  "worker_request gzip cli t = Panic \<longleftrightarrow> cl_projects cli = 0 \<or> cl_cardinality cli = 0"
  by (auto simp: worker_request_def gen_range_def build_event_body_def obind_Panic_iff Let_def
      unat_eq_zero split: if_splits)

lemma worker_request_no_error: "worker_request gzip cli t \<noteq> Err e"
  by (cases "unat (cl_projects cli) = 0"; cases "unat (cl_cardinality cli) = 0")
     (auto simp: worker_request_def gen_range_def build_event_body_def Let_def)

lemma worker_loop_panics_at_once:
  fixes st :: "'h worker_state"
  assumes "worker_loop H gzip cli interval deadline ts st = (Panic :: ('e, 'h worker_state) outcome)"
  shows "cl_projects cli = 0 \<or> cl_cardinality cli = 0"
  using assms
  by (induction ts arbitrary: st)
     (auto simp: obind_Panic_iff worker_step_def worker_request_panics Let_def pace_def split: if_splits)

text \<open>The flag \<open>rps\<close> is documented as the aggregate rate, but no worker goes below one request a second.\<close>

lemma slow_rate_is_raised:
  "worker_interval (\<lambda>q. q) (default_stress_cli\<lparr>cl_rps := 5\<rparr>) = 1000000000 \<and>
   cl_workers (default_stress_cli\<lparr>cl_rps := 5\<rparr>) = 16"
  by (simp add: worker_interval_def per_worker_rps_def default_stress_cli_def from_secs_f64_def)

section \<open>Properties\<close>




definition demo_turn :: worker_turn where
  "demo_turn = \<lparr>tu_stop = False, tu_project = (\<lambda>n. 0), tu_bucket = (\<lambda>n. 0), tu_event_id = ''0'',
     tu_send_ms = 0, tu_header_secs = 0, tu_payload_secs = 0, tu_answer = Status 429, tu_build = 1,
     tu_wait = 5, tu_oversleep = 2\<rparr>"

definition demo_hist :: "u64 list hist_api" where
  "demo_hist = \<lparr>hi_new = [], hi_record = (\<lambda>v h. Some (v # h)), hi_len = (\<lambda>h. of_nat (length h)),
     hi_quantile = (\<lambda>q h. 0), hi_max = (\<lambda>h. 0), hi_mean = (\<lambda>h. 0)\<rparr>"

lemma demo_request:
  "\<exists>post. worker_request (\<lambda>b. b) default_stress_cli demo_turn = Ok post"
  by (simp add: worker_request_def gen_range_def build_event_body_def default_stress_cli_def demo_turn_def)

lemma demo_turn_simps:
  "tu_stop demo_turn = False" "tu_answer demo_turn = Status 429" "tu_build demo_turn = 1"
  "tu_wait demo_turn = 5" "tu_oversleep demo_turn = 2"
  by (simp_all add: demo_turn_def)

lemma demo_worker:
  "\<exists>st. worker_loop demo_hist (\<lambda>b. b) default_stress_cli 10 25 [demo_turn, demo_turn, demo_turn, demo_turn]
     (start_worker 0 zero_counters []) = (Ok st :: (string, u64 list worker_state) outcome) \<and>
   length (wk_posts st) = 3"
proof -
  obtain post where "worker_request (\<lambda>b. b) default_stress_cli demo_turn = (Ok post :: (string, _) outcome)"
    using demo_request by blast
  then show ?thesis
    by (simp add: worker_step_def pace_def start_worker_def demo_turn_simps)
qed



definition demo_reader :: "bytes \<Rightarrow> event \<Rightarrow> externs" where
  "demo_reader p e = demo_externs
     \<lparr>x_json := (\<lambda>b. Some (JObj [(''type'', JStr ''event'')])),
      x_event := (\<lambda>b. if b = p then Some e else None)\<rparr>"

definition demo_envelope :: bytes where
  "demo_envelope = render_envelope (envelope_header ''ab'' 0)
     [(event_item_header, event_payload ''ab'' 0 0 ''p1'' 7 1)]"

lemma demo_envelope_built:
  "build_event_body (\<lambda>n. 7) ''ab'' 0 0 ''p1'' 50 1 0 =
     (Ok (''/api/p1/envelope/'', demo_envelope) :: (string, _) outcome)"
  by (simp add: build_event_body_def gen_range_def demo_envelope_def render_envelope_def render_item_def)

lemma length_epoch_to_iso: "n \<le> last_second \<Longrightarrow> length (epoch_to_iso n) = 20"
  by (erule epoch_to_iso_date_time) (simp add: length_date_time)

lemma show_digit: "n < 10 \<Longrightarrow> show_nat n = [digit_char n]"
  by (subst show_nat.simps) simp

lemma show_three_digits: "100 \<le> n \<Longrightarrow> n < 1000 \<Longrightarrow> length (show_nat n) \<le> 3"
  by (rule show_nat_length) simp_all

lemma demo_envelope_short: "length demo_envelope < 1000"
  using show_three_digits [of 100]
  by (simp add: demo_envelope_def render_envelope_def render_item_def envelope_header_def
      event_item_header_def event_payload_def frames_json_def frame_json_def length_epoch_to_iso show_digit)


text \<open>C0: against a daemon as it is installed the harness measures refusals. It sends no token, so with
  \<open>require_auth\<close>, the default, every envelope is answered 401 and nothing is stored, which the
  harness counts as a client error; and its WebSocket, which carries no cookie, is not upgraded.\<close>

theorem harness_is_refused_by_default:
  fixes w :: "'z server_scheme"
  assumes "cf_require_auth cfg"
    and "worker_request gzip cli turn = (Ok post :: (string, _) outcome)"
    and "header_str ''cookie'' hs = None"
  shows "ingest_envelope X rnd cfg project (po_headers post) [] (po_body post) w =
      (Ok (plain 401 ''missing sentry_key''), w) \<and>
    ws_handle X cfg hs w = (Ok (plain 401 ''not signed in''), w) \<and>
    sc_err_4xx (count_answer (Status (re_status (plain 401 ''missing sentry_key''))) c) = sc_err_4xx c + 1"
proof -
  have "po_headers post = (''content-type'', ''application/x-sentry-envelope'') #
      (if cl_gzip cli then [(''content-encoding'', ''gzip'')] else [])"
    using assms(2) by (auto simp: worker_request_def obind_Ok_iff)
  then have "extract_sentry_key (po_headers post) [] = None"
    by (simp add: extract_sentry_key_def header_str_def map_filter_simps strip_prefix_def starts_with_def
        first_opt_def)
  then show ?thesis
    using assms(1,3)
    by (simp add: ingest_envelope_def ret_def ws_handle_def guarded_def bnd_def require_auth_def
        extract_session_id_def plain_def reply_def count_answer_def is_success_def is_client_error_def)
qed

theorem harness_is_refused_by_default_witness:
  fixes w :: "'z server_scheme"
  shows "\<exists>post. worker_request (\<lambda>b. b) default_stress_cli demo_turn = (Ok post :: (string, _) outcome) \<and>
    ingest_envelope demo_externs (\<lambda>q. q) (app_config_of default_config) ''p0'' (po_headers post) [] (po_body post) w =
      (Ok (plain 401 ''missing sentry_key''), w)"
proof -
  obtain post where p: "worker_request (\<lambda>b. b) default_stress_cli demo_turn = (Ok post :: (string, _) outcome)"
    using demo_request by blast
  with harness_is_refused_by_default [where cfg = "app_config_of default_config" and hs = "[]" and w = w,
      OF _ p] show ?thesis
    by (simp add: app_config_of_def default_config_def header_str_def)
qed

end
