(* ===== verification/Tests_Fingerprint.thy ===== *)
theory Tests_Fingerprint
  imports Fingerprint
begin

text \<open>
  The unit tests of \<open>crates/errexd/src/fingerprint.rs\<close>, one definition each: what the test asserts, of the
  events it builds. The kernel evaluates them on the model, the golden values included, which pin
  every byte of the hashed stream and every step of the hash.
\<close>

section \<open>The events of the tests\<close>

text \<open>Identifiers are random and the time is now: the tests hold for any.\<close>

definition ev_empty :: "bytes \<Rightarrow> time \<Rightarrow> event" where
  "ev_empty uuid now =
     \<lparr>ev_event_id = uuid, ev_timestamp = now, ev_platform = None, ev_level = None,
      ev_environment = None, ev_release = None, ev_server_name = None, ev_message = None,
      ev_exception = None, ev_breadcrumbs = None, ev_tags = None, ev_contexts = None,
      ev_extra = None, ev_user = None, ev_request = None\<rparr>"

definition ev_message_of :: "bytes \<Rightarrow> time \<Rightarrow> string \<Rightarrow> event" where
  "ev_message_of uuid now msg =
     \<lparr>ev_event_id = uuid, ev_timestamp = now, ev_platform = None, ev_level = None,
      ev_environment = None, ev_release = None, ev_server_name = None, ev_message = Some msg,
      ev_exception = None, ev_breadcrumbs = None, ev_tags = None, ev_contexts = None,
      ev_extra = None, ev_user = None, ev_request = None\<rparr>"

definition ev_with_exception :: "bytes \<Rightarrow> time \<Rightarrow> string \<Rightarrow> string \<Rightarrow> string \<Rightarrow> u32 \<Rightarrow> event" where
  "ev_with_exception uuid now ty function_name filename lineno =
     \<lparr>ev_event_id = uuid, ev_timestamp = now, ev_platform = None, ev_level = None,
      ev_environment = None, ev_release = None, ev_server_name = None, ev_message = None,
      ev_exception = Some \<lparr>ec_values = [\<lparr>ex_ty = Some ty, ex_value = None, ex_module = None,
        ex_stacktrace = Some \<lparr>st_frames = [\<lparr>fr_filename = Some filename, fr_function = Some function_name,
          fr_module = None, fr_lineno = Some lineno, fr_colno = None, fr_in_app = Some True\<rparr>]\<rparr>\<rparr>]\<rparr>,
      ev_breadcrumbs = None, ev_tags = None, ev_contexts = None, ev_extra = None, ev_user = None,
      ev_request = None\<rparr>"

section \<open>The tests\<close>

definition output_is_16_hex_chars :: "bytes \<Rightarrow> time \<Rightarrow> bool" where
  "output_is_16_hex_chars u t \<longleftrightarrow>
     (let s = derive (ev_with_exception u t ''E'' ''f'' ''a.js'' 1)
      in length s = 16 \<and> list_all is_hex_digit s)"

definition deterministic_across_calls :: "bytes \<Rightarrow> time \<Rightarrow> bytes \<Rightarrow> time \<Rightarrow> bool" where
  "deterministic_across_calls u t u' t' \<longleftrightarrow>
     derive (ev_with_exception u t ''E'' ''f'' ''a.js'' 1) = derive (ev_with_exception u' t' ''E'' ''f'' ''a.js'' 1)"

definition lineno_and_event_id_do_not_affect_grouping :: "bytes \<Rightarrow> time \<Rightarrow> bytes \<Rightarrow> time \<Rightarrow> bool" where
  "lineno_and_event_id_do_not_affect_grouping u t u' t' \<longleftrightarrow>
     derive (ev_with_exception u t ''TypeError'' ''checkout'' ''src/pay.ts'' 10) =
     derive (ev_with_exception u' t' ''TypeError'' ''checkout'' ''src/pay.ts'' 273)"

definition different_exception_types_produce_different_fingerprints :: "bytes \<Rightarrow> time \<Rightarrow> bytes \<Rightarrow> time \<Rightarrow> bool" where
  "different_exception_types_produce_different_fingerprints u t u' t' \<longleftrightarrow>
     derive (ev_with_exception u t ''TypeError'' ''f'' ''a.js'' 1) \<noteq>
     derive (ev_with_exception u' t' ''ReferenceError'' ''f'' ''a.js'' 1)"

definition different_functions_produce_different_fingerprints :: "bytes \<Rightarrow> time \<Rightarrow> bytes \<Rightarrow> time \<Rightarrow> bool" where
  "different_functions_produce_different_fingerprints u t u' t' \<longleftrightarrow>
     derive (ev_with_exception u t ''E'' ''alpha'' ''a.js'' 1) \<noteq>
     derive (ev_with_exception u' t' ''E'' ''beta'' ''a.js'' 1)"

definition different_filenames_produce_different_fingerprints :: "bytes \<Rightarrow> time \<Rightarrow> bytes \<Rightarrow> time \<Rightarrow> bool" where
  "different_filenames_produce_different_fingerprints u t u' t' \<longleftrightarrow>
     derive (ev_with_exception u t ''E'' ''f'' ''a.js'' 1) \<noteq>
     derive (ev_with_exception u' t' ''E'' ''f'' ''b.js'' 1)"

definition message_only_events_group_by_message :: "bytes \<Rightarrow> time \<Rightarrow> bytes \<Rightarrow> time \<Rightarrow> bytes \<Rightarrow> time \<Rightarrow> bool" where
  "message_only_events_group_by_message u t u' t' u'' t'' \<longleftrightarrow>
     (let a = derive (ev_message_of u t ''Database connection lost'');
          b = derive (ev_message_of u' t' ''Database connection lost'');
          c = derive (ev_message_of u'' t'' ''Different message'')
      in a = b \<and> a \<noteq> c)"

definition empty_event_falls_back_to_event_id :: "bytes \<Rightarrow> time \<Rightarrow> bytes \<Rightarrow> time \<Rightarrow> bool" where
  "empty_event_falls_back_to_event_id u t u' t' \<longleftrightarrow> derive (ev_empty u t) \<noteq> derive (ev_empty u' t')"

definition golden_exception_with_frame :: "bytes \<Rightarrow> time \<Rightarrow> bool" where
  "golden_exception_with_frame u t \<longleftrightarrow>
     derive (ev_with_exception u t ''TypeError'' ''checkout'' ''src/pay.ts'' 10) = ''d1337c46f0989069''"

definition golden_exception_without_frame :: "bytes \<Rightarrow> time \<Rightarrow> bool" where
  "golden_exception_without_frame u t \<longleftrightarrow>
     derive ((ev_empty u t)\<lparr>ev_exception := Some \<lparr>ec_values = [\<lparr>ex_ty = Some ''ReferenceError'',
       ex_value = None, ex_module = None, ex_stacktrace = None\<rparr>]\<rparr>\<rparr>) = ''adeacf91b32ef0ce''"

definition golden_message_only :: "bytes \<Rightarrow> time \<Rightarrow> bool" where
  "golden_message_only u t \<longleftrightarrow> derive (ev_message_of u t ''Database connection lost'') = ''9e2ea9bc10aefce8''"

definition golden_event_id_fallback :: "bytes \<Rightarrow> time \<Rightarrow> bool" where
  "golden_event_id_fallback u t \<longleftrightarrow>
     derive ((ev_empty u t)\<lparr>ev_event_id :=
       [CHR 0x12, CHR 0x34, CHR 0x56, CHR 0x78, CHR 0x12, CHR 0x34, CHR 0x56, CHR 0x78,
        CHR 0x12, CHR 0x34, CHR 0x56, CHR 0x78, CHR 0x12, CHR 0x34, CHR 0x56, CHR 0x78]\<rparr>) = ''9900bf86b92101a5''"

definition exception_takes_precedence_over_message :: "bytes \<Rightarrow> time \<Rightarrow> bytes \<Rightarrow> time \<Rightarrow> bool" where
  "exception_takes_precedence_over_message u t u' t' \<longleftrightarrow>
     derive ((ev_with_exception u t ''E'' ''f'' ''a.js'' 1)\<lparr>ev_message := Some ''changing message 1''\<rparr>) =
     derive ((ev_with_exception u' t' ''E'' ''f'' ''a.js'' 1)\<lparr>ev_message := Some ''changing message 2''\<rparr>)"

section \<open>They pass\<close>

text \<open>The hash on integers, where the simplifier computes.\<close>

definition fnv_int :: "int \<Rightarrow> bytes \<Rightarrow> int" where
  "fnv_int h bs = foldl (\<lambda>h b. (xor h (of_char b) * 0x00000100000001b3) mod 2 ^ 64) h bs"

lemma fnv_int_simps [simp]:
  "fnv_int h [] = h"
  "fnv_int h (b # bs) = fnv_int ((xor h (of_char b) * 1099511628211) mod 18446744073709551616) bs"
  by (simp_all add: fnv_int_def)

lemma uint_fnv_step: "uint (fnv_step h b) = (xor (uint h) (of_char b) * 0x00000100000001b3) mod 2 ^ 64"
proof -
  have "byte b < 2 ^ 64" by (rule order.strict_trans [OF nat_of_char_less_256]) simp
  then have "int (take_bit 64 (byte b)) = of_char b"
    by (simp only: take_bit_nat_eq_self of_nat_of_char)
  then show ?thesis
    by (simp add: fnv_step_def FNV_PRIME_def uint_word_arith_bintrs unsigned_xor_eq take_bit_eq_mod unsigned_of_nat)
qed

lemma uint_fnv_write: "uint (fnv_write h bs) = fnv_int (uint h) bs"
  by (induction bs arbitrary: h) (simp_all add: fnv_write_def fnv_int_def uint_fnv_step)

lemma hex_fixed_numeral:
  "hex_fixed (numeral k) n = hex_fixed (pred_numeral k) (n div 16) @ [hex_digit (n mod 16)]"
  by (simp only: numeral_eq_Suc [of k] hex_fixed.simps)

lemma hex16_write: "hex16 (fnv_write FNV_OFFSET_BASIS bs) = hex_fixed 16 (nat (fnv_int 14695981039346656037 bs))"
  using uint_fnv_write [of FNV_OFFSET_BASIS bs] by (simp add: hex16_def FNV_OFFSET_BASIS_def flip: nat_uint_eq)

lemma grouping_of_test_events:
  "derive (ev_with_exception u t ty f file n) =
     hex16 (fnv_write FNV_OFFSET_BASIS (fields_bytes [Some ty, Some f, Some file]))"
  "derive (ev_message_of u t m) = hex16 (fnv_write FNV_OFFSET_BASIS (fields_bytes [Some m]))"
  "derive (ev_empty u t) = hex16 (fnv_write FNV_OFFSET_BASIS u)"
  by (simp_all add: derive_eq_hash_of_input derive_input_def grouping_fields_def primary_exception_def
      first_frame_def ev_with_exception_def ev_message_of_def ev_empty_def last_opt_def first_opt_def)

lemma grouping_of_special_events:
  "derive ((ev_empty u t)\<lparr>ev_exception := Some \<lparr>ec_values = [\<lparr>ex_ty = ty, ex_value = None,
     ex_module = None, ex_stacktrace = None\<rparr>]\<rparr>\<rparr>) = hex16 (fnv_write FNV_OFFSET_BASIS (fields_bytes [ty]))"
  "derive ((ev_empty u t)\<lparr>ev_event_id := i\<rparr>) = hex16 (fnv_write FNV_OFFSET_BASIS i)"
  "derive ((ev_with_exception u t ty' f file n)\<lparr>ev_message := m\<rparr>) = derive (ev_with_exception u t ty' f file n)"
  by (simp_all add: derive_eq_hash_of_input derive_input_def grouping_fields_def primary_exception_def
      first_frame_def ev_with_exception_def ev_empty_def last_opt_def first_opt_def)

lemmas compute_hash = hex16_write fields_bytes_def opt_str_bytes_def hex_fixed_numeral hex_digit_def char_of_def bit_0

lemma golden_values:
  "golden_exception_with_frame u t" "golden_exception_without_frame u t"
  "golden_message_only u t" "golden_event_id_fallback u t"
  by (simp_all add: golden_exception_with_frame_def golden_exception_without_frame_def golden_message_only_def
      golden_event_id_fallback_def grouping_of_test_events grouping_of_special_events compute_hash)

lemma fingerprint_contract:
  "output_is_16_hex_chars u t" "deterministic_across_calls u t u' t'"
  "lineno_and_event_id_do_not_affect_grouping u t u' t'"
  "exception_takes_precedence_over_message u t u' t'"
  by (simp_all add: output_is_16_hex_chars_def deterministic_across_calls_def Let_def
      lineno_and_event_id_do_not_affect_grouping_def exception_takes_precedence_over_message_def
      grouping_of_special_events grouping_of_test_events hex16_def hex_fixed_digits)

lemma fingerprint_distinctions:
  "different_exception_types_produce_different_fingerprints u t u' t'"
  "different_functions_produce_different_fingerprints u t u' t'"
  "different_filenames_produce_different_fingerprints u t u' t'"
  "message_only_events_group_by_message u t u' t' u'' t''"
  by (simp_all add: different_exception_types_produce_different_fingerprints_def
      different_functions_produce_different_fingerprints_def
      different_filenames_produce_different_fingerprints_def message_only_events_group_by_message_def
      grouping_of_test_events compute_hash)

text \<open>
  The test of two empty events is about random identifiers, which may collide in the hash; two that
  differ in one byte cannot.
\<close>

lemma empty_events_differ:
  "x \<noteq> y \<Longrightarrow> empty_event_falls_back_to_event_id (a @ x # b) t (a @ y # b) t'"
  using fnv_write_inj_byte [of FNV_OFFSET_BASIS a x b y] hex16_inj
  by (auto simp: empty_event_falls_back_to_event_id_def grouping_of_test_events)

end
