(* ===== verification/Tests_User_Agent.thy ===== *)
theory Tests_User_Agent
  imports User_Agent Tests_Fingerprint
begin

text \<open>
  The unit tests of \<open>crates/errexd/src/user_agent.rs\<close>, one definition each, on the events serde reads from the
  JSON of the tests.
\<close>

section \<open>The events of the tests\<close>

definition ev_with_headers :: "bytes \<Rightarrow> time \<Rightarrow> (string \<times> json) list \<Rightarrow> event" where
  "ev_with_headers uuid now headers =
     (ev_empty uuid now)\<lparr>ev_request := Some (JObj [(''headers'', JObj headers)])\<rparr>"

definition ev_with_ua :: "bytes \<Rightarrow> time \<Rightarrow> string \<Rightarrow> event" where
  "ev_with_ua uuid now ua = ev_with_headers uuid now [(''User-Agent'', JStr ua)]"

definition tag_of :: "event \<Rightarrow> string \<Rightarrow> string option" where
  "tag_of e key = Option.bind (Option.bind (ev_tags e) (json_get key)) json_as_str"

section \<open>The tests\<close>

definition linux_chrome_136 :: "bytes \<Rightarrow> time \<Rightarrow> bool" where
  "linux_chrome_136 u t \<longleftrightarrow>
     (let ev = augment_tags_from_user_agent (ev_with_ua u t ''Mozilla/5.0 (X11; Linux x86_64) AppleWebKit/537.36 (KHTML, like Gecko) Chrome/136.0.0.0 Safari/537.36'')
      in tag_of ev ''os.name'' = Some ''Linux'' \<and> tag_of ev ''os'' = Some ''Linux'' \<and>
         tag_of ev ''browser.name'' = Some ''Chrome'' \<and> tag_of ev ''browser'' = Some ''Chrome 136.0.0.0'')"

definition windows_10_edge :: "bytes \<Rightarrow> time \<Rightarrow> bool" where
  "windows_10_edge u t \<longleftrightarrow>
     (let ev = augment_tags_from_user_agent (ev_with_ua u t ''Mozilla/5.0 (Windows NT 10.0; Win64; x64) AppleWebKit/537.36 (KHTML, like Gecko) Chrome/120.0.0.0 Safari/537.36 Edg/120.0.0.0'')
      in tag_of ev ''os.name'' = Some ''Windows'' \<and> tag_of ev ''os'' = Some ''Windows 10'' \<and>
         tag_of ev ''browser.name'' = Some ''Edge'' \<and> tag_of ev ''browser'' = Some ''Edge 120.0.0.0'')"

definition macos_safari :: "bytes \<Rightarrow> time \<Rightarrow> bool" where
  "macos_safari u t \<longleftrightarrow>
     (let ev = augment_tags_from_user_agent (ev_with_ua u t ''Mozilla/5.0 (Macintosh; Intel Mac OS X 14_5_0) AppleWebKit/605.1.15 (KHTML, like Gecko) Version/17.5 Safari/605.1.15'')
      in tag_of ev ''os.name'' = Some ''macOS'' \<and> tag_of ev ''os'' = Some ''macOS 14.5.0'' \<and>
         tag_of ev ''browser.name'' = Some ''Safari'' \<and> tag_of ev ''browser'' = Some ''Safari 17.5'')"

definition android_firefox :: "bytes \<Rightarrow> time \<Rightarrow> bool" where
  "android_firefox u t \<longleftrightarrow>
     (let ev = augment_tags_from_user_agent (ev_with_ua u t ''Mozilla/5.0 (Android 14; Mobile; rv:122.0) Gecko/122.0 Firefox/122.0'')
      in tag_of ev ''os.name'' = Some ''Android'' \<and> tag_of ev ''os'' = Some ''Android 14'' \<and>
         tag_of ev ''browser.name'' = Some ''Firefox'' \<and> tag_of ev ''browser'' = Some ''Firefox 122.0'')"

definition iphone_safari :: "bytes \<Rightarrow> time \<Rightarrow> bool" where
  "iphone_safari u t \<longleftrightarrow>
     (let ev = augment_tags_from_user_agent (ev_with_ua u t ''Mozilla/5.0 (iPhone; CPU iPhone OS 17_5_1 like Mac OS X) AppleWebKit/605.1.15 (KHTML, like Gecko) Version/17.5 Mobile/15E148 Safari/604.1'')
      in tag_of ev ''os.name'' = Some ''iOS'' \<and> tag_of ev ''os'' = Some ''iOS 17.5.1'' \<and>
         tag_of ev ''browser.name'' = Some ''Safari'' \<and> tag_of ev ''browser'' = Some ''Safari 17.5'')"

definition missing_user_agent_is_a_noop :: "bytes \<Rightarrow> time \<Rightarrow> bool" where
  "missing_user_agent_is_a_noop u t \<longleftrightarrow> ev_tags (augment_tags_from_user_agent (ev_with_headers u t [])) = None"

definition lowercase_header_name_is_accepted :: "bytes \<Rightarrow> time \<Rightarrow> bool" where
  "lowercase_header_name_is_accepted u t \<longleftrightarrow>
     (let ev = augment_tags_from_user_agent (ev_with_headers u t
        [(''user-agent'', JStr ''Mozilla/5.0 (X11; Linux x86_64) Firefox/115.0'')])
      in tag_of ev ''browser.name'' = Some ''Firefox'')"

definition pre_existing_tags_are_not_overwritten :: "bytes \<Rightarrow> time \<Rightarrow> bool" where
  "pre_existing_tags_are_not_overwritten u t \<longleftrightarrow>
     (let ev = augment_tags_from_user_agent
        ((ev_with_headers u t [(''User-Agent'', JStr ''Mozilla/5.0 (X11; Linux x86_64) Chrome/120.0.0.0 Safari/537.36'')])
           \<lparr>ev_tags := Some (JObj [(''browser.name'', JStr ''Mine''), (''os'', JStr ''Custom OS Forever'')])\<rparr>)
      in tag_of ev ''os'' = Some ''Custom OS Forever'' \<and> tag_of ev ''browser.name'' = Some ''Mine'' \<and>
         tag_of ev ''os.name'' = Some ''Linux'')"

section \<open>They pass\<close>

text \<open>On an event without tags, a tag is what the parsed agent gives for its key.\<close>

lemma tag_of_augmented:
  assumes "extract_user_agent e = Some ua" and "ev_tags e = None"
  shows "tag_of (augment_tags_from_user_agent e) k = map_of (parse_user_agent ua) k"
  using assms foldl_or_insert_new [of "[]" k "parse_user_agent ua"]
  by (cases "map_of (parse_user_agent ua) k")
     (auto simp: augment_tags_from_user_agent_def ensure_tags_object_def tag_of_def Let_def
      json_get_def json_as_str_def)

lemma extract_of_test_events:
  "extract_user_agent (ev_with_headers u t []) = None"
  "eq_ignore_ascii_case name ''user-agent'' \<Longrightarrow>
     extract_user_agent (ev_with_headers u t [(name, JStr ua)]) = Some ua"
  by (simp_all add: extract_user_agent_def ev_with_headers_def json_get_def json_as_str_def)

lemma header_names:
  "eq_ignore_ascii_case ''User-Agent'' ''user-agent''" "eq_ignore_ascii_case ''user-agent'' ''user-agent''"
  by code_simp+

lemma tags_of_test_events: "ev_tags (ev_with_headers u t hs) = None"
  by (simp add: ev_with_headers_def ev_empty_def)

lemmas test_event_facts = tag_of_augmented extract_of_test_events header_names tags_of_test_events

lemma parsed_agents:
  "parse_user_agent ''Mozilla/5.0 (X11; Linux x86_64) AppleWebKit/537.36 (KHTML, like Gecko) Chrome/136.0.0.0 Safari/537.36'' =
     [(''os.name'', ''Linux''), (''os'', ''Linux''), (''browser.name'', ''Chrome''), (''browser'', ''Chrome 136.0.0.0'')]"
  "parse_user_agent ''Mozilla/5.0 (Windows NT 10.0; Win64; x64) AppleWebKit/537.36 (KHTML, like Gecko) Chrome/120.0.0.0 Safari/537.36 Edg/120.0.0.0'' =
     [(''os.name'', ''Windows''), (''os'', ''Windows 10''), (''browser.name'', ''Edge''), (''browser'', ''Edge 120.0.0.0'')]"
  "parse_user_agent ''Mozilla/5.0 (Macintosh; Intel Mac OS X 14_5_0) AppleWebKit/605.1.15 (KHTML, like Gecko) Version/17.5 Safari/605.1.15'' =
     [(''os.name'', ''macOS''), (''os'', ''macOS 14.5.0''), (''browser.name'', ''Safari''), (''browser'', ''Safari 17.5'')]"
  "parse_user_agent ''Mozilla/5.0 (Android 14; Mobile; rv:122.0) Gecko/122.0 Firefox/122.0'' =
     [(''os.name'', ''Android''), (''os'', ''Android 14''), (''browser.name'', ''Firefox''), (''browser'', ''Firefox 122.0'')]"
  "parse_user_agent ''Mozilla/5.0 (iPhone; CPU iPhone OS 17_5_1 like Mac OS X) AppleWebKit/605.1.15 (KHTML, like Gecko) Version/17.5 Mobile/15E148 Safari/604.1'' =
     [(''os.name'', ''iOS''), (''os'', ''iOS 17.5.1''), (''browser.name'', ''Safari''), (''browser'', ''Safari 17.5'')]"
  "parse_user_agent ''Mozilla/5.0 (X11; Linux x86_64) Firefox/115.0'' =
     [(''os.name'', ''Linux''), (''os'', ''Linux''), (''browser.name'', ''Firefox''), (''browser'', ''Firefox 115.0'')]"
  "parse_user_agent ''Mozilla/5.0 (X11; Linux x86_64) Chrome/120.0.0.0 Safari/537.36'' =
     [(''os.name'', ''Linux''), (''os'', ''Linux''), (''browser.name'', ''Chrome''), (''browser'', ''Chrome 120.0.0.0'')]"
  by code_simp+

lemma agent_tests_pass:
  "linux_chrome_136 u t" "windows_10_edge u t" "macos_safari u t" "android_firefox u t" "iphone_safari u t"
  by (simp_all add: linux_chrome_136_def windows_10_edge_def macos_safari_def android_firefox_def
      iphone_safari_def ev_with_ua_def Let_def test_event_facts parsed_agents)

lemma header_tests_pass:
  "missing_user_agent_is_a_noop u t" "lowercase_header_name_is_accepted u t"
  by (simp_all add: missing_user_agent_is_a_noop_def lowercase_header_name_is_accepted_def Let_def
      augment_tags_from_user_agent_def [of "ev_with_headers u t []"] test_event_facts parsed_agents)

lemma tags_are_kept: "pre_existing_tags_are_not_overwritten u t"
proof -
  let ?ua = "''Mozilla/5.0 (X11; Linux x86_64) Chrome/120.0.0.0 Safari/537.36''"
  have "extract_user_agent ((ev_with_headers u t [(''User-Agent'', JStr ?ua)])\<lparr>ev_tags := tags\<rparr>) = Some ?ua" for tags
    using extract_of_test_events(2) [OF header_names(1)] by (simp add: extract_user_agent_def)
  then show ?thesis
    by (simp add: pre_existing_tags_are_not_overwritten_def augment_tags_from_user_agent_def parsed_agents
        ensure_tags_object_def or_insert_def tag_of_def json_get_def json_as_str_def Let_def)
qed

end
