(* ===== verification/Tests_Guard.thy ===== *)
theory Tests_Guard
  imports Auth Rate_Limit
begin

text \<open>
  The unit tests of the login guard and of the rate limiter, one definition each: \<open>lockout.rs\<close>,
  \<open>crypto.rs\<close>, \<open>auth.rs\<close> and \<open>rate_limit.rs\<close> under \<open>crates/errexd/src/\<close>. What a test draws at random or reads
  from the clock is an argument. Argon2 and the rounding of \<open>f64\<close> are the model's parameters: their
  documented behaviour is a hypothesis of the lemmas that run the tests.
\<close>

section \<open>Lockout\<close>

definition is_allowed :: "lockout_decision \<Rightarrow> bool" where
  "is_allowed d = (case d of Allow \<Rightarrow> True | _ \<Rightarrow> False)"

definition policy :: lockout_policy where
  "policy = default_policy"

definition allows_when_both_below_thresholds :: bool where
  "allows_when_both_below_thresholds \<longleftrightarrow>
     lockout_evaluate policy 0 0 = Allow \<and> lockout_evaluate policy 4 19 = Allow"

definition blocks_at_user_threshold_exactly :: bool where
  "blocks_at_user_threshold_exactly \<longleftrightarrow>
     (let d = lockout_evaluate policy 5 0
      in (case d of BlockedByUser _ \<Rightarrow> True | _ \<Rightarrow> False) \<and> retry_after_secs d = Some (15 * 60))"

definition blocks_at_ip_threshold_exactly :: bool where
  "blocks_at_ip_threshold_exactly \<longleftrightarrow>
     (let d = lockout_evaluate policy 0 20
      in (case d of BlockedByIp _ \<Rightarrow> True | _ \<Rightarrow> False) \<and> retry_after_secs d = Some (15 * 60))"

definition user_threshold_takes_precedence_over_ip_when_both_breached :: bool where
  "user_threshold_takes_precedence_over_ip_when_both_breached \<longleftrightarrow>
     (case lockout_evaluate policy 5 20 of BlockedByUser _ \<Rightarrow> True | _ \<Rightarrow> False)"

definition high_counts_still_block :: bool where
  "high_counts_still_block \<longleftrightarrow>
     \<not> is_allowed (lockout_evaluate policy 99 0) \<and> \<not> is_allowed (lockout_evaluate policy 0 999)"

definition custom_policy_thresholds_are_honoured :: bool where
  "custom_policy_thresholds_are_honoured \<longleftrightarrow>
     (let p = \<lparr>lp_user_threshold = 3, lp_ip_threshold = 100,
               lp_window = 5 * 60 * 1000000000, lp_cooldown = 5 * 60 * 1000000000\<rparr>
      in is_allowed (lockout_evaluate p 2 0) \<and> \<not> is_allowed (lockout_evaluate p 3 0) \<and>
         retry_after_secs (lockout_evaluate p 3 0) = Some 300)"

definition retry_after_is_at_least_one_second :: bool where
  "retry_after_is_at_least_one_second \<longleftrightarrow>
     (let p = default_policy\<lparr>lp_cooldown := 0\<rparr>
      in retry_after_secs (lockout_evaluate p 99 0) = Some 1)"

definition allow_carries_no_retry_after :: bool where
  "allow_carries_no_retry_after \<longleftrightarrow> retry_after_secs Allow = None"

lemma lockout_tests_pass:
  allows_when_both_below_thresholds blocks_at_user_threshold_exactly blocks_at_ip_threshold_exactly
  user_threshold_takes_precedence_over_ip_when_both_breached high_counts_still_block
  custom_policy_thresholds_are_honoured retry_after_is_at_least_one_second allow_carries_no_retry_after
  by code_simp+

section \<open>Passwords and session ids\<close>

text \<open>
  The contract of the argon2 crate: hashing with a salt of the salt alphabet succeeds, the check
  accepts exactly the password that was hashed, two salts give two hashes, and text that is not in
  the PHC format is unreadable.
\<close>

definition is_salt :: "string \<Rightarrow> bool" where
  "is_salt s \<longleftrightarrow> CHR ''$'' \<notin> set s"

definition argon2_contract :: "externs \<Rightarrow> bool" where
  "argon2_contract X \<longleftrightarrow>
     (\<forall>salt pw. is_salt salt \<longrightarrow> (\<exists>h. x_hash X salt pw = Some h \<and> (\<forall>p. x_verify X h p = Some (p = pw)))) \<and>
     (\<forall>salt salt' pw. is_salt salt \<longrightarrow> is_salt salt' \<longrightarrow> salt \<noteq> salt' \<longrightarrow> x_hash X salt pw \<noteq> x_hash X salt' pw) \<and>
     x_verify X ''not a phc string'' ''anything'' = None \<and> x_verify X [] ''anything'' = None"

text \<open>A test that unwraps the hash fails when there is none.\<close>

definition hash_then_verify_roundtrips :: "externs \<Rightarrow> string \<Rightarrow> bool" where
  "hash_then_verify_roundtrips X salt \<longleftrightarrow>
     (case hash_password X salt ''correct horse battery staple'' of
        Some h \<Rightarrow> verify_password X h ''correct horse battery staple'' | None \<Rightarrow> False)"

definition verify_rejects_wrong_password :: "externs \<Rightarrow> string \<Rightarrow> bool" where
  "verify_rejects_wrong_password X salt \<longleftrightarrow>
     (case hash_password X salt ''correct horse battery staple'' of
        Some h \<Rightarrow> \<not> verify_password X h ''wrong horse battery staple'' | None \<Rightarrow> False)"

definition each_hash_is_unique_thanks_to_salt :: "externs \<Rightarrow> string \<Rightarrow> string \<Rightarrow> bool" where
  "each_hash_is_unique_thanks_to_salt X salt salt' \<longleftrightarrow>
     (case (hash_password X salt ''same password'', hash_password X salt' ''same password'') of
        (Some a, Some b) \<Rightarrow>
          a \<noteq> b \<and> verify_password X a ''same password'' \<and> verify_password X b ''same password''
      | _ \<Rightarrow> False)"

definition verify_returns_false_for_garbage_hash :: "externs \<Rightarrow> bool" where
  "verify_returns_false_for_garbage_hash X \<longleftrightarrow>
     \<not> verify_password X ''not a phc string'' ''anything'' \<and> \<not> verify_password X [] ''anything''"

definition verify_returns_false_for_empty_password_against_real_hash :: "externs \<Rightarrow> string \<Rightarrow> bool" where
  "verify_returns_false_for_empty_password_against_real_hash X salt \<longleftrightarrow>
     (case hash_password X salt ''real'' of Some h \<Rightarrow> \<not> verify_password X h [] | None \<Rightarrow> False)"

definition generate_session_id_is_64_hex_chars :: "bytes \<times> bytes \<Rightarrow> bool" where
  "generate_session_id_is_64_hex_chars us \<longleftrightarrow>
     (let id = generate_session_id us in length id = 64 \<and> list_all is_hex_digit id)"

definition generate_session_id_is_unique_per_call :: "bytes \<times> bytes \<Rightarrow> bytes \<times> bytes \<Rightarrow> bool" where
  "generate_session_id_is_unique_per_call us vs \<longleftrightarrow> generate_session_id us \<noteq> generate_session_id vs"

definition validate_password_strength_accepts_twelve_or_more :: bool where
  "validate_password_strength_accepts_twelve_or_more \<longleftrightarrow>
     validate_password_strength ''twelve chars'' = Inr () \<and>
     validate_password_strength ''a much longer passphrase indeed'' = Inr ()"

definition validate_password_strength_rejects_too_short :: bool where
  "validate_password_strength_rejects_too_short \<longleftrightarrow>
     isl (validate_password_strength ''short'') \<and>
     isl (validate_password_strength ''eleven chrs'') \<and>
     isl (validate_password_strength [])"

definition validate_password_strength_rejects_too_long :: bool where
  "validate_password_strength_rejects_too_long \<longleftrightarrow>
     (let huge = replicate 257 (CHR ''a'') in isl (validate_password_strength huge))"

lemma hash_and_check:
  assumes "argon2_contract X" "is_salt salt"
  obtains h where "hash_password X salt pw = Some h" "\<And>p. verify_password X h p \<longleftrightarrow> p = pw"
proof -
  from assms obtain h where "x_hash X salt pw = Some h" "\<forall>p. x_verify X h p = Some (p = pw)"
    unfolding argon2_contract_def by blast
  then show thesis using that [of h] by (simp add: hash_password_def verify_password_def)
qed

lemma hashing_tests_pass:
  assumes X: "argon2_contract X" and s: "is_salt salt"
  shows "hash_then_verify_roundtrips X salt" "verify_rejects_wrong_password X salt"
    "verify_returns_false_for_empty_password_against_real_hash X salt"
proof -
  obtain h where "hash_password X salt ''correct horse battery staple'' = Some h"
    "\<And>p. verify_password X h p \<longleftrightarrow> p = ''correct horse battery staple''"
    using hash_and_check [OF X s] by blast
  then show "hash_then_verify_roundtrips X salt" "verify_rejects_wrong_password X salt"
    by (simp_all add: hash_then_verify_roundtrips_def verify_rejects_wrong_password_def)
  obtain k where "hash_password X salt ''real'' = Some k" "\<And>p. verify_password X k p \<longleftrightarrow> p = ''real''"
    using hash_and_check [OF X s] by blast
  then show "verify_returns_false_for_empty_password_against_real_hash X salt"
    by (simp add: verify_returns_false_for_empty_password_against_real_hash_def)
qed

lemma salt_test_passes:
  assumes X: "argon2_contract X" and s: "is_salt salt" "is_salt salt'" "salt \<noteq> salt'"
  shows "each_hash_is_unique_thanks_to_salt X salt salt'"
proof -
  obtain a where a: "hash_password X salt ''same password'' = Some a" "\<And>p. verify_password X a p \<longleftrightarrow> p = ''same password''"
    using hash_and_check [OF X s(1)] by blast
  obtain b where b: "hash_password X salt' ''same password'' = Some b" "\<And>p. verify_password X b p \<longleftrightarrow> p = ''same password''"
    using hash_and_check [OF X s(2)] by blast
  have "hash_password X salt ''same password'' \<noteq> hash_password X salt' ''same password''"
    using X s unfolding argon2_contract_def hash_password_def by blast
  with a b show ?thesis by (simp add: each_hash_is_unique_thanks_to_salt_def)
qed

lemma garbage_test_passes: "argon2_contract X \<Longrightarrow> verify_returns_false_for_garbage_hash X"
  by (simp add: argon2_contract_def verify_returns_false_for_garbage_hash_def verify_password_def)

lemma demo_argon2_contract: "argon2_contract demo_externs"
proof -
  have "split_once ''$'' (salt @ CHR ''$'' # pw) = Some (salt, pw)" if "is_salt salt" for salt pw
    using that by (induction salt) (auto simp: is_salt_def starts_with_def)
  moreover have "split_once ''$'' ''not a phc string'' = None" "split_once ''$'' [] = None"
    by code_simp+
  ultimately show ?thesis by (auto simp: argon2_contract_def demo_externs_def simp del: split_once.simps)
qed

lemma session_id_tests_pass:
  assumes "length (fst us) = 16" "length (snd us) = 16" "length (fst vs) = 16" "length (snd vs) = 16" "us \<noteq> vs"
  shows "generate_session_id_is_64_hex_chars us" "generate_session_id_is_unique_per_call us vs"
  using assms uuid_simple_inj [of "fst us" "fst vs"] uuid_simple_inj [of "snd us" "snd vs"]
  by (auto simp: generate_session_id_is_64_hex_chars_def generate_session_id_is_unique_per_call_def
      generate_session_id_def length_uuid_simple uuid_simple_digits prod_eq_iff Let_def)

lemma strength_tests_pass:
  validate_password_strength_accepts_twelve_or_more validate_password_strength_rejects_too_short
  validate_password_strength_rejects_too_long
  by code_simp+

section \<open>Cookies and the client address\<close>

definition headers_with_cookie :: "string \<Rightarrow> headers" where
  "headers_with_cookie s = [(''cookie'', s)]"

definition extract_session_id_returns_value_when_present :: bool where
  "extract_session_id_returns_value_when_present \<longleftrightarrow>
     (let h = headers_with_cookie ''errex_session=abcdef; other=ignored''
      in extract_session_id h = Some ''abcdef'')"

definition extract_session_id_handles_quoted_value :: bool where
  "extract_session_id_handles_quoted_value \<longleftrightarrow>
     (let h = headers_with_cookie (''errex_session='' @ [CHR 0x22] @ ''abcdef'' @ [CHR 0x22])
      in extract_session_id h = Some ''abcdef'')"

definition extract_session_id_returns_none_when_cookie_missing :: bool where
  "extract_session_id_returns_none_when_cookie_missing \<longleftrightarrow>
     (let h = headers_with_cookie ''other=value'' in extract_session_id h = None)"

definition extract_session_id_returns_none_for_empty_value :: bool where
  "extract_session_id_returns_none_for_empty_value \<longleftrightarrow>
     (let h = headers_with_cookie ''errex_session='' in extract_session_id h = None)"

definition extract_session_id_returns_none_when_header_missing :: bool where
  "extract_session_id_returns_none_when_header_missing \<longleftrightarrow> (let h = [] in extract_session_id h = None)"

definition build_session_cookie_includes_secure_in_prod :: bool where
  "build_session_cookie_includes_secure_in_prod \<longleftrightarrow>
     (let c = build_session_cookie ''abc'' False
      in contains ''Secure'' c \<and> contains ''HttpOnly'' c \<and> contains ''SameSite=Strict'' c \<and>
         contains ''Max-Age=2592000'' c)"

definition build_session_cookie_drops_secure_in_dev :: bool where
  "build_session_cookie_drops_secure_in_dev \<longleftrightarrow>
     (let c = build_session_cookie ''abc'' True in \<not> contains ''Secure'' c \<and> contains ''HttpOnly'' c)"

definition build_clearing_cookie_zeros_max_age :: bool where
  "build_clearing_cookie_zeros_max_age \<longleftrightarrow> (let c = build_clearing_cookie False in contains ''Max-Age=0'' c)"

definition extract_client_ip_prefers_xff_when_proxy_trusted :: bool where
  "extract_client_ip_prefers_xff_when_proxy_trusted \<longleftrightarrow>
     (let h = [(''x-forwarded-for'', ''1.2.3.4'')]; peer = ''9.9.9.9''
      in extract_client_ip h (Some peer) True = ''1.2.3.4'')"

definition extract_client_ip_uses_first_xff_hop_when_proxy_trusted :: bool where
  "extract_client_ip_uses_first_xff_hop_when_proxy_trusted \<longleftrightarrow>
     (let h = [(''x-forwarded-for'', ''1.2.3.4, 5.6.7.8'')]
      in extract_client_ip h None True = ''1.2.3.4'')"

definition extract_client_ip_ignores_xff_when_proxy_untrusted :: bool where
  "extract_client_ip_ignores_xff_when_proxy_untrusted \<longleftrightarrow>
     (let h = [(''x-forwarded-for'', ''1.2.3.4'')]; peer = ''9.9.9.9''
      in extract_client_ip h (Some peer) False = ''9.9.9.9'')"

definition extract_client_ip_falls_back_to_peer :: bool where
  "extract_client_ip_falls_back_to_peer \<longleftrightarrow>
     (let h = []; peer = ''9.9.9.9''
      in extract_client_ip h (Some peer) False = ''9.9.9.9'' \<and> extract_client_ip h (Some peer) True = ''9.9.9.9'')"

definition extract_client_ip_falls_back_to_unknown_when_nothing :: bool where
  "extract_client_ip_falls_back_to_unknown_when_nothing \<longleftrightarrow>
     (let h = []
      in extract_client_ip h None False = ''unknown'' \<and> extract_client_ip h None True = ''unknown'')"

lemma session_id_extraction_tests_pass:
  extract_session_id_returns_value_when_present extract_session_id_handles_quoted_value
  extract_session_id_returns_none_when_cookie_missing extract_session_id_returns_none_for_empty_value
  extract_session_id_returns_none_when_header_missing
  by code_simp+

lemma thirty_days: "show_int SESSION_TTL_SECS = ''2592000''"
  by (simp add: SESSION_TTL_SECS_def show_int_def show_nat.simps digit_char_def char_of_def bit_0)

lemma session_cookies:
  "build_session_cookie ''abc'' False =
     ''errex_session=abc; HttpOnly; Secure; SameSite=Strict; Path=/; Max-Age=2592000''"
  "build_session_cookie ''abc'' True = ''errex_session=abc; HttpOnly; SameSite=Strict; Path=/; Max-Age=2592000''"
  by (simp_all add: build_session_cookie_def COOKIE_NAME_def secure_attr_def thirty_days)

lemma cookie_building_tests_pass:
  build_session_cookie_includes_secure_in_prod build_session_cookie_drops_secure_in_dev
  build_clearing_cookie_zeros_max_age
  unfolding build_session_cookie_includes_secure_in_prod_def build_session_cookie_drops_secure_in_dev_def
    session_cookies Let_def
  by code_simp+

lemma client_ip_tests_pass:
  extract_client_ip_prefers_xff_when_proxy_trusted extract_client_ip_uses_first_xff_hop_when_proxy_trusted
  extract_client_ip_ignores_xff_when_proxy_untrusted extract_client_ip_falls_back_to_peer
  extract_client_ip_falls_back_to_unknown_when_nothing
  by code_simp+

section \<open>The rate limiter\<close>

text \<open>A test acquires in a row; its assertions are the list of answers.\<close>

fun acquires :: "(rat \<Rightarrow> rat) \<Rightarrow> rat \<Rightarrow> rat \<Rightarrow> time list \<Rightarrow> token_bucket \<Rightarrow> bool list" where
  "acquires rnd cap rate [] b = []"
| "acquires rnd cap rate (now # ts) b =
     (let (ok, b') = try_acquire rnd cap rate now b in ok # acquires rnd cap rate ts b')"

definition fresh_bucket_grants_capacity_then_denies :: "(rat \<Rightarrow> rat) \<Rightarrow> time \<Rightarrow> time \<Rightarrow> bool" where
  "fresh_bucket_grants_capacity_then_denies rnd created now \<longleftrightarrow>
     acquires rnd 3 1 [now, now, now, now] (new_bucket 3 created) = [True, True, True, False]"

definition refill_restores_tokens_at_rate :: "(rat \<Rightarrow> rat) \<Rightarrow> time \<Rightarrow> bool" where
  "refill_restores_tokens_at_rate rnd start \<longleftrightarrow>
     (let later = start + 1000000000
      in acquires rnd 2 2 [start, start, start, later, later, later] (new_bucket 2 start) =
           [True, True, False, True, True, False])"

definition refill_does_not_exceed_capacity :: "(rat \<Rightarrow> rat) \<Rightarrow> time \<Rightarrow> bool" where
  "refill_does_not_exceed_capacity rnd start \<longleftrightarrow>
     (let later = start + 60 * 1000000000
      in acquires rnd 3 1 [later, later, later, later] (new_bucket 3 start) = [True, True, True, False])"

definition limiter_disabled_when_per_min_is_zero :: "(rat \<Rightarrow> rat) \<Rightarrow> (nat \<Rightarrow> time) \<Rightarrow> bool" where
  "limiter_disabled_when_per_min_is_zero rnd now \<longleftrightarrow>
     (let l = new_limiter rnd 0 100
      in \<not> limiter_enabled l \<and>
         list_all id (fst (run_checks rnd (map (\<lambda>i. (''p'', now i)) [0..<10000]) l)))"

definition limiter_enforces_burst_then_denies :: "(rat \<Rightarrow> rat) \<Rightarrow> time \<Rightarrow> bool" where
  "limiter_enforces_burst_then_denies rnd now \<longleftrightarrow>
     (let l = new_limiter rnd 60 5
      in fst (run_checks rnd (replicate 6 (''p'', now)) l) = [True, True, True, True, True, False])"

definition limiter_isolates_projects :: "(rat \<Rightarrow> rat) \<Rightarrow> time \<Rightarrow> bool" where
  "limiter_isolates_projects rnd now \<longleftrightarrow>
     (let l = new_limiter rnd 60 1
      in fst (run_checks rnd [(''alpha'', now), (''alpha'', now), (''beta'', now), (''beta'', now)] l) =
           [True, False, True, False])"

definition limiter_recovers_with_time :: "(rat \<Rightarrow> rat) \<Rightarrow> time \<Rightarrow> bool" where
  "limiter_recovers_with_time rnd start \<longleftrightarrow>
     (let l = new_limiter rnd 60 1; later = start + 2 * 1000000000
      in fst (run_checks rnd [(''p'', start), (''p'', start), (''p'', later)] l) = [True, False, True])"

text \<open>Rounding to a double is monotone and exact on the integers below \<open>2 ^ 53\<close>.\<close>

definition f64_rounding :: "(rat \<Rightarrow> rat) \<Rightarrow> bool" where
  "f64_rounding rnd \<longleftrightarrow> mono rnd \<and> (\<forall>n. \<bar>n\<bar> < 2 ^ 53 \<longrightarrow> rnd (of_int n) = of_int n)"

lemma exact_arithmetic: "f64_rounding (\<lambda>x. x)"
  by (simp add: f64_rounding_def mono_def)

lemma f64_exact:
  assumes "f64_rounding rnd"
  shows "rnd 0 = 0" "rnd 1 = 1" "numeral k < (2 :: int) ^ 53 \<Longrightarrow> rnd (numeral k) = numeral k"
  using assms unfolding f64_rounding_def
  by (auto dest: spec [of _ "0 :: int"] spec [of _ "1 :: int"] spec [of _ "numeral k :: int"])

lemma acquire_at_same_time:
  "last_refill b = now \<Longrightarrow> rnd 0 = 0 \<Longrightarrow> try_acquire rnd cap rate now b =
     (if tokens b \<ge> 1 then (True, b\<lparr>tokens := rnd (tokens b - 1)\<rparr>) else (False, b))"
  by (simp add: try_acquire_def elapsed_secs_def)

text \<open>A full bucket stays full.\<close>

lemma acquire_of_full_bucket:
  assumes "f64_rounding rnd" "0 \<le> rate" "rnd cap = cap" "tokens b = cap" "last_refill b \<le> now" "1 \<le> cap"
  shows "try_acquire rnd cap rate now b = (True, b\<lparr>tokens := rnd (cap - 1),
    last_refill := (if elapsed_secs rnd now (last_refill b) > 0 then now else last_refill b)\<rparr>)"
proof -
  let ?e = "elapsed_secs rnd now (last_refill b)"
  have m: "mono rnd" and z: "rnd 0 = 0" using assms(1) f64_exact by (auto simp: f64_rounding_def)
  have "0 \<le> ?e" using monoD [OF m, of 0] z by (simp add: elapsed_secs_def)
  then have "0 \<le> rnd (?e * rate)" using monoD [OF m, of 0 "?e * rate"] z assms(2) by simp
  then have "cap \<le> rnd (cap + rnd (?e * rate))" using monoD [OF m, of cap] assms(3) by simp
  then show ?thesis using assms(4,6) by (simp add: try_acquire_def Let_def min_absorb2)
qed

text \<open>The integers that the tests round.\<close>

lemma test_roundings:
  assumes "f64_rounding rnd"
  shows "rnd 0 = 0" "rnd 1 = 1" "rnd 2 = 2" "rnd 3 = 3" "rnd 4 = 4" "rnd 60 = 60" "rnd 63 = 63"
  using f64_exact [OF assms] by simp_all

lemma bucket_tests_pass:
  assumes "f64_rounding rnd"
  shows "created \<le> now \<Longrightarrow> fresh_bucket_grants_capacity_then_denies rnd created now"
    "refill_restores_tokens_at_rate rnd start" "refill_does_not_exceed_capacity rnd start"
proof -
  note r = test_roundings [OF assms]
  have "\<not> elapsed_secs rnd now created > 0 \<Longrightarrow> acquires rnd 3 1 [now, now, now] \<lparr>tokens = 2, last_refill = created\<rparr> = [True, True, False]"
    by (simp add: try_acquire_def r Let_def)
  moreover have "acquires rnd 3 1 [now, now, now] \<lparr>tokens = 2, last_refill = now\<rparr> = [True, True, False]"
    by (simp add: acquire_at_same_time r)
  ultimately show "fresh_bucket_grants_capacity_then_denies rnd created now" if "created \<le> now"
    using that assms by (simp add: fresh_bucket_grants_capacity_then_denies_def acquire_of_full_bucket r new_bucket_def)
  show "refill_restores_tokens_at_rate rnd start"
    by (simp add: refill_restores_tokens_at_rate_def new_bucket_def try_acquire_def elapsed_secs_def r Let_def)
  show "refill_does_not_exceed_capacity rnd start"
    by (simp add: refill_does_not_exceed_capacity_def new_bucket_def try_acquire_def elapsed_secs_def r Let_def)
qed

lemma disabled_limiter_admits:
  "\<not> limiter_enabled l \<Longrightarrow> fst (run_checks rnd rs l) = replicate (length rs) True"
  by (induction rs) (auto simp: rate_check_def split: prod.split)

lemma limiter_tests_pass:
  assumes "f64_rounding rnd"
  shows "limiter_disabled_when_per_min_is_zero rnd clock" "limiter_enforces_burst_then_denies rnd now"
    "limiter_isolates_projects rnd now" "limiter_recovers_with_time rnd start"
proof -
  note r = test_roundings [OF assms]
  have off: "\<not> limiter_enabled (new_limiter rnd 0 100)"
    by (simp add: limiter_enabled_def new_limiter_def r)
  then show "limiter_disabled_when_per_min_is_zero rnd clock"
    by (simp add: limiter_disabled_when_per_min_is_zero_def disabled_limiter_admits [OF off] Let_def list_all_iff)
  note run = rate_check_def limiter_enabled_def new_limiter_def new_bucket_def try_acquire_def elapsed_secs_def
    r Let_def max_def word_le_nat_alt
  have six: "replicate 6 x = [x, x, x, x, x, x]" for x :: "string \<times> time" by (simp add: numeral_eq_Suc)
  show "limiter_enforces_burst_then_denies rnd now"
    by (simp add: limiter_enforces_burst_then_denies_def six run)
  show "limiter_isolates_projects rnd now"
    by (simp add: limiter_isolates_projects_def run)
  show "limiter_recovers_with_time rnd start"
    by (simp add: limiter_recovers_with_time_def run)
qed

end
