(* ===== verification/Tests_Config.thy ===== *)
theory Tests_Config
  imports Config Ws Spa
begin

text \<open>
  The unit tests of \<open>config.rs\<close>, \<open>ws.rs\<close> and \<open>spa.rs\<close> under \<open>crates/errexd/src/\<close>, one definition each. A
  configuration that a test has clap parse from flags is the default one with those flags set: no
  variable of the environment is. The reading of addresses is the standard library's.
\<close>

section \<open>Configuration\<close>

definition rate_limit_default_is_nonzero :: bool where
  "rate_limit_default_is_nonzero \<longleftrightarrow> (let cfg = default_config in co_rate_limit_per_min cfg > 0)"

definition resolved_http_port_explicit_wins :: "string option \<Rightarrow> bool" where
  "resolved_http_port_explicit_wins env_port \<longleftrightarrow>
     (let cfg = default_config\<lparr>co_http_port := Some 12345\<rparr> in resolved_http_port env_port cfg = 12345)"

definition public_url_default_detection :: bool where
  "public_url_default_detection \<longleftrightarrow>
     (let cfg = default_config; cfg2 = default_config\<lparr>co_public_url := ''https://errex.example.com''\<rparr>
      in public_url_is_default cfg \<and> \<not> public_url_is_default cfg2)"

definition http_host_default_is_loopback :: bool where
  "http_host_default_is_loopback \<longleftrightarrow> (let cfg = default_config in co_http_host cfg = ''127.0.0.1'')"

definition mcp_host_default_is_loopback :: bool where
  "mcp_host_default_is_loopback \<longleftrightarrow> (let cfg = default_config in co_mcp_host cfg = ''127.0.0.1'')"

definition require_auth_default_is_true :: bool where
  "require_auth_default_is_true \<longleftrightarrow> (let cfg = default_config in co_require_auth cfg)"

definition bind_is_loopback_recognises_every_loopback_spelling :: "externs \<Rightarrow> bool" where
  "bind_is_loopback_recognises_every_loopback_spelling X \<longleftrightarrow>
     (let bound = (\<lambda>host. bind_is_loopback X (default_config\<lparr>co_http_host := host\<rparr>))
      in list_all bound [''127.0.0.1'', ''127.0.0.5'', ''::1'', ''localhost''] \<and>
         list_all (\<lambda>host. \<not> bound host) [''0.0.0.0'', ''::'', ''192.168.1.10''])"

definition healthcheck_url_normalises_wildcard_binds :: "externs \<Rightarrow> (ip_addr \<Rightarrow> string) \<Rightarrow> bool" where
  "healthcheck_url_normalises_wildcard_binds X show_v6 \<longleftrightarrow>
     healthcheck_url X show_v6 None (default_config\<lparr>co_http_host := ''0.0.0.0''\<rparr>) = ''http://127.0.0.1:9090/health'' \<and>
     healthcheck_url X show_v6 None (default_config\<lparr>co_http_host := ''::''\<rparr>) = ''http://[::1]:9090/health''"

definition healthcheck_url_brackets_ipv6_literals :: "externs \<Rightarrow> (ip_addr \<Rightarrow> string) \<Rightarrow> bool" where
  "healthcheck_url_brackets_ipv6_literals X show_v6 \<longleftrightarrow>
     healthcheck_url X show_v6 None (default_config\<lparr>co_http_host := ''::1''\<rparr>) = ''http://[::1]:9090/health''"

definition healthcheck_url_follows_configured_port :: "externs \<Rightarrow> (ip_addr \<Rightarrow> string) \<Rightarrow> bool" where
  "healthcheck_url_follows_configured_port X show_v6 \<longleftrightarrow>
     healthcheck_url X show_v6 None (default_config\<lparr>co_http_port := Some 8080\<rparr>) = ''http://127.0.0.1:8080/health''"

definition healthcheck_url_keeps_explicit_host :: "externs \<Rightarrow> (ip_addr \<Rightarrow> string) \<Rightarrow> bool" where
  "healthcheck_url_keeps_explicit_host X show_v6 \<longleftrightarrow>
     healthcheck_url X show_v6 None (default_config\<lparr>co_http_host := ''10.0.0.4''\<rparr>) = ''http://10.0.0.4:9090/health''"

lemma default_tests_pass:
  rate_limit_default_is_nonzero public_url_default_detection http_host_default_is_loopback
  mcp_host_default_is_loopback require_auth_default_is_true
  by code_simp+

lemma explicit_port_test_passes: "resolved_http_port_explicit_wins env_port"
  by (simp add: resolved_http_port_explicit_wins_def resolved_http_port_def)

text \<open>How the standard library reads the addresses of the tests, and prints the one it prints.\<close>

definition test_addresses :: "(string \<times> ip_addr) list" where
  "test_addresses =
     [(''127.0.0.1'', V4 127 0 0 1), (''127.0.0.5'', V4 127 0 0 5), (''0.0.0.0'', V4 0 0 0 0),
      (''192.168.1.10'', V4 192 168 1 10), (''10.0.0.4'', V4 10 0 0 4),
      (''::1'', V6 0 0 0 0 0 0 0 1), (''::'', V6 0 0 0 0 0 0 0 0)]"

definition reads_addresses :: "externs \<Rightarrow> (ip_addr \<Rightarrow> string) \<Rightarrow> bool" where
  "reads_addresses X show_v6 \<longleftrightarrow>
     list_all (\<lambda>(s, ip). x_ip X s = Some ip) test_addresses \<and> x_ip X ''localhost'' = None \<and>
     show_v6 (V6 0 0 0 0 0 0 0 1) = ''::1''"

lemma bind_test_passes:
  "reads_addresses X show_v6 \<Longrightarrow> bind_is_loopback_recognises_every_loopback_spelling X"
  by (simp add: reads_addresses_def test_addresses_def bind_is_loopback_def
      bind_is_loopback_recognises_every_loopback_spelling_def)

lemma shown_ports: "show_port 9090 = ''9090''" "show_port 8080 = ''8080''"
  by (simp_all add: show_port_def show_nat.simps digit_char_def char_of_def bit_0)

lemma healthcheck_tests_pass:
  assumes "reads_addresses X show_v6"
  shows "healthcheck_url_normalises_wildcard_binds X show_v6" "healthcheck_url_brackets_ipv6_literals X show_v6"
    "healthcheck_url_follows_configured_port X show_v6" "healthcheck_url_keeps_explicit_host X show_v6"
  using assms
  by (simp_all add: reads_addresses_def test_addresses_def healthcheck_url_def healthcheck_host_def default_config_def
      resolved_http_port_def shown_ports Let_def healthcheck_url_normalises_wildcard_binds_def
      healthcheck_url_brackets_ipv6_literals_def healthcheck_url_follows_configured_port_def
      healthcheck_url_keeps_explicit_host_def)

lemma some_reader_of_addresses:
  "reads_addresses (demo_externs\<lparr>x_ip := map_of test_addresses\<rparr>) (\<lambda>_. ''::1'')"
  by (simp add: reads_addresses_def test_addresses_def)

section \<open>The origin of a WebSocket\<close>

definition origin_allowed_matches_public_url_exactly :: bool where
  "origin_allowed_matches_public_url_exactly \<longleftrightarrow>
     origin_allowed ''https://errex.example.com'' ''https://errex.example.com'' False \<and>
     origin_allowed ''https://errex.example.com'' ''https://errex.example.com/'' False"

definition origin_allowed_strips_path_from_public_url :: bool where
  "origin_allowed_strips_path_from_public_url \<longleftrightarrow>
     origin_allowed ''https://errex.example.com'' ''https://errex.example.com/dashboard'' False"

definition origin_rejected_on_host_mismatch :: bool where
  "origin_rejected_on_host_mismatch \<longleftrightarrow>
     \<not> origin_allowed ''https://attacker.example.com'' ''https://errex.example.com'' False"

definition origin_rejected_on_scheme_mismatch :: bool where
  "origin_rejected_on_scheme_mismatch \<longleftrightarrow>
     \<not> origin_allowed ''http://errex.example.com'' ''https://errex.example.com'' False"

definition origin_rejected_on_port_mismatch :: bool where
  "origin_rejected_on_port_mismatch \<longleftrightarrow>
     \<not> origin_allowed ''http://errex.example.com:8080'' ''http://errex.example.com:9090'' False"

definition vite_dev_origin_allowed_only_in_dev_mode :: bool where
  "vite_dev_origin_allowed_only_in_dev_mode \<longleftrightarrow>
     origin_allowed ''http://localhost:5173'' ''http://localhost:9090'' True \<and>
     \<not> origin_allowed ''http://localhost:5173'' ''http://localhost:9090'' False"

lemma origin_tests_pass:
  origin_allowed_matches_public_url_exactly origin_allowed_strips_path_from_public_url
  origin_rejected_on_host_mismatch origin_rejected_on_scheme_mismatch origin_rejected_on_port_mismatch
  vite_dev_origin_allowed_only_in_dev_mode
  by code_simp+

section \<open>Content types\<close>

definition known_extensions_map_correctly :: bool where
  "known_extensions_map_correctly \<longleftrightarrow>
     mime_for_path ''index.html'' = ''text/html; charset=utf-8'' \<and>
     mime_for_path ''a/b.js'' = ''application/javascript'' \<and>
     mime_for_path ''0.css'' = ''text/css; charset=utf-8'' \<and>
     mime_for_path ''env.json'' = ''application/json'' \<and>
     mime_for_path ''favicon.svg'' = ''image/svg+xml'' \<and>
     mime_for_path ''font.woff2'' = ''font/woff2'' \<and>
     mime_for_path ''robots.txt'' = ''text/plain; charset=utf-8''"

definition defensive_extensions_for_future_spa_builds :: bool where
  "defensive_extensions_for_future_spa_builds \<longleftrightarrow>
     mime_for_path ''chunk.js.map'' = ''application/json'' \<and>
     mime_for_path ''hero.png'' = ''image/png'' \<and>
     mime_for_path ''hero.webp'' = ''image/webp'' \<and>
     mime_for_path ''worker.wasm'' = ''application/wasm'' \<and>
     mime_for_path ''favicon.ico'' = ''image/x-icon''"

definition unknown_extension_falls_back_to_octet_stream :: bool where
  "unknown_extension_falls_back_to_octet_stream \<longleftrightarrow>
     mime_for_path ''x.xyzqq'' = ''application/octet-stream'' \<and>
     mime_for_path ''noext'' = ''application/octet-stream''"

lemma mime_tests_pass:
  known_extensions_map_correctly defensive_extensions_for_future_spa_builds
  unknown_extension_falls_back_to_octet_stream
  by code_simp+

section \<open>Every embedded file has a content type\<close>

text \<open>
  The scan of the build directory. A directory is what \<open>read_dir\<close> yields: the files with their paths,
  and the directories with theirs; a build directory that is missing skips the test.
\<close>

datatype dir_entry = DFile string | DDir "dir_entry list"

fun walk :: "dir_entry list \<Rightarrow> string list" where
  "walk [] = []"
| "walk (DFile p # rd) = p # walk rd"
| "walk (DDir d # rd) = walk d @ walk rd"

definition spa_build_extensions_all_covered :: "dir_entry list option \<Rightarrow> bool" where
  "spa_build_extensions_all_covered build_dir \<longleftrightarrow>
     (case build_dir of
        None \<Rightarrow> True
      | Some rd \<Rightarrow> filter (\<lambda>p. mime_for_path p = ''application/octet-stream'') (walk rd) = [])"

lemma rsplit_once_last:
  assumes "c \<notin> set ext"
  shows "rsplit_once c (stem @ c # ext) = Some (stem, ext)"
proof -
  have "split_once [c] (r @ c # t) = Some (r, t)" if "c \<notin> set r" for r t
    using that by (induction r) (auto simp: starts_with_def)
  from this [of "rev ext" "rev stem"] assms show ?thesis by (simp add: rsplit_once_def)
qed

lemma table_entries:
  "list_all (\<lambda>(ext, mime). CHR ''.'' \<notin> set ext \<and> map_of mime_table ext = Some mime \<and>
     mime \<noteq> ''application/octet-stream'') mime_table"
  by code_simp

text \<open>It passes on every tree whose files have extensions of the table.\<close>

lemma spa_scan_passes:
  assumes "\<forall>p \<in> set (walk rd). \<exists>stem. \<exists>(ext, mime) \<in> set mime_table. p = stem @ CHR ''.'' # ext"
  shows "spa_build_extensions_all_covered (Some rd)"
proof -
  have "mime_for_path (stem @ CHR ''.'' # ext) \<noteq> ''application/octet-stream''" if "(ext, mime) \<in> set mime_table" for stem ext mime
  proof -
    have "CHR ''.'' \<notin> set ext" "map_of mime_table ext = Some mime" "mime \<noteq> ''application/octet-stream''"
      using that table_entries by (auto simp: list_all_iff)
    then show ?thesis by (simp add: mime_for_path_def rsplit_once_last)
  qed
  with assms show ?thesis by (fastforce simp: spa_build_extensions_all_covered_def filter_empty_conv)
qed

end
