(* ===== verification/Tests_Ingest.thy ===== *)
theory Tests_Ingest
  imports Tests_Fingerprint Digest Ingest Process_Status
begin

text \<open>
  The unit tests of \<open>ingest.rs\<close>, \<open>digest.rs\<close> and \<open>metrics.rs\<close> under \<open>crates/errexd/src/\<close>, one definition each. The
  texts of the tests are written out; how serde reads them, and what the gzip encoder and decoder
  make of a body, is the hypothesis of the lemmas.
\<close>

section \<open>The texts of the envelope tests\<close>

definition quoted :: "string \<Rightarrow> string" where
  "quoted s = CHR 0x22 # s @ [CHR 0x22]"

definition member_text :: "string \<Rightarrow> string \<Rightarrow> string" where
  "member_text k v = quoted k @ '':'' @ v"

definition test_header :: string where
  "test_header =
     ''{'' @ member_text ''event_id'' (quoted ''abc'') @ '',''
       @ member_text ''sent_at'' (quoted ''2026-01-01T00:00:00Z'') @ ''}''"

definition event_body :: "string \<Rightarrow> string" where
  "event_body ty =
     ''{'' @ member_text ''timestamp'' (quoted ''2026-01-01T00:00:00Z'') @ '',''
       @ member_text ''exception'' (''{'' @ member_text ''values'' (''[{'' @ member_text ''type'' (quoted ty) @ '',''
           @ member_text ''value'' (quoted ''v'') @ ''}]'') @ ''}'') @ ''}''"

definition item_header :: "string \<Rightarrow> nat \<Rightarrow> string" where
  "item_header ty len =
     ''{'' @ member_text ''type'' (quoted ty) @ '','' @ member_text ''length'' (show_nat len) @ ''}''"

definition event_header :: string where
  "event_header = ''{'' @ member_text ''type'' (quoted ''event'') @ ''}''"

definition session_body :: string where
  "session_body = ''{'' @ member_text ''sid'' (quoted ''s1'') @ '','' @ member_text ''status'' (quoted ''ok'') @ ''}''"

section \<open>The envelope tests\<close>

definition exception_type_of :: "event \<Rightarrow> string option" where
  "exception_type_of e = Option.bind (primary_exception e) ex_ty"

definition parsed :: "externs \<Rightarrow> bytes \<Rightarrow> (event list \<Rightarrow> bool) \<Rightarrow> bool" where
  "parsed X envelope P \<longleftrightarrow> (case parse_envelope X envelope of Ok evs \<Rightarrow> P evs | _ \<Rightarrow> False)"

definition parses_single_event_with_length_prefix :: "externs \<Rightarrow> bool" where
  "parses_single_event_with_length_prefix X \<longleftrightarrow>
     (let body = event_body ''Boom'';
          envelope = test_header @ newline # item_header ''event'' (length body) @ newline # body @ [newline]
      in parsed X envelope (\<lambda>evs. length evs = 1 \<and> exception_type_of (evs ! 0) = Some ''Boom''))"

definition parses_event_without_length_field :: "externs \<Rightarrow> bool" where
  "parses_event_without_length_field X \<longleftrightarrow>
     (let body = event_body ''NoLen'';
          envelope = test_header @ newline # event_header @ newline # body @ [newline]
      in parsed X envelope (\<lambda>evs. length evs = 1 \<and> exception_type_of (evs ! 0) = Some ''NoLen''))"

definition parses_event_without_trailing_newline :: "externs \<Rightarrow> bool" where
  "parses_event_without_trailing_newline X \<longleftrightarrow>
     (let body = event_body ''Trail'';
          envelope = test_header @ newline # event_header @ newline # body
      in parsed X envelope (\<lambda>evs. length evs = 1))"

definition skips_non_event_items :: "externs \<Rightarrow> bool" where
  "skips_non_event_items X \<longleftrightarrow>
     (let session = session_body;
          event_b = event_body ''KeepMe'';
          session_header = item_header ''session'' (length session);
          envelope = test_header @ newline # session_header @ newline # session @ newline #
            event_header @ newline # event_b @ [newline]
      in parsed X envelope (\<lambda>evs. length evs = 1 \<and> exception_type_of (evs ! 0) = Some ''KeepMe''))"

definition parses_two_events_in_one_envelope :: "externs \<Rightarrow> bool" where
  "parses_two_events_in_one_envelope X \<longleftrightarrow>
     (let b1 = event_body ''First''; b2 = event_body ''Second'';
          envelope = test_header @ newline # event_header @ newline # b1 @ newline #
            event_header @ newline # b2 @ [newline]
      in parsed X envelope (\<lambda>evs. length evs = 2 \<and>
           map exception_type_of evs = [Some ''First'', Some ''Second'']))"

definition empty_envelope_with_only_header_yields_no_events :: "externs \<Rightarrow> bool" where
  "empty_envelope_with_only_header_yields_no_events X \<longleftrightarrow>
     parsed X (test_header @ [newline]) (\<lambda>evs. evs = [])"

definition is_invalid_envelope :: "(proto_error, event list) outcome \<Rightarrow> bool" where
  "is_invalid_envelope r = (case r of Err (InvalidEnvelope _) \<Rightarrow> True | _ \<Rightarrow> False)"

definition rejects_envelope_with_no_header :: "externs \<Rightarrow> bool" where
  "rejects_envelope_with_no_header X \<longleftrightarrow> is_invalid_envelope (parse_envelope X [])"

definition rejects_invalid_json_header :: "externs \<Rightarrow> bool" where
  "rejects_invalid_json_header X \<longleftrightarrow>
     (let r = parse_envelope X (''not-json'' @ [newline]) in r = Err ProtoJson \<or> is_invalid_envelope r)"

definition rejects_length_overflowing_envelope :: "externs \<Rightarrow> bool" where
  "rejects_length_overflowing_envelope X \<longleftrightarrow>
     (let envelope = test_header @ newline # item_header ''event'' 9999 @ newline # ''short''
      in is_invalid_envelope (parse_envelope X envelope))"

section \<open>The gzip tests\<close>

definition maybe_gunzip_passes_through_plain_bytes :: "externs \<Rightarrow> bool" where
  "maybe_gunzip_passes_through_plain_bytes X \<longleftrightarrow>
     (let plain = ''hello world'' in maybe_gunzip X plain = Some plain)"

text \<open>A body \<open>gz\<close> comes from the encoder of \<open>flate2\<close>, an argument.\<close>

definition maybe_gunzip_decompresses_gzip_magic :: "externs \<Rightarrow> (bytes \<Rightarrow> bytes) \<Rightarrow> bool" where
  "maybe_gunzip_decompresses_gzip_magic X enc \<longleftrightarrow>
     (let plain = ''the quick brown fox jumps over the lazy dog'';
          gz = enc plain
      in take 2 gz = [CHR 0x1F, CHR 0x8B] \<and> maybe_gunzip X gz = Some plain)"

definition maybe_gunzip_handles_empty_input :: "externs \<Rightarrow> bool" where
  "maybe_gunzip_handles_empty_input X \<longleftrightarrow> maybe_gunzip X [] = Some []"

definition maybe_gunzip_rejects_oversized_decompression :: "externs \<Rightarrow> (bytes \<Rightarrow> bytes) \<Rightarrow> bool" where
  "maybe_gunzip_rejects_oversized_decompression X enc \<longleftrightarrow>
     (let payload = replicate ((MAX_DECOMPRESSED + 1024) * 2) (CHR 0x00);
          bomb = enc payload
      in length bomb < 1000000 \<and> maybe_gunzip X bomb = None)"

definition maybe_gunzip_accepts_payload_at_or_below_limit :: "externs \<Rightarrow> (bytes \<Rightarrow> bytes) \<Rightarrow> bool" where
  "maybe_gunzip_accepts_payload_at_or_below_limit X enc \<longleftrightarrow>
     (let payload = replicate MAX_DECOMPRESSED (CHR ''x'');
          gz = enc payload
      in map_option length (maybe_gunzip X gz) = Some MAX_DECOMPRESSED)"

section \<open>The line reader\<close>

definition read_line_returns_position_after_newline :: bool where
  "read_line_returns_position_after_newline \<longleftrightarrow>
     (let buf = ''first'' @ newline # ''second'' in read_line buf 0 = Some (6, 6))"

definition read_line_handles_no_trailing_newline :: bool where
  "read_line_handles_no_trailing_newline \<longleftrightarrow>
     (let buf = ''only-line'' in read_line buf 0 = Some (length buf, length buf))"

definition read_line_returns_none_at_eof :: bool where
  "read_line_returns_none_at_eof \<longleftrightarrow> (let buf = ''abc'' in read_line buf 3 = None)"

section \<open>Preparation\<close>

definition event_with_exception :: "bytes \<Rightarrow> time \<Rightarrow> string \<Rightarrow> string \<Rightarrow> u32 \<Rightarrow> event" where
  "event_with_exception uuid t ty function_name lineno =
     \<lparr>ev_event_id = uuid, ev_timestamp = t, ev_platform = None, ev_level = Some Error,
      ev_environment = None, ev_release = None, ev_server_name = None, ev_message = None,
      ev_exception = Some \<lparr>ec_values = [\<lparr>ex_ty = Some ty, ex_value = Some ''v'', ex_module = None,
        ex_stacktrace = Some \<lparr>st_frames = [\<lparr>fr_filename = Some ''src/x.rs'', fr_function = Some function_name,
          fr_module = None, fr_lineno = Some lineno, fr_colno = None, fr_in_app = Some True\<rparr>]\<rparr>\<rparr>]\<rparr>,
      ev_breadcrumbs = None, ev_tags = None, ev_contexts = None, ev_extra = None, ev_user = None,
      ev_request = None\<rparr>"

definition prepare_fills_derived_fields :: "externs \<Rightarrow> bytes \<Rightarrow> time \<Rightarrow> bytes \<Rightarrow> time \<Rightarrow> bool" where
  "prepare_fills_derived_fields X u now u' now' \<longleftrightarrow>
     (let rec = prepare X now ''p1'' (event_with_exception u now ''Boom'' ''f'' 42);
          rec2 = prepare X now' ''p1'' (event_with_exception u' now' ''Boom'' ''f'' 42)
      in ig_project rec = ''p1'' \<and> ig_exception_type rec = ''Boom'' \<and> ig_first_frame rec = ''f:42'' \<and>
         contains ''Boom'' (ig_title rec) \<and> ig_level rec = Some ''error'' \<and>
         ig_fingerprint rec = ig_fingerprint rec2)"

definition prepare_handles_event_without_exception :: "externs \<Rightarrow> bytes \<Rightarrow> time \<Rightarrow> bool" where
  "prepare_handles_event_without_exception X u now \<longleftrightarrow>
     (let rec = prepare X now ''p1'' (ev_message_of u now ''hi'')
      in ig_exception_type rec = ''<no exception>'' \<and> ig_first_frame rec = ''<no frames>'' \<and>
         ig_level rec = None \<and> ig_title rec = ''hi'')"

section \<open>Metrics\<close>

definition new_metrics :: counters where
  "new_metrics = \<lparr>mt_events_accepted = 0, mt_events_rejected_rate_limit = 0, mt_ws_lagged_total = 0\<rparr>"

text \<open>A snapshot has the fields of the counters.\<close>

definition snapshot :: "counters \<Rightarrow> counters" where
  "snapshot m =
     \<lparr>mt_events_accepted = mt_events_accepted m,
      mt_events_rejected_rate_limit = mt_events_rejected_rate_limit m,
      mt_ws_lagged_total = mt_ws_lagged_total m\<rparr>"

definition counters_increment_independently :: bool where
  "counters_increment_independently \<longleftrightarrow>
     (let snap = snapshot (add_ws_lagged 3 (inc_rejected_rate_limit (inc_accepted (inc_accepted new_metrics))))
      in mt_events_accepted snap = 2 \<and> mt_events_rejected_rate_limit snap = 1 \<and> mt_ws_lagged_total snap = 3)"

definition rss_kb_is_some_on_linux :: "(string \<Rightarrow> string option) \<Rightarrow> bool" where
  "rss_kb_is_some_on_linux fs \<longleftrightarrow>
     fs ''/proc/self/status'' = None \<or> (case read_rss_kb fs of Some kb \<Rightarrow> kb > 0 | None \<Rightarrow> False)"

section \<open>They pass\<close>

lemma line_tests_pass:
  read_line_returns_position_after_newline read_line_handles_no_trailing_newline read_line_returns_none_at_eof
  by (simp_all add: read_line_returns_position_after_newline_def read_line_handles_no_trailing_newline_def
      read_line_returns_none_at_eof_def read_line_def)

lemma metrics_test_passes: counters_increment_independently
  by (simp add: counters_increment_independently_def snapshot_def add_ws_lagged_def inc_rejected_rate_limit_def
      inc_accepted_def new_metrics_def)

lemma rss_test_passes:
  assumes "fs ''/proc/self/status'' = Some s" and "0 < n" "n < 2 ^ 64"
    and "text_lines s = ls @ (''VmRSS:'' @ CHR 0x09 # CHR '' '' # show_nat n @ '' kB'') # ms"
    and "list_all (\<lambda>l. \<not> starts_with ''VmRSS:'' l) ls"
  shows "rss_kb_is_some_on_linux fs"
proof -
  have "read_rss_kb fs = Some (of_nat n)"
    using assms rss_of_kernel_line [of ls n ms] by (simp add: read_rss_kb_def)
  moreover have "(0 :: u64) < of_nat n"
    using assms(2,3) by (simp add: word_less_nat_alt unat_of_nat)
  ultimately show ?thesis by (simp add: rss_kb_is_some_on_linux_def)
qed

lemma preparation_tests_pass:
  "prepare_fills_derived_fields X u now u' now'" "prepare_handles_event_without_exception X u now"
proof -
  have same: "derive (event_with_exception u now ''Boom'' ''f'' 42) = derive (event_with_exception u' now' ''Boom'' ''f'' 42)"
    by (simp add: derive_eq_hash_of_input derive_input_def grouping_fields_def primary_exception_def
        first_frame_def event_with_exception_def first_opt_def last_opt_def)
  have line: "show_nat 42 = ''42''"
    by (simp add: show_nat.simps digit_char_def char_of_def bit_0)
  show "prepare_fills_derived_fields X u now u' now'"
    using same line
    by (simp add: prepare_fills_derived_fields_def prepare_def event_title_def primary_exception_def first_frame_def
        event_with_exception_def first_opt_def last_opt_def unwrap_or_def level_str_def contains_def starts_with_def Let_def)
  show "prepare_handles_event_without_exception X u now"
    by (simp add: prepare_handles_event_without_exception_def prepare_def event_title_def primary_exception_def
        ev_message_of_def unwrap_or_def Let_def)
qed

text \<open>What the encoder and the decoder do to a body.\<close>

definition encoded :: "externs \<Rightarrow> (bytes \<Rightarrow> bytes) \<Rightarrow> bytes \<Rightarrow> bool" where
  "encoded X enc p \<longleftrightarrow> take 2 (enc p) = [CHR 0x1F, CHR 0x8B] \<and> x_gzip X (enc p) = (p, False)"

lemma demo_encoded: "encoded demo_externs (\<lambda>p. CHR 0x1F # CHR 0x8B # p) p"
  by (simp add: encoded_def demo_externs_def numeral_2_eq_2)

lemma gunzip_encoded:
  assumes "encoded X enc p"
  shows "maybe_gunzip X (enc p) = (if length p \<le> MAX_DECOMPRESSED then Some p else None)"
proof -
  from assms obtain r where "enc p = CHR 0x1F # CHR 0x8B # r"
    by (auto simp: encoded_def numeral_2_eq_2 take_Suc_conv_app_nth take_Suc split: if_splits)
      (metis list.exhaust list.sel list.distinct(1) take_Suc take_eq_Nil)
  then show ?thesis using assms maybe_gunzip_gzip [of "enc p" X p False] by (simp add: is_gzip_def encoded_def)
qed

lemma gzip_tests_pass:
  "maybe_gunzip_passes_through_plain_bytes X" "maybe_gunzip_handles_empty_input X"
  "encoded X enc ''the quick brown fox jumps over the lazy dog'' \<Longrightarrow> maybe_gunzip_decompresses_gzip_magic X enc"
  "encoded X enc (replicate MAX_DECOMPRESSED (CHR ''x'')) \<Longrightarrow> maybe_gunzip_accepts_payload_at_or_below_limit X enc"
  "encoded X enc (replicate ((MAX_DECOMPRESSED + 1024) * 2) (CHR 0x00)) \<Longrightarrow>
     length (enc (replicate ((MAX_DECOMPRESSED + 1024) * 2) (CHR 0x00))) < 1000000 \<Longrightarrow>
     maybe_gunzip_rejects_oversized_decompression X enc"
proof -
  show "maybe_gunzip_passes_through_plain_bytes X" "maybe_gunzip_handles_empty_input X"
    by (simp_all add: maybe_gunzip_passes_through_plain_bytes_def maybe_gunzip_handles_empty_input_def
        maybe_gunzip_def is_gzip_def)
  show "maybe_gunzip_decompresses_gzip_magic X enc"
    if "encoded X enc ''the quick brown fox jumps over the lazy dog''"
    using gunzip_encoded [OF that] that
    by (simp add: maybe_gunzip_decompresses_gzip_magic_def encoded_def MAX_DECOMPRESSED_def)
  show "maybe_gunzip_accepts_payload_at_or_below_limit X enc"
    if "encoded X enc (replicate MAX_DECOMPRESSED (CHR ''x''))"
    using gunzip_encoded [OF that] by (simp add: maybe_gunzip_accepts_payload_at_or_below_limit_def)
  show "maybe_gunzip_rejects_oversized_decompression X enc"
    if "encoded X enc (replicate ((MAX_DECOMPRESSED + 1024) * 2) (CHR 0x00))"
      "length (enc (replicate ((MAX_DECOMPRESSED + 1024) * 2) (CHR 0x00))) < 1000000"
    using gunzip_encoded [OF that(1)] that(2) by (simp add: maybe_gunzip_rejects_oversized_decompression_def)
qed

text \<open>What serde makes of the texts; the identifier and time of an event are arguments.\<close>

definition event_of_type :: "bytes \<Rightarrow> time \<Rightarrow> string \<Rightarrow> event" where
  "event_of_type uuid t ty =
     (ev_empty uuid t)\<lparr>ev_exception := Some \<lparr>ec_values = [\<lparr>ex_ty = Some ty, ex_value = Some ''v'',
        ex_module = None, ex_stacktrace = None\<rparr>]\<rparr>\<rparr>"

definition test_headers :: "(string \<times> nat) list" where
  "test_headers =
     [(''event'', length (event_body ''Boom'')), (''session'', length session_body), (''event'', 9999)]"

definition test_types :: "string list" where
  "test_types = [''Boom'', ''NoLen'', ''Trail'', ''KeepMe'', ''First'', ''Second'']"

definition reads_test_texts :: "externs \<Rightarrow> bytes \<Rightarrow> time \<Rightarrow> bool" where
  "reads_test_texts X uuid t \<longleftrightarrow>
     x_json X test_header \<noteq> None \<and> x_json X ''not-json'' = None \<and>
     x_json X event_header = Some (JObj [(''type'', JStr ''event'')]) \<and>
     list_all (\<lambda>(ty, n). x_json X (item_header ty n) =
       Some (JObj [(''length'', JNum (PosInt (of_nat n))), (''type'', JStr ty)])) test_headers \<and>
     list_all (\<lambda>ty. x_event X (event_body ty) = Some (event_of_type uuid t ty)) test_types"

lemma one_line:
  "newline \<notin> set test_header" "newline \<notin> set event_header" "newline \<notin> set session_body"
  "newline \<notin> set ty \<Longrightarrow> newline \<notin> set (event_body ty)"
  "newline \<notin> set ty \<Longrightarrow> newline \<notin> set (item_header ty n)"
  using not_in_digits [of newline n]
  by (simp_all add: test_header_def event_header_def session_body_def event_body_def item_header_def member_text_def
      quoted_def is_digit_def)

lemma text_lengths:
  "length test_header = 51" "length event_header = 16" "length session_body = 26"
  "length (event_body ty) = 85 + length ty"
  by (simp_all add: test_header_def event_header_def session_body_def event_body_def member_text_def quoted_def)

lemma item_header_lengths:
  "length (item_header ty 89) = 23 + length ty" "length (item_header ty 26) = 23 + length ty"
  "length (item_header ty 9999) = 25 + length ty"
  by (simp_all add: item_header_def member_text_def quoted_def show_nat.simps)

lemma event_of_type_facts:
  "exception_type_of (event_of_type u t ty) = Some ty"
  "augment_tags_from_user_agent (event_of_type u t ty) = event_of_type u t ty"
  by (simp_all add: event_of_type_def exception_type_of_def primary_exception_def ev_empty_def first_opt_def
      augment_tags_from_user_agent_def extract_user_agent_def)

lemma test_types_one_line: "ty \<in> set test_types \<Longrightarrow> newline \<notin> set ty"
  by (auto simp: test_types_def)

lemma reads_test_textsD:
  assumes "reads_test_texts X u t"
  shows "x_json X test_header \<noteq> None" "x_json X ''not-json'' = None"
    "x_json X event_header = Some (JObj [(''type'', JStr ''event'')])"
    "(ty, n) \<in> set test_headers \<Longrightarrow>
       x_json X (item_header ty n) = Some (JObj [(''length'', JNum (PosInt (of_nat n))), (''type'', JStr ty)])"
    "ty \<in> set test_types \<Longrightarrow> x_event X (event_body ty) = Some (event_of_type u t ty)"
  using assms unfolding reads_test_texts_def list_all_iff by auto

lemmas item_defs = item_ok_def item_event_def item_type_def item_length_def json_get_def json_as_str_def json_as_u64_def

lemma test_items:
  assumes X: "reads_test_texts X u t"
  shows "ty \<in> set test_types \<Longrightarrow> item_ok X (event_header, event_body ty)"
    "ty \<in> set test_types \<Longrightarrow> item_event X (event_header, event_body ty) = Some (event_of_type u t ty)"
    "item_ok X (item_header ''event'' (length (event_body ''Boom'')), event_body ''Boom'')"
    "item_event X (item_header ''event'' (length (event_body ''Boom'')), event_body ''Boom'') =
       Some (event_of_type u t ''Boom'')"
    "item_ok X (item_header ''session'' (length session_body), session_body)"
    "item_event X (item_header ''session'' (length session_body), session_body) = None"
proof -
  note X = reads_test_textsD [OF X]
  have "event_header \<noteq> []" by (simp add: event_header_def)
  then show "ty \<in> set test_types \<Longrightarrow> item_ok X (event_header, event_body ty)"
    using X(3,5) one_line test_types_one_line by (simp add: item_defs)
  show "ty \<in> set test_types \<Longrightarrow> item_event X (event_header, event_body ty) = Some (event_of_type u t ty)"
    using X(3,5) by (simp add: item_defs event_of_type_facts)
  have H: "(''event'', length (event_body ''Boom'')) \<in> set test_headers" "(''session'', length session_body) \<in> set test_headers"
    "''Boom'' \<in> set test_types"
    by (simp_all add: test_headers_def test_types_def)
  have "item_header ty n \<noteq> []" for ty n by (simp add: item_header_def)
  then show "item_ok X (item_header ''event'' (length (event_body ''Boom'')), event_body ''Boom'')"
    "item_ok X (item_header ''session'' (length session_body), session_body)"
    using X(4) [OF H(1)] X(4) [OF H(2)] X(5) [OF H(3)] one_line by (simp_all add: item_defs text_lengths)
  show "item_event X (item_header ''event'' (length (event_body ''Boom'')), event_body ''Boom'') =
      Some (event_of_type u t ''Boom'')"
    "item_event X (item_header ''session'' (length session_body), session_body) = None"
    using X(4) [OF H(1)] X(4) [OF H(2)] X(5) [OF H(3)] by (simp_all add: item_defs event_of_type_facts)
qed

lemma parsed_rendered:
  assumes "reads_test_texts X u t" and "\<forall>it \<in> set its. item_ok X it" and "length (render_envelope test_header its) < 2 ^ 63"
  shows "parsed X (render_envelope test_header its) P \<longleftrightarrow> P (List.map_filter (item_event X) its)"
  using parse_envelope_render_aux [of test_header X its] reads_test_textsD(1) [OF assms(1)] one_line(1) assms(2,3)
  by (simp add: parsed_def)

lemmas rendered = render_envelope_def render_item_def map_filter_simps event_of_type_facts text_lengths
  item_header_lengths Let_def

lemma envelope_tests_pass:
  assumes X: "reads_test_texts X u t"
  shows "parses_single_event_with_length_prefix X" "parses_event_without_length_field X"
    "skips_non_event_items X" "parses_two_events_in_one_envelope X"
    "empty_envelope_with_only_header_yields_no_events X"
proof -
  note items = test_items [OF X] and parse = parsed_rendered [OF X]
  have types: "''NoLen'' \<in> set test_types" "''KeepMe'' \<in> set test_types" "''First'' \<in> set test_types"
    "''Second'' \<in> set test_types"
    by (simp_all add: test_types_def)
  show "parses_single_event_with_length_prefix X"
    using parse [of "[(item_header ''event'' (length (event_body ''Boom'')), event_body ''Boom'')]"] items(3,4)
    by (simp add: parses_single_event_with_length_prefix_def rendered)
  show "parses_event_without_length_field X"
    using parse [of "[(event_header, event_body ''NoLen'')]"] items(1,2) [OF types(1)]
    by (simp add: parses_event_without_length_field_def rendered)
  show "skips_non_event_items X"
    using parse [of "[(item_header ''session'' (length session_body), session_body), (event_header, event_body ''KeepMe'')]"]
      items(1,2) [OF types(2)] items(5,6)
    by (simp add: skips_non_event_items_def rendered)
  show "parses_two_events_in_one_envelope X"
    using parse [of "[(event_header, event_body ''First''), (event_header, event_body ''Second'')]"]
      items(1,2) [OF types(3)] items(1,2) [OF types(4)]
    by (simp add: parses_two_events_in_one_envelope_def rendered)
  show "empty_envelope_with_only_header_yields_no_events X"
    using parse [of "[]"] by (simp add: empty_envelope_with_only_header_yields_no_events_def rendered)
qed

lemma parse_items_at_end: "length raw \<le> cursor \<Longrightarrow> parse_items X raw cursor evs = Ok evs"
  by (subst parse_items.simps) simp

text \<open>A last payload that no newline closes runs to the end of the body.\<close>

lemma parse_open_payload:
  assumes "newline \<notin> set hdr" "x_json X hdr \<noteq> None" and "h \<noteq> []" "newline \<notin> set h" "x_json X h = Some hj"
    and "item_length hj = None" "item_type hj = ''event''" and "newline \<notin> set p" "x_event X p = Some e"
  shows "parse_envelope X (hdr @ newline # h @ newline # p) = Ok [augment_tags_from_user_agent e]"
proof -
  let ?raw = "hdr @ newline # h @ newline # p" and ?n = "length hdr + length h + 2"
  have r1: "read_line ?raw 0 = Some (length hdr + 1, length hdr + 1)"
    using read_line_line [OF assms(1), of "[]"] by simp
  have r2: "read_line ?raw (length hdr + 1) = Some (?n, ?n)"
    using read_line_line [OF assms(4), of "hdr @ [newline]" p] by simp
  have "position is_newline p = None" using assms(8) by (auto simp: position_none)
  then have pe: "payload_end ?raw ?n hj = Ok (length ?raw)"
    using assms(6) by (simp add: payload_end_def slice_def)
  have "slice ?raw (length hdr + 1) (?n - 1) = (Ok h :: (proto_error, bytes) outcome)"
    "slice ?raw ?n (length ?raw) = (Ok p :: (proto_error, bytes) outcome)"
    by (simp_all add: slice_def)
  with r2 pe assms have "parse_item X ?raw (length hdr + 1) = Ok (Some (length ?raw, Some (augment_tags_from_user_agent e)))"
    by (simp add: parse_item_def Let_def)
  then have "parse_items X ?raw (length hdr + 1) [] = Ok [augment_tags_from_user_agent e]"
    by (subst parse_items.simps) (simp add: parse_items_at_end)
  with r1 assms(2) show ?thesis by (auto simp: parse_envelope_def slice_def)
qed

lemma open_payload_test_passes:
  assumes X: "reads_test_texts X u t"
  shows "parses_event_without_trailing_newline X"
proof -
  note D = reads_test_textsD [OF X]
  have "''Trail'' \<in> set test_types" by (simp add: test_types_def)
  moreover have "event_header \<noteq> []" by (simp add: event_header_def)
  ultimately have "parse_envelope X (test_header @ newline # event_header @ newline # event_body ''Trail'') =
      Ok [event_of_type u t ''Trail'']"
    using D(1,3,5) one_line
    by (subst parse_open_payload [where e = "event_of_type u t ''Trail''" and hj = "JObj [(''type'', JStr ''event'')]"])
       (simp_all add: item_defs event_of_type_facts)
  then show ?thesis by (simp add: parses_event_without_trailing_newline_def parsed_def)
qed

lemma rejection_tests_pass:
  assumes X: "reads_test_texts X u t"
  shows "rejects_envelope_with_no_header X" "rejects_invalid_json_header X" "rejects_length_overflowing_envelope X"
proof -
  note D = reads_test_textsD [OF X]
  show "rejects_envelope_with_no_header X"
    by (simp add: rejects_envelope_with_no_header_def is_invalid_envelope_def parse_envelope_def read_line_def)
  have "read_line (''not-json'' @ [newline]) 0 = Some (9, 9)"
    using read_line_line [of "''not-json''" "[]" "[]"] by simp
  then show "rejects_invalid_json_header X"
    using D(2) by (simp add: rejects_invalid_json_header_def parse_envelope_def slice_def)
  let ?h = "item_header ''event'' 9999" and ?p = "''short''"
  let ?raw = "test_header @ newline # ?h @ newline # ?p"
  have r: "read_line ?raw 0 = Some (52, 52)" "read_line ?raw 52 = Some (83, 83)"
    using read_line_line [OF one_line(1), of "[]" "?h @ newline # ?p"]
      read_line_line [OF one_line(5), of "''event''" "test_header @ [newline]" 9999 ?p]
    by (simp_all add: text_lengths item_header_lengths)
  have "(''event'', 9999) \<in> set test_headers" by (simp add: test_headers_def)
  from D(4) [OF this] have h: "x_json X ?h = Some (JObj [(''length'', JNum (PosInt 9999)), (''type'', JStr ''event'')])"
    by simp
  have "slice ?raw 52 (83 - 1) = (Ok ?h :: (proto_error, bytes) outcome)"
    using text_lengths(1) item_header_lengths(3) [of "''event''"] by (simp add: slice_def)
  moreover have "payload_end ?raw 83 (JObj [(''length'', JNum (PosInt 9999)), (''type'', JStr ''event'')]) =
      Err (InvalidEnvelope ''item length exceeds envelope size'')"
    by (simp add: payload_end_def item_defs usize_add_def text_lengths item_header_lengths)
  moreover have "?h \<noteq> []" by (simp add: item_header_def)
  ultimately have "parse_item X ?raw 52 = Err (InvalidEnvelope ''item length exceeds envelope size'')"
    using r(2) h by (simp add: parse_item_def Let_def)
  then have "parse_items X ?raw 52 [] = Err (InvalidEnvelope ''item length exceeds envelope size'')"
    by (simp add: parse_items.simps [of X ?raw 52] text_lengths item_header_lengths)
  with r(1) D(1) show "rejects_length_overflowing_envelope X"
    by (auto simp: rejects_length_overflowing_envelope_def is_invalid_envelope_def parse_envelope_def slice_def
        text_lengths item_header_lengths)
qed

text \<open>Such a reader exists.\<close>

definition test_reader :: "bytes \<Rightarrow> time \<Rightarrow> externs" where
  "test_reader u t = demo_externs\<lparr>
     x_json := \<lambda>s. if s = ''not-json'' then None else if s = event_header then Some (JObj [(''type'', JStr ''event'')])
       else case find (\<lambda>(ty, n). s = item_header ty n) test_headers of
         Some (ty, n) \<Rightarrow> Some (JObj [(''length'', JNum (PosInt (of_nat n))), (''type'', JStr ty)])
       | None \<Rightarrow> Some JNull,
     x_event := \<lambda>s. map_option (event_of_type u t) (find (\<lambda>ty. s = event_body ty) test_types)\<rparr>"

lemma different_lengths: "length s \<noteq> length t \<Longrightarrow> s \<noteq> t"
  by auto

lemma some_reader_of_texts: "reads_test_texts (test_reader u t) u t"
proof -
  have "item_header ''event'' n \<noteq> item_header ''session'' m" for n m
    by (simp add: item_header_def member_text_def quoted_def)
  moreover from this have "item_header ''session'' m \<noteq> item_header ''event'' n" for n m
    by metis
  moreover have "event_body a = event_body b \<longleftrightarrow> a = b" for a b
    by (simp add: event_body_def member_text_def quoted_def)
  moreover have "test_header \<noteq> ''not-json''" "event_header \<noteq> ''not-json''" "item_header ''event'' n \<noteq> ''not-json''"
    "item_header ''session'' n \<noteq> ''not-json''" for n
    by (simp_all add: test_header_def event_header_def item_header_def)
  moreover have "item_header ''event'' 89 \<noteq> event_header" "item_header ''session'' 26 \<noteq> event_header"
    "item_header ''event'' 9999 \<noteq> event_header" "item_header ''event'' 9999 \<noteq> item_header ''event'' 89"
    "test_header \<noteq> item_header ''event'' 89" "test_header \<noteq> item_header ''session'' 26"
    "test_header \<noteq> item_header ''event'' 9999"
    by (intro different_lengths; simp add: text_lengths item_header_lengths)+
  ultimately show ?thesis
    by (auto simp: reads_test_texts_def test_reader_def test_headers_def test_types_def text_lengths
        split: option.split)
qed

end
