(* ===== verification/Spec2Isabelle.thy ===== *)
theory Spec2Isabelle
  imports Process Races Stress_Run Tests_Fingerprint Tests_User_Agent Tests_Guard Tests_Config Tests_Webhook
    Tests_Ingest
begin

text \<open>
  \<^bold>\<open>errexd, a self-hosted error tracker.\<close> SDKs post envelopes of error events to the daemon
  (\<open>crates/errexd\<close>), which groups them into issues by fingerprint, stores them in SQLite, announces every
  change to connected browsers over a WebSocket and new and regressed issues to webhooks, and lets
  signed-in users triage issues and administer projects, users and retention. The wire types are in
  \<open>crates/errex-proto\<close>. \<open>scripts/stress\<close> is the load harness that drives a daemon over HTTP and WebSocket.
  This development models the three and proves what makes them correct, and where they are not.

  \<^bold>\<open>How the parts interact.\<close> An HTTP request is dispatched to its handler (\<open>ingest.rs\<close>, \<open>auth.rs\<close>, \<open>ws.rs\<close>,
  \<open>spa.rs\<close>), which works on the store (\<open>store.rs\<close>) and may put messages on the fan-out channel or
  events on the ingest queue. The digest task (\<open>digest.rs\<close>) alone consumes the queue, a batch of at
  most sixteen at a time and one transaction each, broadcasts one message per event and offers
  triggers to the bounded channel of the webhook task (\<open>webhook.rs\<close>). The retention task
  (\<open>retention.rs\<close>) purges hourly. \<open>main.rs\<close> builds the shared state and spawns the tasks.

  \<^bold>\<open>Theories.\<close> In the order of their imports:
  \<^item> \<open>Prelude\<close>, \<open>Decimal\<close>: strings as bytes, white space, splitting, decimal and hexadecimal text, parsing of
    numbers and slicing of strings, list lemmas.
  \<^item> \<open>Proto\<close>: \<open>errex-proto\<close>: events, issues and their statuses, wire messages, metric labels.
  \<^item> \<open>Fingerprint\<close>, \<open>User_Agent\<close>: \<open>fingerprint.rs\<close> (FNV-1a on 64-bit words) and \<open>user_agent.rs\<close>.
  \<^item> \<open>Externs\<close>, \<open>Demo_Externs\<close>: the record \<open>externs\<close> of everything that is not the program's (serde_json,
    flate2, chrono's and SQLite's date texts, argon2, URL and IP parsing), the documented behaviour of
    some of it as named hypotheses, and an instance that satisfies them, used by the witnesses.
  \<^item> \<open>Db\<close>: the tables as a record \<open>db\<close> of row lists, and operations \<open>('z, 'a) op\<close>: state passing on a world
    with the database, a fault schedule and the clock, whose result is \<open>Ok\<close>, \<open>Err\<close> or \<open>Panic\<close>. A statement
    asks the schedule whether it fails; \<open>tx\<close> rolls back. Here are the calculus (\<open>wp\<close>, \<open>preserves\<close>, \<open>atomic\<close>,
    \<open>framed\<close>) and the interface of a keyed table.
  \<^item> \<open>Schema\<close>, \<open>Store_Issues\<close>, \<open>Store_Projects\<close>, \<open>Store_Users\<close>, \<open>Store_Retention\<close>, \<open>Store\<close>: \<open>store.rs\<close>, one
    definition per method and per SQL statement. The migrations' keys, references and checks are
    \<open>schema_ok\<close>. \<open>Store_Issues\<close> holds the abstract ledger of groups and the log of events that the upsert
    implements, as an interface (\<open>issue_ledger\<close>) interpreted on the store.
  \<^item> \<open>Aspects\<close>: interfaces for invariants that look at some tables only, interpreted on the daemon's.
  \<^item> \<open>Rate_Limit\<close>, \<open>Login_Guard\<close>: \<open>rate_limit.rs\<close>, \<open>lockout.rs\<close>, \<open>crypto.rs\<close>. Rates are rationals under a rounding
    function, which stands for \<open>f64\<close>.
  \<^item> \<open>Http\<close>, \<open>Auth\<close>: responses, the server's world (queue, fan-out, limiter, counters), cookies, the gates
    \<open>require_auth\<close> and \<open>require_admin\<close> as interpretations of the interface \<open>access_gate\<close>, set-up, login, logout.
  \<^item> \<open>Envelope\<close>: gzip bound and the envelope parser of \<open>ingest.rs\<close>, with slices that panic and sums that wrap.
  \<^item> \<open>Webhook\<close>, \<open>Digest\<close>, \<open>Retention\<close>, \<open>Ws\<close>, \<open>Spa\<close>, \<open>Config\<close>: the modules of those names.
  \<^item> \<open>Api\<close>, \<open>Api_Users\<close>, \<open>Ingest\<close>: the remaining handlers of \<open>ingest.rs\<close>.
  \<^item> \<open>Cli\<close>: the commands and the boot configuration of \<open>main.rs\<close>.
  \<^item> \<open>Router\<close>: requests, their dispatch (\<open>build_router\<close>), and invariants of the tables for every request.
  \<^item> \<open>System\<close>: the tasks as one labelled step relation, its runs, and the properties of runs.
  \<^item> \<open>Process\<close>: the command line, boot, \<open>select!\<close> and exit of \<open>main.rs\<close>, the digest task as a loop that may
    not return, the request of \<open>post_json\<close>, the connection options of the store, the layers around
    responses; lives of processes, and installations as sequences of them.
  \<^item> \<open>Interleaving\<close>, \<open>Races\<close>: tasks with one step per \<open>await\<close>, pools of tasks whose steps are interleaved, an
    interface for tasks that take turns; the handlers of \<open>ingest.rs\<close> and \<open>auth.rs\<close> that check before they
    write, as such tasks.
  \<^item> \<open>Calendar\<close>, \<open>Process_Status\<close>, \<open>Stress\<close>, \<open>Stress_Time\<close>, \<open>Stress_Run\<close>: the harness, \<open>scripts/stress\<close>: its date
    arithmetic, the memory size in \<open>/proc\<close> (shared with \<open>metrics.rs\<close>), its envelopes, worker and subscriber
    loops and report; what its timestamps, its pacing and its events are.
  \<^item> \<open>Tests_Fingerprint\<close>, \<open>Tests_User_Agent\<close>, \<open>Tests_Guard\<close>, \<open>Tests_Config\<close>, \<open>Tests_Webhook\<close>, \<open>Tests_Ingest\<close>: the unit
    tests of the crate, one definition per test with the assertions it makes, and the lemmas that they pass
    on the model: the model was checked against the expectations the code is shipped with, golden hashes
    and delivery status codes included. What a test takes from another library is an argument or a named
    hypothesis, with an instance that satisfies it.

  \<^bold>\<open>What the lemmas show.\<close>
  \<^item> Storing: a batch has exactly the effect of the ledger or none, under any faults; the constraints
    hold after every method; methods that report an error changed nothing; the purges keep the newest
    rows within their bounds.
  \<^item> Ingest: envelopes written as the protocol says are read back exactly; a 200 means authorised, within
    the rate and queued; the digest implements the ledger whatever the batching; every accepted event
    is recorded after at most one digest turn per sixteen queued events, if the database works.
  \<^item> Access: administration is for administrators, reading for accounts; a session costs the password;
    at most five wrong guesses per window; sessions end with logout and deactivation; the WebSocket
    opens only for the daemon's own origin.
  \<^item> Whole system: from an empty database every run keeps the schema, an active administrator, and (but
    for the command line) webhook addresses that passed the gate; from a new file every sequence of
    process lives keeps schema and administrator. The digest task returns exactly when its senders are
    gone, with its queue drained.
  \<^item> Overlap: run without interruption the tasks are the handlers; if removals of users take turns, any
    other overlap keeps an active administrator.
  \<^item> Harness: its calendar is the Gregorian one, it reads back the timestamps it and the daemon write,
    a worker keeps to its rate and counts every request once.
  \<^item> Flaws: envelope lengths that wrap end the daemon; so does a huge retention setting; IPv4-mapped
    addresses and the command line pass by the webhook gate; two overlapping demotions lose the last
    administrator, two overlapping setups make two, and a DELETE that overlaps a PATCH of the same user
    ends the daemon; the harness's events all fall into one group, and a daemon with default settings
    refuses them; bind hosts that are no IPv4 literal panic at boot; the age purge deletes up to a day
    too much; the activity chart is always empty; a deactivated account's live session is accepted.

  \<^bold>\<open>Bounds and loops.\<close> No definition uses fuel. The parser recurses on a position that grows, the digest on a
  queue that shrinks, the WebSocket session and the loops of the harness on the list of what they
  observe; each of these has its measure. \<open>digest_task\<close> alone may not return: it is a partial function,
  and it is proved when it does. Lengths and counters are 64-bit words where they wrap, counts of rows are naturals.

  \<^bold>\<open>Not modelled.\<close> axum's extraction and matching (a request arrives with its arguments; a body that does not
  deserialize is \<open>None\<close>), clap's parsing, tokio's scheduling: a handler runs in one step, except in \<open>Races\<close>.
  What tower-http, the HTTP client, sockets, files, signals and the histogram library do enters as
  parameters. The ingest channel grows without blocking, as a handler that waits for room lets the
  digest run; a panic is a result of its task, and ends the process in \<open>Races\<close> and \<open>Process\<close>. Not modelled at
  all: the MCP and triage stubs, the text of log lines, the SQL of the migrations beyond its
  constraints, the integration tests in \<open>crates/errexd/tests\<close>, and the web front end.
\<close>

end
